(* ===== verification/Prelude.thy ===== *)
theory Prelude
  imports Main "HOL-Library.Word" "HOL-Library.Code_Target_Nat"
begin

text \<open>
  Shared vocabulary of the development: the machine integers of the Rust sources, their
  saturating and wrapping operations, the slice operations of the standard library that the
  components use, and the generic lemmas about them.

  \<^item> \<open>u64\<close> and \<open>u32\<close> are words, so that \<open>+\<close> wraps as in a release build.
  \<^item> \<open>i64\<close> values (times in Unix milliseconds) are integers; the operations below clamp or
    wrap them at 64 bits where the source does.
\<close>

named_theorems sat_simps \<open>saturating word arithmetic read as natural numbers\<close>

type_synonym u64 = "64 word"
type_synonym u32 = "32 word"
type_synonym i64 = int

section \<open>Definitions\<close>

subsection \<open>Unsigned saturating arithmetic\<close>

definition sat_add :: "'a::len word \<Rightarrow> 'a word \<Rightarrow> 'a word" where
  "sat_add a b = (if uint a + uint b < 2 ^ LENGTH('a) then a + b else - 1)"

definition sat_sub :: "'a::len word \<Rightarrow> 'a word \<Rightarrow> 'a word" where
  "sat_sub a b = (if b \<le> a then a - b else 0)"

definition sat_mul :: "'a::len word \<Rightarrow> 'a word \<Rightarrow> 'a word" where
  "sat_mul a b = (if uint a * uint b < 2 ^ LENGTH('a) then a * b else - 1)"

definition checked_sub :: "'a::len word \<Rightarrow> 'a word \<Rightarrow> 'a word option" where
  "checked_sub a b = (if b \<le> a then Some (a - b) else None)"

subsection \<open>Signed 64-bit arithmetic\<close>

definition i64_max :: i64 where
  "i64_max = 2 ^ 63 - 1"

definition i64_min :: i64 where
  "i64_min = - (2 ^ 63)"

definition i64_clamp :: "int \<Rightarrow> i64" where
  "i64_clamp x = max i64_min (min i64_max x)"

definition i64_wrap :: "int \<Rightarrow> i64" where
  "i64_wrap x = (x + 2 ^ 63) mod 2 ^ 64 - 2 ^ 63"

definition i64_add :: "i64 \<Rightarrow> i64 \<Rightarrow> i64" where
  "i64_add a b = i64_wrap (a + b)"

definition i64_sat_add :: "i64 \<Rightarrow> i64 \<Rightarrow> i64" where
  "i64_sat_add a b = i64_clamp (a + b)"

definition i64_sat_sub :: "i64 \<Rightarrow> i64 \<Rightarrow> i64" where
  "i64_sat_sub a b = i64_clamp (a - b)"

definition is_i64 :: "int \<Rightarrow> bool" where
  "is_i64 x \<longleftrightarrow> i64_min \<le> x \<and> x \<le> i64_max"

subsection \<open>Slices\<close>

text \<open>
  \<open>slice::partition_point\<close> on a slice that is partitioned by the predicate (the only case the
  standard library specifies): the length of the leading part. \<open>partitioned\<close> is that
  precondition.
\<close>

definition partition_point :: "('a \<Rightarrow> bool) \<Rightarrow> 'a list \<Rightarrow> nat" where
  "partition_point P xs = length (takeWhile P xs)"

definition partitioned :: "('a \<Rightarrow> bool) \<Rightarrow> 'a list \<Rightarrow> bool" where
  "partitioned P xs \<longleftrightarrow> sorted_wrt (\<lambda>x y. P y \<longrightarrow> P x) xs"

text \<open>\<open>Vec::insert\<close>; the source only calls it with an index within the length.\<close>

definition insert_at :: "nat \<Rightarrow> 'a \<Rightarrow> 'a list \<Rightarrow> 'a list" where
  "insert_at i x xs = take i xs @ x # drop i xs"

text \<open>\<open>slice::get\<close>.\<close>

definition slice_get :: "'a list \<Rightarrow> nat \<Rightarrow> 'a option" where
  "slice_get xs i = (if i < length xs then Some (xs ! i) else None)"

subsection \<open>Sequences of checks\<close>

text \<open>
  A validator of type \<open>Result<(), E>\<close> is the first of its checks that fails, if any: \<open>None\<close> is
  \<open>Ok(())\<close>. Checks that follow an early return are pure, so their order is the list order.
\<close>

definition fail_if :: "bool \<Rightarrow> 'e \<Rightarrow> 'e option" where
  "fail_if b e = (if b then Some e else None)"

fun first_error :: "'e option list \<Rightarrow> 'e option" where
  "first_error [] = None"
| "first_error (c # cs) = (case c of Some e \<Rightarrow> Some e | None \<Rightarrow> first_error cs)"

text \<open>The checks of the elements of a list, each with its index.\<close>

definition each :: "(nat \<Rightarrow> 'a \<Rightarrow> 'e option) \<Rightarrow> 'a list \<Rightarrow> 'e option" where
  "each f xs = first_error (map (\<lambda>(i, x). f i x) (enumerate 0 xs))"

text \<open>\<open>Result::and_then\<close>, and a check before a computation.\<close>

definition and_then :: "'e + 'a \<Rightarrow> ('a \<Rightarrow> 'e + 'b) \<Rightarrow> 'e + 'b" where
  "and_then r f = (case r of Inl e \<Rightarrow> Inl e | Inr a \<Rightarrow> f a)"

definition ensure :: "'e option \<Rightarrow> 'e + 'a \<Rightarrow> 'e + 'a" where
  "ensure c r = (case c of Some e \<Rightarrow> Inl e | None \<Rightarrow> r)"

definition ok_or :: "'e \<Rightarrow> 'a option \<Rightarrow> 'e + 'a" where
  "ok_or e a = (case a of None \<Rightarrow> Inl e | Some x \<Rightarrow> Inr x)"

section \<open>Lemmas\<close>

subsection \<open>Unsigned saturating arithmetic\<close>

lemma unat_bound64: "unat (x :: u64) < 18446744073709551616"
  by (rule order_less_le_trans [OF unsigned_less]) simp

lemma unat_minus_one_word: "unat (- 1 :: 'a::len word) = 2 ^ LENGTH('a) - 1"
  by (simp add: unsigned_minus_1_eq_mask mask_eq_exp_minus_1)

lemma uint_less_exp_iff:
  "uint a + uint b < 2 ^ n \<longleftrightarrow> unat a + unat (b :: 'a::len word) < 2 ^ n"
  "uint a * uint b < 2 ^ n \<longleftrightarrow> unat a * unat b < 2 ^ n"
proof -
  have "int (unat a + unat b) < int (2 ^ n) \<longleftrightarrow> unat a + unat b < 2 ^ n"
    "int (unat a * unat b) < int (2 ^ n) \<longleftrightarrow> unat a * unat b < 2 ^ n"
    by (simp_all only: of_nat_less_iff)
  then show "uint a + uint b < 2 ^ n \<longleftrightarrow> unat a + unat b < 2 ^ n"
    "uint a * uint b < 2 ^ n \<longleftrightarrow> unat a * unat b < 2 ^ n"
    by simp_all
qed

lemma unat_sat_add [sat_simps]:
  "unat (sat_add a b :: 'a::len word) = min (unat a + unat b) (2 ^ LENGTH('a) - 1)"
  by (auto simp: sat_add_def uint_less_exp_iff unat_word_ariths unat_minus_one_word)

lemma unat_sat_sub [sat_simps]:
  "unat (sat_sub a b :: 'a::len word) = unat a - unat b"
  by (auto simp: sat_sub_def word_le_nat_alt unat_sub)

lemma unat_sat_mul [sat_simps]:
  "unat (sat_mul a b :: 'a::len word) = min (unat a * unat b) (2 ^ LENGTH('a) - 1)"
  by (auto simp: sat_mul_def uint_less_exp_iff unat_word_ariths unat_minus_one_word)

lemma le_sat_add_one [sat_simps]:
  "(x :: 'a::len word) \<le> sat_add y 1 \<longleftrightarrow> unat x \<le> unat y + 1"
proof -
  have "unat x \<le> 2 ^ LENGTH('a) - 1"
    using unsigned_less [of x] by (metis Suc_diff_1 less_Suc_eq_le zero_less_numeral zero_less_power)
  then show ?thesis by (simp add: word_le_nat_alt sat_simps)
qed

lemma sat_sub_0 [simp]: "sat_sub a 0 = a" "sat_sub 0 a = (0 :: 'a::len word)"
  by (auto simp: sat_sub_def)

lemma sat_sub_le: "sat_sub a b \<le> (a :: 'a::len word)"
  by (simp add: word_le_nat_alt sat_simps)

lemma sat_sub_eq_0: "a \<le> b \<Longrightarrow> sat_sub a b = (0 :: 'a::len word)"
  by (simp add: sat_sub_def)

lemma sat_sub_neq_0: "b < a \<Longrightarrow> sat_sub a b \<noteq> (0 :: 'a::len word)"
  by (metis eq_iff_diff_eq_0 less_imp_le order_less_irrefl sat_sub_def)

lemma checked_sub_Some:
  "checked_sub a b = Some c \<longleftrightarrow> b \<le> a \<and> c = a - b"
  by (auto simp: checked_sub_def)

lemma unat_max_word: "unat (max a b) = max (unat a) (unat (b :: 'a::len word))"
  by (auto simp: max_def word_le_nat_alt)

lemma unat_min_word: "unat (min a b) = min (unat a) (unat (b :: 'a::len word))"
  by (auto simp: min_def word_le_nat_alt)

lemma max_word_0 [simp]: "max x 0 = (x :: 'a::len word)" "max 0 x = x"
  by (simp_all add: max_absorb1 max_absorb2)

lemmas word_nat_simps = word_le_nat_alt word_less_nat_alt unat_max_word unat_min_word

lemma unat_less_succ_bound:
  assumes "(a :: 'a::len word) < b"
  shows "unat a + 1 < 2 ^ LENGTH('a)"
proof -
  have "unat a + 1 \<le> unat b" using assms by (simp add: word_less_nat_alt)
  also have "unat b < 2 ^ LENGTH('a)" by (rule unsigned_less)
  finally show ?thesis .
qed

lemma unat_succ: "(a :: 'a::len word) < b \<Longrightarrow> unat (a + 1) = unat a + 1"
  using unat_less_succ_bound [of a b] by (simp add: unat_word_ariths)

lemma unat_not_max: "a \<noteq> - 1 \<Longrightarrow> unat (a :: 'a::len word) + 1 < 2 ^ LENGTH('a)"
  by (rule unat_less_succ_bound [of a "- 1"]) (simp add: word_order.not_eq_extremum [symmetric])

lemma less_succ: "a \<noteq> - 1 \<Longrightarrow> (a :: 'a::len word) < a + 1"
  using unat_not_max [of a] by (simp add: word_less_nat_alt unat_word_ariths)

lemma less_iff_succ_le: "a \<noteq> - 1 \<Longrightarrow> (a :: 'a::len word) < s \<longleftrightarrow> a + 1 \<le> s"
  using unat_not_max [of a] by (simp add: word_nat_simps unat_word_ariths Suc_le_eq)

lemma less_not_max: "(a :: 'a::len word) < b \<Longrightarrow> a \<noteq> - 1"
  by (metis word_order.extremum_strict)

lemma word_one_le: "(1 :: 'a::len word) \<le> a \<longleftrightarrow> a \<noteq> 0"
  by (simp add: word_le_nat_alt Suc_le_eq unat_gt_0)

lemma unat_bound32: "unat (x :: u32) < 4294967296"
  by (rule order_less_le_trans [OF unsigned_less]) simp

lemma unat_u32_to_u64 [simp]: "unat (ucast (x :: u32) :: u64) = unat x"
  using unat_bound32 [of x] by (simp add: unsigned_ucast_eq take_bit_nat_eq_self)

lemma unat_u64_to_u32: "unat (ucast (x :: u64) :: u32) = unat x mod 2 ^ 32"
  by (simp add: unsigned_ucast_eq take_bit_eq_mod)

subsection \<open>Signed 64-bit arithmetic\<close>

lemma i64_wrap_id [simp]: "is_i64 x \<Longrightarrow> i64_wrap x = x"
  by (simp add: is_i64_def i64_wrap_def i64_max_def i64_min_def)

lemma is_i64_wrap [simp]: "is_i64 (i64_wrap x)"
proof -
  have "0 \<le> (x + 2 ^ 63) mod (2 ^ 64 :: int)" "(x + 2 ^ 63) mod (2 ^ 64 :: int) < 2 ^ 64"
    by simp_all
  then show ?thesis
    unfolding is_i64_def i64_wrap_def i64_max_def i64_min_def by simp
qed

lemma i64_clamp_id [simp]: "is_i64 x \<Longrightarrow> i64_clamp x = x"
  by (simp add: is_i64_def i64_clamp_def)

lemma is_i64_clamp [simp]: "is_i64 (i64_clamp x)"
  by (simp add: is_i64_def i64_clamp_def i64_max_def i64_min_def)

subsection \<open>Slices\<close>

lemma partition_point_le: "partition_point P xs \<le> length xs"
  by (simp add: partition_point_def length_takeWhile_le)

lemma set_insert_at [simp]: "set (insert_at i x xs) = insert x (set xs)"
proof -
  have "set (take i xs) \<union> set (drop i xs) = set xs"
    by (metis append_take_drop_id set_append)
  then show ?thesis by (auto simp: insert_at_def)
qed

lemma insert_at_partition_point:
  "insert_at (partition_point P xs) x xs = takeWhile P xs @ x # dropWhile P xs"
  by (simp add: insert_at_def partition_point_def takeWhile_eq_take [symmetric]
      dropWhile_eq_drop [symmetric])

text \<open>Past the partition point of a partitioned list the predicate fails everywhere.\<close>

lemma partitioned_dropWhile:
  assumes "partitioned P xs" "x \<in> set (dropWhile P xs)"
  shows "\<not> P x"
  using assms
proof (induction xs)
  case Nil
  then show ?case by simp
next
  case (Cons y ys)
  then show ?case by (auto simp: partitioned_def split: if_splits)
qed

lemma slice_get_partition_point:
  "slice_get xs (partition_point P xs) =
     (case dropWhile P xs of [] \<Rightarrow> None | x # _ \<Rightarrow> Some x)"
proof (induction xs)
  case Nil
  then show ?case by (simp add: slice_get_def)
next
  case (Cons x xs)
  then show ?case by (cases "P x") (auto simp: slice_get_def partition_point_def split: if_splits)
qed

subsection \<open>Sequences of checks\<close>

named_theorems check_simps \<open>what a passed check means\<close>

lemma fail_if_None [check_simps]: "fail_if b e = None \<longleftrightarrow> \<not> b"
  by (simp add: fail_if_def)

lemma first_error_None [check_simps]: "first_error cs = None \<longleftrightarrow> list_all (\<lambda>c. c = None) cs"
  by (induction cs) (auto split: option.split)

lemma first_error_Some: "first_error cs = Some e \<Longrightarrow> Some e \<in> set cs"
  by (induction cs) (auto split: option.splits)

declare first_error.simps [simp del]

lemma each_None [check_simps]: "each f xs = None \<longleftrightarrow> (\<forall>i < length xs. f i (xs ! i) = None)"
  by (simp add: each_def first_error_None list_all_length nth_enumerate_eq)

lemma and_then_Inr [check_simps]: "and_then r f = Inr b \<longleftrightarrow> (\<exists>a. r = Inr a \<and> f a = Inr b)"
  by (cases r) (simp_all add: and_then_def)

lemma ensure_Inr [check_simps]: "ensure c r = Inr b \<longleftrightarrow> c = None \<and> r = Inr b"
  by (cases c) (simp_all add: ensure_def)

lemma ok_or_Inr [check_simps]: "ok_or e a = Inr x \<longleftrightarrow> a = Some x"
  by (cases a) (simp_all add: ok_or_def)

end
