(* ===== verification/Timeline_Coverage.thy ===== *)
theory Timeline_Coverage
  imports Prelude
begin

text \<open>
  The proven ranges of a conversation's timeline (\<open>src/domain/timeline/coverage.rs\<close>).

  A coverage is a list of closed ranges of sequence numbers. The set of sequence numbers it
  proves is \<open>proven\<close>; \<open>coverage_ok\<close> is the canonical form that the source's comment states
  (ascending, disjoint, not adjacent). The lemmas show that insertion refines set union on
  canonical coverages, that the canonical form is unique, that the look-ups answer for the
  set, and that the ranges the sync code derives from server pages claim nothing that the
  page does not show.
\<close>

section \<open>Definitions\<close>

record SeqRange =
  sr_from :: u64
  sr_to :: u64

definition SeqRange_new :: "u64 \<Rightarrow> u64 \<Rightarrow> SeqRange option" where
  "SeqRange_new from to =
     (let from = max from 1 in
      if to \<ge> from then Some \<lparr>sr_from = from, sr_to = to\<rparr> else None)"

definition SeqRange_contains :: "SeqRange \<Rightarrow> u64 \<Rightarrow> bool" where
  "SeqRange_contains r seq \<longleftrightarrow> sr_from r \<le> seq \<and> seq \<le> sr_to r"

definition touches :: "SeqRange \<Rightarrow> SeqRange \<Rightarrow> bool" where
  "touches r other \<longleftrightarrow>
     sr_from r \<le> sat_add (sr_to other) 1 \<and> sr_from other \<le> sat_add (sr_to r) 1"

record TimelineCoverage =
  tc_ranges :: "SeqRange list"

definition coverage_new :: TimelineCoverage where
  "coverage_new = \<lparr>tc_ranges = []\<rparr>"

definition coverage_is_empty :: "TimelineCoverage \<Rightarrow> bool" where
  "coverage_is_empty c \<longleftrightarrow> tc_ranges c = []"

text \<open>The closure of \<open>Vec::retain\<close> in \<open>insert\<close>: one pass that threads \<open>merged\<close>.\<close>

fun retain_merge :: "SeqRange \<Rightarrow> SeqRange list \<Rightarrow> SeqRange list \<times> SeqRange" where
  "retain_merge merged [] = ([], merged)"
| "retain_merge merged (existing # rest) =
     (if touches existing merged
      then retain_merge
             \<lparr>sr_from = min (sr_from existing) (sr_from merged),
              sr_to = max (sr_to existing) (sr_to merged)\<rparr> rest
      else (let (kept, merged') = retain_merge merged rest in (existing # kept, merged')))"

definition coverage_insert :: "TimelineCoverage \<Rightarrow> SeqRange \<Rightarrow> TimelineCoverage \<times> bool" where
  "coverage_insert c rng =
     (if list_ex (\<lambda>existing. sr_from existing \<le> sr_from rng \<and> sr_to rng \<le> sr_to existing)
           (tc_ranges c)
      then (c, False)
      else
        let (kept, merged) = retain_merge rng (tc_ranges c);
            at = partition_point (\<lambda>existing. sr_from existing < sr_from merged) kept
        in (c\<lparr>tc_ranges := insert_at at merged kept\<rparr>, True))"

definition from_ranges :: "SeqRange list \<Rightarrow> TimelineCoverage" where
  "from_ranges rs = fold (\<lambda>rng c. fst (coverage_insert c rng)) rs coverage_new"

definition range_containing :: "TimelineCoverage \<Rightarrow> u64 \<Rightarrow> SeqRange option" where
  "range_containing c seq =
     (let at = partition_point (\<lambda>rng. sr_to rng < seq) (tc_ranges c) in
      case slice_get (tc_ranges c) at of
        None \<Rightarrow> None
      | Some rng \<Rightarrow> if SeqRange_contains rng seq then Some rng else None)"

definition highest_proven_seq :: "TimelineCoverage \<Rightarrow> u64" where
  "highest_proven_seq c = (if tc_ranges c = [] then 0 else sr_to (last (tc_ranges c)))"

definition latest_range :: "TimelineCoverage \<Rightarrow> SeqRange option" where
  "latest_range c = (if tc_ranges c = [] then None else Some (last (tc_ranges c)))"

definition proven_from_start :: "TimelineCoverage \<Rightarrow> u64 \<Rightarrow> bool" where
  "proven_from_start c seq \<longleftrightarrow>
     seq = 0 \<or>
     (case tc_ranges c of [] \<Rightarrow> False
      | rng # _ \<Rightarrow> sr_from rng = 1 \<and> sr_to rng \<ge> seq)"

definition cleared_history_range :: "u64 \<Rightarrow> SeqRange option" where
  "cleared_history_range floor = SeqRange_new 1 floor"

definition with_visibility_floor :: "TimelineCoverage \<Rightarrow> u64 \<Rightarrow> TimelineCoverage" where
  "with_visibility_floor c floor =
     (case cleared_history_range floor of
        Some rng \<Rightarrow> fst (coverage_insert c rng)
      | None \<Rightarrow> c)"

definition has_older :: "TimelineCoverage \<Rightarrow> u64 \<Rightarrow> bool \<Rightarrow> bool" where
  "has_older c oldest_seq local_rows_below \<longleftrightarrow>
     local_rows_below \<or> \<not> proven_from_start c (sat_sub oldest_seq 1)"

definition contiguous_page_range :: "u64 \<Rightarrow> u64 \<Rightarrow> SeqRange option" where
  "contiguous_page_range after_seq contiguous_to = SeqRange_new (sat_add after_seq 1) contiguous_to"

definition cursor_advance_range :: "u64 \<Rightarrow> u64 \<Rightarrow> SeqRange option" where
  "cursor_advance_range from to = SeqRange_new (sat_add from 1) to"

definition tail_page_range :: "u64 \<Rightarrow> u64 \<Rightarrow> SeqRange option" where
  "tail_page_range min_item_seq max_seq =
     (if min_item_seq = 0 then None else SeqRange_new min_item_seq max_seq)"

definition snapshot_rows_range :: "u64 list \<Rightarrow> SeqRange option" where
  "snapshot_rows_range seqs =
     (let (mn, mx) =
        fold (\<lambda>seq (mn, mx). (min mn seq, max mx seq)) (filter (\<lambda>seq. seq > 0) seqs) (- 1, 0)
      in SeqRange_new mn mx)"

definition backfill_page_range :: "u64 \<Rightarrow> u64 list \<Rightarrow> bool \<Rightarrow> SeqRange option" where
  "backfill_page_range before_seq item_seqs has_more =
     (case checked_sub before_seq 1 of
        None \<Rightarrow> None
      | Some to \<Rightarrow>
          if \<not> has_more then SeqRange_new 1 to
          else
            (case filter (\<lambda>seq. seq > 0 \<and> seq < before_seq) item_seqs of
               [] \<Rightarrow> None
             | s # ss \<Rightarrow> SeqRange_new (fold min ss s) to))"

subsection \<open>The set a coverage proves, and the canonical form\<close>

definition range_set :: "SeqRange \<Rightarrow> u64 set" where
  "range_set r = {s. SeqRange_contains r s}"

definition proven :: "TimelineCoverage \<Rightarrow> u64 set" where
  "proven c = \<Union> (range_set ` set (tc_ranges c))"

definition range_ok :: "SeqRange \<Rightarrow> bool" where
  "range_ok r \<longleftrightarrow> 1 \<le> sr_from r \<and> sr_from r \<le> sr_to r"

definition apart :: "SeqRange \<Rightarrow> SeqRange \<Rightarrow> bool" where
  "apart a b \<longleftrightarrow> sr_to a < sr_from b \<and> sr_to a + 1 < sr_from b"

definition coverage_ok :: "TimelineCoverage \<Rightarrow> bool" where
  "coverage_ok c \<longleftrightarrow> list_all range_ok (tc_ranges c) \<and> sorted_wrt apart (tc_ranges c)"

section \<open>Ranges\<close>

lemma mem_range_set [simp]: "s \<in> range_set r \<longleftrightarrow> sr_from r \<le> s \<and> s \<le> sr_to r"
  by (simp add: range_set_def SeqRange_contains_def)

lemma apart_nat: "apart a b \<longleftrightarrow> unat (sr_to a) + 1 < unat (sr_from b)"
  using unat_succ [of "sr_to a" "sr_from b"] by (auto simp: apart_def word_less_nat_alt)

lemma touches_iff:
  "touches a b \<longleftrightarrow> unat (sr_from a) \<le> unat (sr_to b) + 1 \<and> unat (sr_from b) \<le> unat (sr_to a) + 1"
  by (simp add: touches_def sat_simps)

lemma not_touches_apart: "\<not> touches a b \<longleftrightarrow> apart a b \<or> apart b a"
  by (auto simp: touches_iff apart_nat)

lemma range_ok_nat: "range_ok r \<longleftrightarrow> 1 \<le> unat (sr_from r) \<and> unat (sr_from r) \<le> unat (sr_to r)"
  by (simp add: range_ok_def word_le_nat_alt)

lemma SeqRange_new_Some:
  "SeqRange_new a b = Some r \<longleftrightarrow> sr_from r = max a 1 \<and> sr_to r = b \<and> range_ok r"
  by (cases r) (auto simp: SeqRange_new_def range_ok_def Let_def)

lemma SeqRange_new_ok: "SeqRange_new a b = Some r \<Longrightarrow> range_ok r"
  by (simp add: SeqRange_new_Some)

text \<open>Two ranges that touch cover together exactly their hull.\<close>

lemma range_set_hull:
  assumes "touches a b" "range_ok a" "range_ok b"
  shows "range_set \<lparr>sr_from = min (sr_from a) (sr_from b), sr_to = max (sr_to a) (sr_to b)\<rparr>
       = range_set a \<union> range_set b"
proof -
  have "min (sr_from a) (sr_from b) \<le> s \<and> s \<le> max (sr_to a) (sr_to b) \<longleftrightarrow>
        (sr_from a \<le> s \<and> s \<le> sr_to a) \<or> (sr_from b \<le> s \<and> s \<le> sr_to b)" for s
    using assms by (auto simp: touches_iff range_ok_nat word_nat_simps min_def max_def)
  then show ?thesis by auto
qed

lemma range_ok_hull:
  assumes "range_ok a" "range_ok b"
  shows "range_ok \<lparr>sr_from = min (sr_from a) (sr_from b), sr_to = max (sr_to a) (sr_to b)\<rparr>"
  using assms by (auto simp: range_ok_nat word_nat_simps)

section \<open>Insertion\<close>

lemma retain_merge_subseq: "set (fst (retain_merge m rs)) \<subseteq> set rs"
  by (induction m rs rule: retain_merge.induct) (auto simp: Let_def split: prod.splits)

lemma retain_merge_sorted: "sorted_wrt R rs \<Longrightarrow> sorted_wrt R (fst (retain_merge m rs))"
proof (induction m rs rule: retain_merge.induct)
  case (2 m e rs)
  then show ?case using retain_merge_subseq [of m rs] by (auto simp: Let_def split: prod.splits)
qed simp

lemma retain_merge_set:
  assumes "range_ok m" "list_all range_ok rs"
  shows "range_ok (snd (retain_merge m rs)) \<and>
    range_set (snd (retain_merge m rs)) \<union> \<Union> (range_set ` set (fst (retain_merge m rs)))
      = range_set m \<union> \<Union> (range_set ` set rs)"
  using assms
proof (induction m rs rule: retain_merge.induct)
  case (2 m e rs)
  show ?case
  proof (cases "touches e m")
    case True
    then show ?thesis
      using 2 range_set_hull [OF True] range_ok_hull [of e m] by (simp add: Un_ac)
  next
    case False
    then have "range_ok (snd (retain_merge m rs))"
      "range_set (snd (retain_merge m rs)) \<union> \<Union> (range_set ` set (fst (retain_merge m rs)))
        = range_set m \<union> \<Union> (range_set ` set rs)"
      using 2 by simp_all
    then show ?thesis using False by (simp add: case_prod_beta Let_def) blast
  qed
qed simp

text \<open>A range below everything still to be visited stays clear of the merged range.\<close>

lemma retain_merge_clear:
  assumes "\<not> touches k m" "\<forall>e\<in>set rs. apart k e" "sorted_wrt apart rs" "list_all range_ok rs"
    "range_ok m" "range_ok k"
  shows "\<not> touches k (snd (retain_merge m rs))"
  using assms
proof (induction m rs rule: retain_merge.induct)
  case (2 m e rs)
  show ?case
  proof (cases "touches e m")
    case True
    have "\<not> touches k \<lparr>sr_from = min (sr_from e) (sr_from m), sr_to = max (sr_to e) (sr_to m)\<rparr>"
      using 2 True by (auto simp: touches_iff apart_nat range_ok_nat word_nat_simps)
    then show ?thesis using 2 True by (auto simp: range_ok_hull)
  next
    case False
    then show ?thesis using 2 by (auto simp: Let_def split: prod.splits)
  qed
qed simp

lemma retain_merge_untouched:
  assumes "sorted_wrt apart rs" "list_all range_ok rs" "range_ok m"
  shows "\<forall>k\<in>set (fst (retain_merge m rs)). \<not> touches k (snd (retain_merge m rs))"
  using assms
proof (induction m rs rule: retain_merge.induct)
  case (2 m e rs)
  show ?case
  proof (cases "touches e m")
    case True
    then show ?thesis using 2 by (simp add: range_ok_hull)
  next
    case False
    then show ?thesis
      using 2 retain_merge_clear [of e m rs] by (auto simp: Let_def split: prod.splits)
  qed
qed simp

lemma partitioned_from:
  "sorted_wrt apart rs \<Longrightarrow> list_all range_ok rs \<Longrightarrow> partitioned (\<lambda>e. sr_from e < x) rs"
  unfolding partitioned_def
  by (rule sorted_wrt_mono_rel [where P = apart])
    (auto simp: apart_nat list_all_iff range_ok_nat word_nat_simps)

lemma partitioned_to:
  "sorted_wrt apart rs \<Longrightarrow> list_all range_ok rs \<Longrightarrow> partitioned (\<lambda>e. sr_to e < x) rs"
  unfolding partitioned_def
  by (rule sorted_wrt_mono_rel [where P = apart])
    (auto simp: apart_nat list_all_iff range_ok_nat word_nat_simps)

lemma insert_at_sorted:
  assumes "sorted_wrt apart rs" "list_all range_ok rs" "range_ok m"
    and untouched: "\<forall>k\<in>set rs. \<not> touches k m"
  shows "sorted_wrt apart (insert_at (partition_point (\<lambda>e. sr_from e < sr_from m) rs) m rs)"
proof -
  let ?P = "\<lambda>e. sr_from e < sr_from m"
  have ok: "\<forall>k\<in>set rs. range_ok k" using assms by (simp add: list_all_iff)
  have left: "apart k m" if "k \<in> set (takeWhile ?P rs)" for k
  proof -
    have "k \<in> set rs" "?P k" using that set_takeWhileD by fastforce+
    then show ?thesis using untouched ok \<open>range_ok m\<close>
      by (auto simp: not_touches_apart apart_nat range_ok_nat word_nat_simps)
  qed
  have right: "apart m k" if "k \<in> set (dropWhile ?P rs)" for k
  proof -
    have "k \<in> set rs" using that set_dropWhileD by fastforce
    moreover have "\<not> ?P k" using partitioned_dropWhile [OF partitioned_from that] assms by simp
    ultimately have "\<not> touches k m" "range_ok k" "\<not> ?P k"
      using untouched ok by auto
    then show ?thesis using \<open>range_ok m\<close>
      by (auto simp: not_touches_apart apart_nat range_ok_nat word_nat_simps)
  qed
  have "sorted_wrt apart (takeWhile ?P rs @ dropWhile ?P rs)" using assms by simp
  note this [unfolded sorted_wrt_append]
  then show ?thesis
    unfolding insert_at_partition_point sorted_wrt_append using left right by auto
qed

lemma coverage_insert_contained:
  assumes "snd (coverage_insert c r) = False"
  shows "fst (coverage_insert c r) = c \<and> range_set r \<subseteq> proven c"
  using assms
  by (force simp: coverage_insert_def proven_def list_ex_iff Let_def split: if_splits prod.splits)

lemma coverage_insert_correct:
  assumes "coverage_ok c" "range_ok r"
  shows "coverage_ok (fst (coverage_insert c r)) \<and>
         proven (fst (coverage_insert c r)) = proven c \<union> range_set r"
proof (cases "snd (coverage_insert c r)")
  case False
  then show ?thesis using coverage_insert_contained [of c r] assms by auto
next
  case True
  obtain kept m where km: "retain_merge r (tc_ranges c) = (kept, m)" by fastforce
  have c: "sorted_wrt apart (tc_ranges c)" "list_all range_ok (tc_ranges c)"
    using assms by (simp_all add: coverage_ok_def)
  have m: "range_ok m" "range_set m \<union> \<Union> (range_set ` set kept) = range_set r \<union> proven c"
    using retain_merge_set [OF assms(2) c(2)] km by (simp_all add: proven_def)
  have kept: "sorted_wrt apart kept" "list_all range_ok kept" "\<forall>k\<in>set kept. \<not> touches k m"
    using retain_merge_sorted [OF c(1), of r] retain_merge_subseq [of r "tc_ranges c"]
      retain_merge_untouched [OF c assms(2)] c(2) km by (auto simp: list_all_iff)
  have "tc_ranges (fst (coverage_insert c r)) =
      insert_at (partition_point (\<lambda>e. sr_from e < sr_from m) kept) m kept"
    using True km by (auto simp: coverage_insert_def split: if_splits)
  then show ?thesis
    using insert_at_sorted [OF kept(1,2) m(1) kept(3)] kept m
    by (auto simp: coverage_ok_def proven_def list_all_iff)
qed

subsection \<open>Uniqueness of the canonical form\<close>

definition ranges_set :: "SeqRange list \<Rightarrow> nat set" where
  "ranges_set rs = (\<Union>r\<in>set rs. {unat (sr_from r)..unat (sr_to r)})"

lemma ranges_set_simps [simp]:
  "ranges_set [] = {}"
  "ranges_set (r # rs) = {unat (sr_from r)..unat (sr_to r)} \<union> ranges_set rs"
  by (simp_all add: ranges_set_def)

lemma ranges_set_proven: "ranges_set (tc_ranges c) = unat ` proven c"
proof -
  have "{unat a..unat b} = unat ` {s. a \<le> s \<and> s \<le> b}" for a b :: u64
  proof (intro set_eqI iffI)
    fix n assume n: "n \<in> {unat a..unat b}"
    then have "n < 2 ^ LENGTH(64)"
      using unsigned_less [of b] by (meson atLeastAtMost_iff order_le_less_trans)
    then have "unat (of_nat n :: u64) = n" by (simp add: unat_of_nat)
    then show "n \<in> unat ` {s. a \<le> s \<and> s \<le> b}"
      using n by (intro image_eqI [where x = "of_nat n"]) (auto simp: word_nat_simps)
  qed (auto simp: word_nat_simps)
  then show ?thesis
    by (simp add: ranges_set_def proven_def range_set_def SeqRange_contains_def image_UN)
qed

lemma ranges_set_above:
  assumes "sorted_wrt apart (r # rs)" "x \<in> ranges_set rs"
  shows "unat (sr_to r) + 1 < x"
  using assms by (fastforce simp: ranges_set_def apart_nat)

lemma head_unique:
  assumes "sorted_wrt apart (r # rs)" "sorted_wrt apart (q # qs)" "range_ok r" "range_ok q"
    and "ranges_set (r # rs) = ranges_set (q # qs)"
  shows "unat (sr_from r) \<le> unat (sr_from q) \<and> unat (sr_to r) \<le> unat (sr_to q)"
proof -
  have "unat (sr_from q) \<in> ranges_set (r # rs)" "unat (sr_from r) \<in> ranges_set (q # qs)"
    using assms(3-5) by (auto simp: range_ok_nat)
  then have frm: "unat (sr_from r) \<le> unat (sr_from q)" "unat (sr_from q) \<le> unat (sr_from r)"
    using ranges_set_above [OF assms(1)] ranges_set_above [OF assms(2)] assms(3,4)
    by (fastforce simp: range_ok_nat)+
  have "\<not> unat (sr_to q) < unat (sr_to r)"
  proof
    assume "unat (sr_to q) < unat (sr_to r)"
    then have "unat (sr_to q) + 1 \<in> ranges_set (r # rs)"
      using frm assms(4) by (auto simp: range_ok_nat)
    then have "unat (sr_to q) + 1 \<in> ranges_set (q # qs)" unfolding assms(5) .
    then show False using ranges_set_above [OF assms(2), of "unat (sr_to q) + 1"] by auto
  qed
  with frm show ?thesis by simp
qed

lemma ranges_unique:
  "sorted_wrt apart rs \<Longrightarrow> sorted_wrt apart qs \<Longrightarrow> list_all range_ok rs \<Longrightarrow> list_all range_ok qs
   \<Longrightarrow> ranges_set rs = ranges_set qs \<Longrightarrow> rs = qs"
proof (induction rs arbitrary: qs)
  case Nil
  then show ?case by (cases qs) (auto simp: range_ok_nat)
next
  case (Cons r rs)
  then obtain q qs' where qs: "qs = q # qs'" by (cases qs) (auto simp: range_ok_nat)
  have "unat (sr_from r) = unat (sr_from q)" "unat (sr_to r) = unat (sr_to q)"
    using head_unique [of r rs q qs'] head_unique [of q qs' r rs] Cons.prems qs by auto
  then have rq: "r = q"
    by (intro SeqRange.equality) (simp_all add: word_unat_eq_iff)
  have "ranges_set rs = ranges_set qs'"
  proof -
    have "ranges_set rs = ranges_set (r # rs) - {..unat (sr_to r)}"
      using ranges_set_above [of r rs] Cons.prems(1) by fastforce
    moreover have "ranges_set qs' = ranges_set (q # qs') - {..unat (sr_to q)}"
      using ranges_set_above [of q qs'] Cons.prems(2) qs by fastforce
    ultimately show ?thesis using Cons.prems(5) qs rq by metis
  qed
  with Cons qs rq show ?case by auto
qed

lemma coverage_canonical:
  assumes "coverage_ok c" "coverage_ok d" "proven c = proven d"
  shows "c = d"
proof -
  have "tc_ranges c = tc_ranges d"
    using ranges_unique [of "tc_ranges c" "tc_ranges d"] assms
    by (simp add: coverage_ok_def ranges_set_proven)
  then show ?thesis by simp
qed

lemma coverage_new_correct: "coverage_ok coverage_new" "proven coverage_new = {}"
  by (simp_all add: coverage_ok_def proven_def coverage_new_def)

section \<open>The interface: a canonical representation of sets built from ranges\<close>

locale proven_set =
  fixes empty :: 'c
    and ins :: "'c \<Rightarrow> 'r \<Rightarrow> 'c"
    and elems :: "'c \<Rightarrow> 's set"
    and piece :: "'r \<Rightarrow> 's set"
    and invar :: "'c \<Rightarrow> bool"
    and piece_ok :: "'r \<Rightarrow> bool"
  assumes invar_empty: "invar empty"
    and elems_empty: "elems empty = {}"
    and invar_ins: "invar c \<Longrightarrow> piece_ok r \<Longrightarrow> invar (ins c r)"
    and elems_ins: "invar c \<Longrightarrow> piece_ok r \<Longrightarrow> elems (ins c r) = elems c \<union> piece r"
    and canonical: "invar c \<Longrightarrow> invar d \<Longrightarrow> elems c = elems d \<Longrightarrow> c = d"
begin

lemma fold_ins:
  "invar c \<Longrightarrow> list_all piece_ok rs \<Longrightarrow>
     invar (fold (\<lambda>r c. ins c r) rs c) \<and>
     elems (fold (\<lambda>r c. ins c r) rs c) = elems c \<union> \<Union> (piece ` set rs)"
  by (induction rs arbitrary: c) (auto simp: invar_ins elems_ins)

lemma fold_ins_eq:
  assumes "list_all piece_ok rs" "list_all piece_ok qs"
    and "\<Union> (piece ` set rs) = \<Union> (piece ` set qs)"
  shows "fold (\<lambda>r c. ins c r) rs empty = fold (\<lambda>r c. ins c r) qs empty"
  using fold_ins [OF invar_empty assms(1)] fold_ins [OF invar_empty assms(2)] assms(3)
  by (intro canonical) auto

lemma ins_unchanged: "invar c \<Longrightarrow> piece_ok r \<Longrightarrow> ins c r = c \<longleftrightarrow> piece r \<subseteq> elems c"
  by (metis canonical elems_ins invar_ins subset_Un_eq sup_commute)

end

interpretation coverage: proven_set coverage_new "\<lambda>c r. fst (coverage_insert c r)" proven
  range_set coverage_ok range_ok
  by unfold_locales
    (simp_all add: coverage_new_correct coverage_insert_correct coverage_canonical)

section \<open>Look-ups\<close>

lemma range_containing_list:
  assumes "sorted_wrt apart rs" "list_all range_ok rs"
  shows "(case dropWhile (\<lambda>r. sr_to r < s) rs of [] \<Rightarrow> None
          | x # _ \<Rightarrow> if SeqRange_contains x s then Some x else None) = Some r
     \<longleftrightarrow> r \<in> set rs \<and> SeqRange_contains r s"
  using assms
proof (induction rs)
  case (Cons x xs)
  have "\<not> SeqRange_contains y s" if "\<not> sr_to x < s" "y \<in> set xs" for y
    using Cons.prems that by (auto simp: SeqRange_contains_def apart_nat word_nat_simps)
  moreover have "\<not> SeqRange_contains x s" if "sr_to x < s"
    using that by (auto simp: SeqRange_contains_def)
  ultimately show ?case using Cons by auto
qed simp

lemma range_containing_iff:
  "coverage_ok c \<Longrightarrow>
     range_containing c s = Some r \<longleftrightarrow> r \<in> set (tc_ranges c) \<and> SeqRange_contains r s"
  unfolding coverage_ok_def range_containing_def slice_get_partition_point Let_def
  using range_containing_list [of "tc_ranges c" s r]
  by (cases "dropWhile (\<lambda>r. sr_to r < s) (tc_ranges c)") (simp_all del: dropWhile_eq_Nil_conv)

lemma proven_iff_range_containing:
  "coverage_ok c \<Longrightarrow> s \<in> proven c \<longleftrightarrow> (\<exists>r. range_containing c s = Some r)"
  by (auto simp: range_containing_iff proven_def SeqRange_contains_def)

lemma range_containing_None: "coverage_ok c \<Longrightarrow> range_containing c s = None \<longleftrightarrow> s \<notin> proven c"
  by (simp add: proven_iff_range_containing)

lemma apart_last:
  "sorted_wrt apart rs \<Longrightarrow> list_all range_ok rs \<Longrightarrow> r \<in> set rs \<Longrightarrow> sr_to r \<le> sr_to (last rs)"
proof (induction rs)
  case (Cons x xs)
  show ?case
  proof (cases "xs = []")
    case False
    then have "apart x (last xs)" "range_ok (last xs)" using Cons.prems by (auto simp: list_all_iff)
    then have "sr_to x \<le> sr_to (last xs)" by (simp add: apart_nat range_ok_nat word_nat_simps)
    then show ?thesis using Cons False by auto
  qed (use Cons in auto)
qed simp

lemma highest_proven_seq_max:
  assumes "coverage_ok c"
  shows "\<forall>s\<in>proven c. s \<le> highest_proven_seq c"
    and "highest_proven_seq c \<noteq> 0 \<Longrightarrow> highest_proven_seq c \<in> proven c"
proof -
  show "\<forall>s\<in>proven c. s \<le> highest_proven_seq c"
    using apart_last [of "tc_ranges c"] assms
    by (fastforce simp: proven_def highest_proven_seq_def coverage_ok_def)
  show "highest_proven_seq c \<in> proven c" if "highest_proven_seq c \<noteq> 0"
    using assms that last_in_set [of "tc_ranges c"]
    by (force simp: proven_def highest_proven_seq_def coverage_ok_def list_all_iff range_ok_def
        split: if_splits)
qed

lemma proven_from_start_iff:
  assumes "coverage_ok c"
  shows "proven_from_start c seq \<longleftrightarrow> (\<forall>s. 1 \<le> s \<and> s \<le> seq \<longrightarrow> s \<in> proven c)"
proof (cases "tc_ranges c")
  case Nil
  then show ?thesis by (force simp: proven_from_start_def proven_def word_one_le)
next
  case (Cons r rs)
  have above: "sr_to r < s \<and> s \<noteq> sr_to r + 1" if "s \<in> range_set k" "k \<in> set rs" for s k
  proof -
    have "unat (sr_to r) + 1 < unat s"
      using assms Cons that by (auto simp: coverage_ok_def apart_nat word_nat_simps)
    then show ?thesis by (auto simp: word_less_nat_alt unat_word_ariths)
  qed
  have r: "1 \<le> sr_from r" "sr_from r \<le> sr_to r"
    using assms Cons by (simp_all add: coverage_ok_def range_ok_def)
  have "sr_from r = 1 \<and> seq \<le> sr_to r"
    if seq: "seq \<noteq> 0" and all: "\<forall>s. 1 \<le> s \<and> s \<le> seq \<longrightarrow> s \<in> proven c"
  proof -
    have "1 \<le> seq" using seq by (simp add: word_one_le)
    then have "1 \<in> proven c" using all by simp
    then have one: "sr_from r = 1" using above r Cons by (force simp: proven_def)
    have "seq \<le> sr_to r"
    proof (rule ccontr)
      assume "\<not> seq \<le> sr_to r"
      then have "1 \<le> sr_to r + 1 \<and> sr_to r + 1 \<le> seq \<and> sr_to r < sr_to r + 1"
        using unat_succ [of "sr_to r" seq] by (simp add: word_nat_simps)
      moreover from this have "sr_to r + 1 \<in> proven c" using all by blast
      ultimately show False using above [of "sr_to r + 1"] Cons by (auto simp: proven_def)
    qed
    with one show ?thesis by simp
  qed
  moreover have "s \<in> proven c" if "sr_from r = 1" "seq \<le> sr_to r" "1 \<le> s" "s \<le> seq" for s
    using that Cons by (auto simp: proven_def)
  ultimately show ?thesis using Cons by (auto simp: proven_from_start_def)
qed

lemma has_older_iff:
  assumes "coverage_ok c"
  shows "has_older c oldest below \<longleftrightarrow> below \<or> (\<exists>s. 1 \<le> s \<and> s < oldest \<and> s \<notin> proven c)"
proof -
  have "s \<le> sat_sub oldest 1 \<longleftrightarrow> s < oldest" if "1 \<le> s" for s
    using that by (auto simp: word_nat_simps sat_simps)
  then show ?thesis by (auto simp: has_older_def proven_from_start_iff [OF assms])
qed

section \<open>Ranges derived from server pages\<close>

text \<open>
  What one run of the sync code does to a conversation: \<open>V\<close> is the set of sequence numbers
  with a visible message on the server, \<open>rows\<close> the ones with a local row. Each rule is one
  place that records a range, with the meaning of the server's page (as the comments of
  \<open>coverage.rs\<close> document it) as its premise.
\<close>

inductive covered :: "u64 set \<Rightarrow> TimelineCoverage \<Rightarrow> u64 set \<Rightarrow> bool" for V where
  start: "covered V coverage_new rows"
| live_push: "covered V c rows \<Longrightarrow> covered V c (rows \<union> pushed)"
| sync_page: "covered V c rows \<Longrightarrow> contiguous_page_range after to = Some r \<Longrightarrow> after \<noteq> - 1 \<Longrightarrow>
    (\<forall>v\<in>V. after < v \<and> v \<le> to \<longrightarrow> v \<in> items) \<Longrightarrow>
    covered V (fst (coverage_insert c r)) (rows \<union> items)"
| cursor: "covered V c rows \<Longrightarrow> cursor_advance_range from to = Some r \<Longrightarrow> from \<noteq> - 1 \<Longrightarrow>
    (\<forall>v\<in>V. from < v \<and> v \<le> to \<longrightarrow> v \<in> rows) \<Longrightarrow>
    covered V (fst (coverage_insert c r)) rows"
| tail_page: "covered V c rows \<Longrightarrow> tail_page_range mn mx = Some r \<Longrightarrow>
    (\<forall>v\<in>V. mn \<le> v \<and> v \<le> mx \<longrightarrow> v \<in> items) \<Longrightarrow>
    covered V (fst (coverage_insert c r)) (rows \<union> items)"
| snapshot: "covered V c rows \<Longrightarrow> snapshot_rows_range seqs = Some r \<Longrightarrow>
    (\<forall>v\<in>V. (\<exists>a\<in>set seqs. 0 < a \<and> a \<le> v) \<and> (\<exists>b\<in>set seqs. v \<le> b) \<longrightarrow> v \<in> set seqs) \<Longrightarrow>
    covered V (fst (coverage_insert c r)) (rows \<union> set seqs)"
| backfill_more: "covered V c rows \<Longrightarrow> backfill_page_range before items True = Some r \<Longrightarrow>
    (\<forall>v\<in>V. v < before \<and> (\<exists>a\<in>set items. 0 < a \<and> a \<le> v) \<longrightarrow> v \<in> set items) \<Longrightarrow>
    covered V (fst (coverage_insert c r)) (rows \<union> set items)"
| backfill_end: "covered V c rows \<Longrightarrow> backfill_page_range before items False = Some r \<Longrightarrow>
    (\<forall>v\<in>V. v < before \<longrightarrow> v \<in> set items) \<Longrightarrow>
    covered V (fst (coverage_insert c r)) (rows \<union> set items)"
| floor: "covered V c rows \<Longrightarrow> (\<forall>v\<in>V. \<not> v \<le> fl) \<Longrightarrow>
    covered V (with_visibility_floor c fl) rows"

lemma after_range:
  assumes "SeqRange_new (sat_add after 1) to = Some r" "after \<noteq> - 1" "v \<in> range_set r"
  shows "after < v \<and> v \<le> to"
proof -
  have "unat after + 1 < 2 ^ LENGTH(64)" using assms(2) by (rule unat_not_max)
  then show ?thesis
    using assms by (auto simp: SeqRange_new_Some word_nat_simps sat_simps)
qed

lemma fold_min_max:
  "fold (\<lambda>s (a :: u64, b). (min a s, max b s)) xs (a, b) = (fold min xs a, fold max xs b)"
  by (induction xs arbitrary: a b) (simp_all add: min.commute max.commute)

lemma fold_min_in: "fold min xs (a :: u64) \<in> insert a (set xs)"
proof (induction xs arbitrary: a)
  case (Cons x xs)
  show ?case using Cons [of "min x a"] by (auto simp: min_def split: if_splits)
qed simp

lemma fold_max_in: "fold max xs (a :: u64) \<in> insert a (set xs)"
proof (induction xs arbitrary: a)
  case (Cons x xs)
  show ?case using Cons [of "max x a"] by (auto simp: max_def split: if_splits)
qed simp

lemma snapshot_range:
  assumes "snapshot_rows_range seqs = Some r" "v \<in> range_set r"
  shows "(\<exists>a\<in>set seqs. 0 < a \<and> a \<le> v) \<and> (\<exists>b\<in>set seqs. v \<le> b)"
proof -
  define xs where "xs = filter (\<lambda>s. s > 0) seqs"
  define mn where "mn = fold min xs (- 1)"
  define mx where "mx = fold max xs 0"
  have r: "sr_from r = max mn 1" "sr_to r = mx" "range_ok r"
    using assms(1) by (simp_all add: snapshot_rows_range_def fold_min_max xs_def mn_def mx_def
        SeqRange_new_Some)
  have v: "mn \<le> v" "v \<le> mx" "mx \<noteq> 0"
    using assms(2) r by (auto simp: range_ok_def word_one_le [symmetric])
  then have mx: "mx \<in> set xs" using fold_max_in [of xs 0] by (auto simp: mx_def)
  have "\<exists>a\<in>set xs. a \<le> v"
  proof (cases "mn \<in> set xs")
    case False
    then have "mn = - 1" using fold_min_in [of xs "- 1"] by (auto simp: mn_def)
    then show ?thesis using v mx by (metis word_order.extremum_unique)
  qed (use v in blast)
  then show ?thesis using mx v by (auto simp: xs_def)
qed

lemma backfill_range:
  assumes "backfill_page_range before items hm = Some r" "v \<in> range_set r"
  shows "v < before \<and> (hm \<longrightarrow> (\<exists>a\<in>set items. 0 < a \<and> a \<le> v))"
proof -
  have to: "sr_to r = before - 1" "1 \<le> before"
    using assms(1) by (auto simp: backfill_page_range_def checked_sub_def SeqRange_new_Some
        split: if_splits list.splits)
  have "v < before" using assms(2) to by (auto simp: word_nat_simps unat_sub)
  moreover have "\<exists>a\<in>set items. 0 < a \<and> a \<le> v" if more: hm
  proof -
    obtain s ss where ss: "filter (\<lambda>q. q > 0 \<and> q < before) items = s # ss"
      "SeqRange_new (fold min ss s) (before - 1) = Some r"
      using assms(1) more to by (auto simp: backfill_page_range_def checked_sub_def
          split: if_splits list.splits)
    have "fold min ss s \<in> set (filter (\<lambda>q. q > 0 \<and> q < before) items)"
      using fold_min_in [of ss s] by (simp add: ss(1))
    then show ?thesis using ss(2) assms(2) by (auto simp: SeqRange_new_Some)
  qed
  ultimately show ?thesis by simp
qed

lemma backfill_ok: "backfill_page_range before items hm = Some r \<Longrightarrow> range_ok r"
  by (auto simp: backfill_page_range_def intro: SeqRange_new_ok
      split: option.splits if_splits list.splits)

lemma page_ranges_ok:
  "contiguous_page_range a b = Some r \<Longrightarrow> range_ok r"
  "cursor_advance_range a b = Some r \<Longrightarrow> range_ok r"
  "tail_page_range a b = Some r \<Longrightarrow> range_ok r"
  "snapshot_rows_range seqs = Some r \<Longrightarrow> range_ok r"
  by (auto simp: contiguous_page_range_def cursor_advance_range_def tail_page_range_def
      snapshot_rows_range_def intro: SeqRange_new_ok split: if_splits prod.splits)

lemma with_visibility_floor_correct:
  assumes "coverage_ok c"
  shows "coverage_ok (with_visibility_floor c fl) \<and>
    proven (with_visibility_floor c fl) = proven c \<union> {s. 1 \<le> s \<and> s \<le> fl}"
proof (cases "cleared_history_range fl")
  case None
  then have "\<not> 1 \<le> fl" by (simp add: cleared_history_range_def SeqRange_new_def split: if_splits)
  then show ?thesis using None assms by (auto simp: with_visibility_floor_def word_one_le)
next
  case (Some r)
  then have "range_set r = {s. 1 \<le> s \<and> s \<le> fl}" "range_ok r"
    by (auto simp: cleared_history_range_def SeqRange_new_Some)
  then show ?thesis
    using coverage_insert_correct [OF assms] Some by (simp add: with_visibility_floor_def)
qed

lemma insert_sound:
  assumes "coverage_ok c \<and> (\<forall>v\<in>V. v \<in> proven c \<longrightarrow> v \<in> rows)" "range_ok r"
    and "\<And>v. v \<in> V \<Longrightarrow> v \<in> range_set r \<Longrightarrow> v \<in> rows \<union> items"
  shows "coverage_ok (fst (coverage_insert c r)) \<and>
    (\<forall>v\<in>V. v \<in> proven (fst (coverage_insert c r)) \<longrightarrow> v \<in> rows \<union> items)"
proof -
  have "coverage_ok (fst (coverage_insert c r))"
    "proven (fst (coverage_insert c r)) = proven c \<union> range_set r"
    using coverage_insert_correct [of c r] assms(1,2) by simp_all
  then show ?thesis using assms(1,3) by blast
qed

lemma covered_sound:
  "covered V c rows \<Longrightarrow> coverage_ok c \<and> (\<forall>v\<in>V. v \<in> proven c \<longrightarrow> v \<in> rows)"
proof (induction rule: covered.induct)
  case (start rows)
  then show ?case by (simp add: coverage_new_correct)
next
  case (floor c rows fl)
  then show ?case by (simp add: with_visibility_floor_correct)
next
  case (sync_page c rows after to r items)
  show ?case
  proof (rule insert_sound [OF sync_page.IH page_ranges_ok(1) [OF sync_page.hyps(2)]])
    fix v assume "v \<in> V" "v \<in> range_set r"
    then show "v \<in> rows \<union> items"
      using sync_page.hyps after_range [of after to r v] by (simp add: contiguous_page_range_def)
  qed
next
  case (cursor c rows "from" to r)
  have "v \<in> rows \<union> {}" if "v \<in> V" "v \<in> range_set r" for v
    using cursor.hyps after_range [of "from" to r v] that by (simp add: cursor_advance_range_def)
  then show ?case
    using insert_sound [OF cursor.IH page_ranges_ok(2) [OF cursor.hyps(2)], of "{}"] by simp
next
  case (tail_page c rows mn mx r items)
  show ?case
  proof (rule insert_sound [OF tail_page.IH page_ranges_ok(3) [OF tail_page.hyps(2)]])
    fix v assume "v \<in> V" "v \<in> range_set r"
    then show "v \<in> rows \<union> items"
      using tail_page.hyps by (simp add: tail_page_range_def SeqRange_new_Some split: if_splits)
  qed
next
  case (snapshot c rows seqs r)
  show ?case
    by (rule insert_sound [OF snapshot.IH page_ranges_ok(4) [OF snapshot.hyps(2)]])
      (use snapshot.hyps snapshot_range [of seqs r] in blast)
next
  case (backfill_more c rows before items r)
  show ?case
    by (rule insert_sound [OF backfill_more.IH backfill_ok [OF backfill_more.hyps(2)]])
      (use backfill_more.hyps backfill_range [of before items True r] in blast)
next
  case (backfill_end c rows before items r)
  show ?case
    by (rule insert_sound [OF backfill_end.IH backfill_ok [OF backfill_end.hyps(2)]])
      (use backfill_end.hyps backfill_range [of before items False r] in blast)
qed blast

section \<open>The returned flag\<close>

lemma apart_pairwise:
  "sorted_wrt apart rs \<Longrightarrow> a \<in> set rs \<Longrightarrow> b \<in> set rs \<Longrightarrow> a = b \<or> apart a b \<or> apart b a"
  by (induction rs) auto

lemma proven_range_in_one:
  assumes "coverage_ok c" "range_ok r" "range_set r \<subseteq> proven c"
  shows "\<exists>e\<in>set (tc_ranges c). sr_from e \<le> sr_from r \<and> sr_to r \<le> sr_to e"
proof -
  have "sr_from r \<in> proven c" using assms(2,3) by (auto simp: range_ok_def)
  then obtain e where e: "e \<in> set (tc_ranges c)" "sr_from e \<le> sr_from r" "sr_from r \<le> sr_to e"
    by (auto simp: proven_def)
  have "sr_to r \<le> sr_to e"
  proof (rule ccontr)
    assume *: "\<not> sr_to r \<le> sr_to e"
    then have succ: "unat (sr_to e + 1) = unat (sr_to e) + 1"
      using unat_succ [of "sr_to e" "sr_to r"] by simp
    then have "sr_to e + 1 \<in> range_set r" using * e by (simp add: word_nat_simps)
    then have "sr_to e + 1 \<in> proven c" using assms(3) by blast
    then obtain d where d: "d \<in> set (tc_ranges c)" "sr_from d \<le> sr_to e + 1" "sr_to e + 1 \<le> sr_to d"
      by (auto simp: proven_def)
    have "e = d \<or> apart e d \<or> apart d e"
      using apart_pairwise [of "tc_ranges c" e d] assms(1) e(1) d(1) by (simp add: coverage_ok_def)
    moreover have "range_ok e" using assms(1) e(1) by (simp add: coverage_ok_def list_all_iff)
    ultimately show False using d(2,3) succ by (auto simp: apart_nat range_ok_nat word_nat_simps)
  qed
  with e show ?thesis by blast
qed

lemma coverage_insert_flag:
  assumes "coverage_ok c" "range_ok r"
  shows "snd (coverage_insert c r) \<longleftrightarrow> \<not> range_set r \<subseteq> proven c"
proof
  show "\<not> range_set r \<subseteq> proven c" if "snd (coverage_insert c r)"
    using that proven_range_in_one [OF assms]
    by (auto simp: coverage_insert_def list_ex_iff split: if_splits)
qed (use coverage_insert_contained [of c r] in blast)

section \<open>Properties\<close>

text \<open>C4. Inserting a range into a canonical coverage keeps the canonical form (ascending,
  disjoint, never adjacent) and proves exactly the old sequence numbers and those of the range;
  the returned flag says whether the set changed, which is whether the representation did.\<close>

theorem coverage_insert_refines_union:
  assumes "coverage_ok c" "range_ok r"
  shows "coverage_ok (fst (coverage_insert c r)) \<and>
    proven (fst (coverage_insert c r)) = proven c \<union> range_set r \<and>
    snd (coverage_insert c r) = (\<not> range_set r \<subseteq> proven c) \<and>
    snd (coverage_insert c r) = (fst (coverage_insert c r) \<noteq> c)"
  using coverage_insert_correct [OF assms] coverage_insert_flag [OF assms]
    coverage.ins_unchanged [OF assms] by blast

theorem coverage_insert_refines_union_witness:
  "coverage_insert \<lparr>tc_ranges = [\<lparr>sr_from = 10, sr_to = 20\<rparr>, \<lparr>sr_from = 30, sr_to = 40\<rparr>]\<rparr>
      \<lparr>sr_from = 21, sr_to = 29\<rparr> = (\<lparr>tc_ranges = [\<lparr>sr_from = 10, sr_to = 40\<rparr>]\<rparr>, True) \<and>
    proven \<lparr>tc_ranges = [\<lparr>sr_from = 10, sr_to = 40\<rparr>]\<rparr> =
      proven \<lparr>tc_ranges = [\<lparr>sr_from = 10, sr_to = 20\<rparr>, \<lparr>sr_from = 30, sr_to = 40\<rparr>]\<rparr>
        \<union> range_set \<lparr>sr_from = 21, sr_to = 29\<rparr>"
proof -
  let ?c = "\<lparr>tc_ranges = [\<lparr>sr_from = 10, sr_to = 20\<rparr>, \<lparr>sr_from = 30, sr_to = 40\<rparr>]\<rparr>"
  let ?r = "\<lparr>sr_from = 21, sr_to = 29\<rparr> :: SeqRange"
  have "coverage_insert ?c ?r = (\<lparr>tc_ranges = [\<lparr>sr_from = 10, sr_to = 40\<rparr>]\<rparr>, True)"
    by code_simp
  moreover have "coverage_ok ?c" "range_ok ?r" by code_simp+
  ultimately show ?thesis using coverage_insert_refines_union [of ?c ?r] by simp
qed

text \<open>C24. Rebuilding a coverage from stored rows gives the canonical coverage of their union,
  whatever the order, overlap and repetition of the rows: two row lists with the same union give
  the same coverage.\<close>

theorem from_ranges_canonical:
  assumes "list_all range_ok rs" "list_all range_ok qs"
    and "\<Union> (range_set ` set rs) = \<Union> (range_set ` set qs)"
  shows "coverage_ok (from_ranges rs) \<and> proven (from_ranges rs) = \<Union> (range_set ` set rs) \<and>
    from_ranges rs = from_ranges qs"
  using coverage.fold_ins [OF coverage.invar_empty assms(1)] coverage.fold_ins_eq [OF assms]
  by (simp add: from_ranges_def coverage_new_correct)

theorem from_ranges_canonical_witness:
  "from_ranges [\<lparr>sr_from = 50, sr_to = 60\<rparr>, \<lparr>sr_from = 1, sr_to = 3\<rparr>,
      \<lparr>sr_from = 55, sr_to = 70\<rparr>, \<lparr>sr_from = 4, sr_to = 4\<rparr>] =
     \<lparr>tc_ranges = [\<lparr>sr_from = 1, sr_to = 4\<rparr>, \<lparr>sr_from = 50, sr_to = 70\<rparr>]\<rparr> \<and>
   coverage_ok (from_ranges [\<lparr>sr_from = 50, sr_to = 60\<rparr>, \<lparr>sr_from = 1, sr_to = 3\<rparr>,
      \<lparr>sr_from = 55, sr_to = 70\<rparr>, \<lparr>sr_from = 4, sr_to = 4\<rparr>])"
proof -
  let ?rs = "[\<lparr>sr_from = 50, sr_to = 60\<rparr>, \<lparr>sr_from = 1, sr_to = 3\<rparr>,
      \<lparr>sr_from = 55, sr_to = 70\<rparr>, \<lparr>sr_from = 4, sr_to = 4\<rparr>] :: SeqRange list"
  have "list_all range_ok ?rs" by code_simp
  moreover have "from_ranges ?rs =
      \<lparr>tc_ranges = [\<lparr>sr_from = 1, sr_to = 4\<rparr>, \<lparr>sr_from = 50, sr_to = 70\<rparr>]\<rparr>" by code_simp
  ultimately show ?thesis using from_ranges_canonical [of ?rs ?rs] by simp
qed

text \<open>On a canonical coverage the look-ups answer for the set: \<open>range_containing\<close> returns the
  stored range around a sequence number exactly when it is proven, \<open>highest_proven_seq\<close> bounds the
  proven set and is proven unless 0, and \<open>has_older\<close> is false exactly when no local row lies below
  the window and every sequence number from 1 up to the window's oldest row is proven.\<close>

theorem coverage_lookups:
  assumes "coverage_ok c"
  shows "(range_containing c s = Some r) = (r \<in> set (tc_ranges c) \<and> SeqRange_contains r s) \<and>
    (range_containing c s = None) = (s \<notin> proven c) \<and>
    (\<forall>t. t \<in> proven c \<longrightarrow> t \<le> highest_proven_seq c) \<and>
    (highest_proven_seq c = 0 \<or> highest_proven_seq c \<in> proven c) \<and>
    has_older c oldest below = (below \<or> (\<exists>t. 1 \<le> t \<and> t < oldest \<and> t \<notin> proven c))"
  using range_containing_iff [OF assms, of s r] range_containing_None [OF assms, of s]
    highest_proven_seq_max [OF assms] has_older_iff [OF assms, of oldest below] by blast

theorem coverage_lookups_witness:
  "range_containing \<lparr>tc_ranges = [\<lparr>sr_from = 1, sr_to = 36\<rparr>, \<lparr>sr_from = 980, sr_to = 1000\<rparr>]\<rparr> 980 =
     Some \<lparr>sr_from = 980, sr_to = 1000\<rparr> \<and>
   \<not> has_older \<lparr>tc_ranges = [\<lparr>sr_from = 1, sr_to = 36\<rparr>, \<lparr>sr_from = 980, sr_to = 1000\<rparr>]\<rparr> 37 False \<and>
   36 \<in> proven \<lparr>tc_ranges = [\<lparr>sr_from = 1, sr_to = 36\<rparr>, \<lparr>sr_from = 980, sr_to = 1000\<rparr>]\<rparr>"
proof -
  let ?c = "\<lparr>tc_ranges = [\<lparr>sr_from = 1, sr_to = 36\<rparr>, \<lparr>sr_from = 980, sr_to = 1000\<rparr>]\<rparr>"
  have "coverage_ok ?c" "range_containing ?c 980 = Some \<lparr>sr_from = 980, sr_to = 1000\<rparr>"
    "\<not> has_older ?c 37 False" "(1 :: u64) \<le> 36 \<and> (36 :: u64) < 37" by code_simp+
  then show ?thesis
    using coverage_lookups [of ?c 980 "\<lparr>sr_from = 980, sr_to = 1000\<rparr>" 37 False] by blast
qed

text \<open>C7. Whatever sequence of sync pages, cursor advances, tail pages, snapshots, back-fill pages
  and clear records a conversation goes through, if the server's pages mean what they document then
  every visible message in a proven range has a local row. So when \<open>has_older\<close> says no for a window
  below which no local row exists, no visible message older than the window exists.\<close>

theorem covered_no_hidden_gap:
  assumes "covered V c rows" "\<not> has_older c oldest below"
    and "\<forall>s\<in>rows. \<not> s < oldest" "0 \<notin> V"
  shows "coverage_ok c \<and> V \<inter> proven c \<subseteq> rows \<and> (\<forall>v\<in>V. \<not> v < oldest)"
proof -
  have ok: "coverage_ok c" "V \<inter> proven c \<subseteq> rows" using covered_sound [OF assms(1)] by auto
  then have "v \<in> proven c" if "v \<in> V" "v < oldest" for v
    using assms(2,4) that by (auto simp: has_older_iff word_one_le)
  with ok assms(3) show ?thesis by blast
qed

theorem covered_no_hidden_gap_witness:
  "covered {5, 8} (fst (coverage_insert coverage_new \<lparr>sr_from = 1, sr_to = 4\<rparr>)) {8} \<and>
   \<not> has_older (fst (coverage_insert coverage_new \<lparr>sr_from = 1, sr_to = 4\<rparr>)) 5 False \<and>
   {5, 8} \<inter> {..< 5 :: u64} = {}"
proof -
  let ?c = "fst (coverage_insert coverage_new \<lparr>sr_from = 1, sr_to = 4\<rparr>)"
  have page: "backfill_page_range 5 [] False = Some \<lparr>sr_from = 1, sr_to = 4\<rparr>" by code_simp
  have run: "covered {5, 8} ?c ({8} \<union> set [])"
    by (rule backfill_end [OF start page]) simp
  have older: "\<not> has_older ?c 5 False" by code_simp
  have "\<forall>v\<in>{5, 8}. \<not> v < (5 :: u64)" using covered_no_hidden_gap [OF run older] by simp
  with run older show ?thesis by auto
qed

end
