(* ===== verification/Text.thy ===== *)
theory Text
  imports Prelude "HOL-Library.Sublist"
begin

text \<open>
  Rust strings as the lists of their UTF-8 bytes, and the operations of \<open>str\<close> that the
  components use: \<open>trim\<close> (Unicode white space), \<open>chars\<close>, \<open>split\<close>, ASCII case folding, decimal
  printing of \<open>u64\<close> and \<open>str::parse::<u64>\<close>. The lemmas give the round trip of printing and
  parsing and the algebra of \<open>trim\<close>.
\<close>

named_theorems text_simps \<open>operations of strings\<close>

section \<open>Definitions\<close>

subsection \<open>White space\<close>

text \<open>The UTF-8 encodings of the code points with the Unicode property \<open>White_Space\<close>.\<close>

definition white_space :: "string list" where
  "white_space =
     [[CHR 0x09], [CHR 0x0A], [CHR 0x0B], [CHR 0x0C], [CHR 0x0D], [CHR 0x20],
      [CHR 0xC2, CHR 0x85], [CHR 0xC2, CHR 0xA0], [CHR 0xE1, CHR 0x9A, CHR 0x80],
      [CHR 0xE2, CHR 0x80, CHR 0x80], [CHR 0xE2, CHR 0x80, CHR 0x81],
      [CHR 0xE2, CHR 0x80, CHR 0x82], [CHR 0xE2, CHR 0x80, CHR 0x83],
      [CHR 0xE2, CHR 0x80, CHR 0x84], [CHR 0xE2, CHR 0x80, CHR 0x85],
      [CHR 0xE2, CHR 0x80, CHR 0x86], [CHR 0xE2, CHR 0x80, CHR 0x87],
      [CHR 0xE2, CHR 0x80, CHR 0x88], [CHR 0xE2, CHR 0x80, CHR 0x89],
      [CHR 0xE2, CHR 0x80, CHR 0x8A], [CHR 0xE2, CHR 0x80, CHR 0xA8],
      [CHR 0xE2, CHR 0x80, CHR 0xA9], [CHR 0xE2, CHR 0x80, CHR 0xAF],
      [CHR 0xE2, CHR 0x81, CHR 0x9F], [CHR 0xE3, CHR 0x80, CHR 0x80]]"

definition strip1 :: "string list \<Rightarrow> string \<Rightarrow> string option" where
  "strip1 ws s = (case find (\<lambda>w. prefix w s) ws of None \<Rightarrow> None | Some w \<Rightarrow> Some (drop (length w) s))"

text \<open>Repeated removal; every step removes at least one byte, so the length bounds the steps.\<close>

fun strip_n :: "nat \<Rightarrow> string list \<Rightarrow> string \<Rightarrow> string" where
  "strip_n 0 ws s = s"
| "strip_n (Suc n) ws s = (case strip1 ws s of None \<Rightarrow> s | Some s' \<Rightarrow> strip_n n ws s')"

definition strip :: "string list \<Rightarrow> string \<Rightarrow> string" where
  "strip ws s = strip_n (length s) ws s"

definition trim_start :: "string \<Rightarrow> string" where
  "trim_start s = strip white_space s"

definition trim_end :: "string \<Rightarrow> string" where
  "trim_end s = rev (strip (map rev white_space) (rev s))"

definition trim :: "string \<Rightarrow> string" where
  "trim s = trim_end (trim_start s)"

definition is_blank :: "string \<Rightarrow> bool" where
  "is_blank s \<longleftrightarrow> trim s = []"

subsection \<open>Characters and case\<close>

definition is_continuation :: "char \<Rightarrow> bool" where
  "is_continuation c \<longleftrightarrow> 0x80 \<le> (of_char c :: nat) \<and> (of_char c :: nat) < 0xC0"

text \<open>\<open>str::chars\<close>: a lead byte with the continuation bytes that follow it.\<close>

fun chars :: "string \<Rightarrow> string list" where
  "chars [] = []"
| "chars (c # cs) =
     (case chars cs of
        [] \<Rightarrow> [[c]]
      | w # ws \<Rightarrow> if is_continuation (hd w) then (c # w) # ws else [c] # w # ws)"

definition ascii_lower :: "char \<Rightarrow> char" where
  "ascii_lower c = (let n = (of_char c :: nat) in if 65 \<le> n \<and> n \<le> 90 then char_of (n + 32) else c)"

definition to_ascii_lowercase :: "string \<Rightarrow> string" where
  "to_ascii_lowercase s = map ascii_lower s"

definition eq_ignore_ascii_case :: "string \<Rightarrow> string \<Rightarrow> bool" where
  "eq_ignore_ascii_case s t \<longleftrightarrow> to_ascii_lowercase s = to_ascii_lowercase t"

definition is_ascii_alphanumeric :: "char \<Rightarrow> bool" where
  "is_ascii_alphanumeric b \<longleftrightarrow>
     (let n = of_char b :: nat in 48 \<le> n \<and> n \<le> 57 \<or> 65 \<le> n \<and> n \<le> 90 \<or> 97 \<le> n \<and> n \<le> 122)"

subsection \<open>Decimal numbers\<close>

definition is_digit :: "char \<Rightarrow> bool" where
  "is_digit c \<longleftrightarrow> 48 \<le> (of_char c :: nat) \<and> (of_char c :: nat) \<le> 57"

definition digit_value :: "char \<Rightarrow> nat" where
  "digit_value c = of_char c - 48"

definition digits_value :: "string \<Rightarrow> nat" where
  "digits_value s = fold (\<lambda>c n. 10 * n + digit_value c) s 0"

text \<open>\<open>str::parse::<u64>\<close>: an optional plus sign, then at least one digit, no overflow.\<close>

definition parse_u64 :: "string \<Rightarrow> u64 option" where
  "parse_u64 s =
     (let ds = (case s of [] \<Rightarrow> [] | c # cs \<Rightarrow> if c = CHR ''+'' then cs else s) in
      if ds \<noteq> [] \<and> list_all is_digit ds \<and> digits_value ds < 2 ^ 64
      then Some (of_nat (digits_value ds)) else None)"

fun nat_digits :: "nat \<Rightarrow> string" where
  "nat_digits n = (if n < 10 then [char_of (48 + n)] else nat_digits (n div 10) @ [char_of (48 + n mod 10)])"

declare nat_digits.simps [simp del]

text \<open>\<open>u64::to_string\<close>.\<close>

definition u64_to_string :: "u64 \<Rightarrow> string" where
  "u64_to_string w = nat_digits (unat w)"

subsection \<open>Joining and splitting strings\<close>

fun join_on :: "char \<Rightarrow> string list \<Rightarrow> string" where
  "join_on c [] = []"
| "join_on c [x] = x"
| "join_on c (x # y # ys) = x @ c # join_on c (y # ys)"

fun split_on :: "char \<Rightarrow> string \<Rightarrow> string list" where
  "split_on c [] = [[]]"
| "split_on c (x # xs) =
     (if x = c then [] # split_on c xs
      else case split_on c xs of y # ys \<Rightarrow> (x # y) # ys | [] \<Rightarrow> [[x]])"

section \<open>Lemmas\<close>

subsection \<open>Trimming\<close>

lemma strip1_length:
  assumes "strip1 ws s = Some s'" "[] \<notin> set ws"
  shows "length s' < length s"
proof -
  obtain w where "find (\<lambda>w. prefix w s) ws = Some w" "s' = drop (length w) s"
    using assms(1) by (auto simp: strip1_def split: option.splits)
  then have "w \<in> set ws" "prefix w s" "s' = drop (length w) s"
    by (auto simp: find_Some_iff)
  then show ?thesis
    using assms(2) by (metis diff_less length_drop length_greater_0_conv prefix_Nil)
qed

lemma strip_n_fixpoint:
  "[] \<notin> set ws \<Longrightarrow> length s \<le> n \<Longrightarrow> strip1 ws (strip_n n ws s) = None"
proof (induction n arbitrary: s)
  case 0
  then have "w \<in> set ws \<Longrightarrow> \<not> prefix w s" for w by auto
  then show ?case by (auto simp: strip1_def split: option.splits simp: find_Some_iff)
next
  case (Suc n)
  show ?case
  proof (cases "strip1 ws s")
    case (Some s')
    then show ?thesis using Suc strip1_length [OF Some] by simp
  qed simp
qed

lemma strip_n_none: "strip1 ws s = None \<Longrightarrow> strip_n n ws s = s"
  by (cases n) simp_all

lemma strip_idem: "[] \<notin> set ws \<Longrightarrow> strip ws (strip ws s) = strip ws s"
  by (simp add: strip_def strip_n_none strip_n_fixpoint)

lemma strip_n_suffix: "suffix (strip_n n ws s) s"
proof (induction n arbitrary: s)
  case (Suc n)
  then show ?case
    by (auto simp: strip1_def split: option.splits) (metis suffix_drop suffix_order.trans)
qed simp

lemma strip_Nil [simp]: "strip ws [] = []"
  by (simp add: strip_def)

lemma white_space_nonempty: "[] \<notin> set white_space"
  by (simp add: white_space_def)

lemma trim_Nil [simp]: "trim [] = []"
  by (simp add: trim_def trim_start_def trim_end_def)

lemma strip1_None: "strip1 ws s = None \<longleftrightarrow> (\<forall>w\<in>set ws. \<not> prefix w s)"
  unfolding strip1_def option.case_eq_if
  using find_None_iff [of "\<lambda>w. prefix w s" ws] by auto

lemma strip_fixpoint: "[] \<notin> set ws \<Longrightarrow> strip1 ws (strip ws s) = None"
  by (simp add: strip_def strip_n_fixpoint)

lemma strip_id: "strip1 ws s = None \<Longrightarrow> strip ws s = s"
  by (simp add: strip_def strip_n_none)

lemma trim_end_prefix: "prefix (trim_end s) s"
  unfolding trim_end_def strip_def suffix_to_prefix [symmetric]
  using strip_n_suffix [of "length (rev s)" "map rev white_space" "rev s"]
  by (metis rev_rev_ident suffix_to_prefix)

lemma trim_idem [text_simps]: "trim (trim s) = trim s"
proof -
  let ?t = "trim_start s"
  have "strip1 white_space ?t = None"
    by (simp add: trim_start_def strip_fixpoint white_space_nonempty)
  then have "strip1 white_space (trim s) = None"
    using trim_end_prefix [of ?t] prefix_order.trans unfolding strip1_None trim_def by blast
  then have start: "trim_start (trim s) = trim s" by (simp add: trim_start_def strip_id)
  have "[] \<notin> set (map rev white_space)" using white_space_nonempty by auto
  then have "trim_end (trim s) = trim s"
    by (simp add: trim_def trim_end_def strip_idem)
  with start show ?thesis by (simp add: trim_def [of "trim s"])
qed

lemma is_blank_trim [text_simps]: "is_blank (trim s) = is_blank s"
  by (simp add: is_blank_def trim_idem)

text \<open>A string without the first bytes of white space at its ends is already trimmed.\<close>

lemma trim_id:
  assumes "s \<noteq> []" "\<forall>w\<in>set white_space. hd w \<noteq> hd s \<and> last w \<noteq> last s"
  shows "trim s = s"
proof -
  have "\<not> prefix w s" if "w \<in> set white_space" for w
    using assms that white_space_nonempty by (metis hd_append2 prefixE)
  then have start: "trim_start s = s"
    unfolding trim_start_def by (intro strip_id) (simp add: strip1_None)
  have "\<not> prefix (rev w) (rev s)" if "w \<in> set white_space" for w
    using assms that white_space_nonempty
    by (metis last_appendR prefix_def rev_append rev_rev_ident)
  then have "strip (map rev white_space) (rev s) = rev s"
    by (intro strip_id) (simp add: strip1_None)
  then show ?thesis by (simp add: trim_def start trim_end_def)
qed

subsection \<open>Characters\<close>

lemma concat_chars [simp]: "concat (chars s) = s"
proof (induction s)
  case (Cons c cs)
  then show ?case by (cases "chars cs") auto
qed simp

subsection \<open>Decimal numbers\<close>

lemma of_char_digit: "n < 10 \<Longrightarrow> (of_char (char_of (48 + n)) :: nat) = 48 + n"
  by (simp add: of_char_of)

lemma digits_value_snoc: "digits_value (s @ [c]) = 10 * digits_value s + digit_value c"
  by (simp add: digits_value_def)

lemma nat_digits_correct:
  "nat_digits n \<noteq> [] \<and> list_all is_digit (nat_digits n) \<and> digits_value (nat_digits n) = n"
proof (induction n rule: nat_digits.induct)
  case (1 n)
  show ?case
  proof (cases "n < 10")
    case True
    then show ?thesis
      by (simp add: nat_digits.simps is_digit_def digits_value_def digit_value_def of_char_digit)
  next
    case False
    then have IH: "list_all is_digit (nat_digits (n div 10))"
      "digits_value (nat_digits (n div 10)) = n div 10" using 1 by simp_all
    have eq: "nat_digits n = nat_digits (n div 10) @ [char_of (48 + n mod 10)]"
      using False by (simp add: nat_digits.simps [of n])
    have d: "is_digit (char_of (48 + n mod 10))"
      using of_char_digit [of "n mod 10"] mod_less_divisor [of 10 n] by (auto simp: is_digit_def)
    show ?thesis
      unfolding eq digits_value_snoc IH using IH(1) d
      by (simp add: digit_value_def of_char_digit)
  qed
qed

lemma digit_not_plus: "is_digit c \<Longrightarrow> c \<noteq> CHR ''+''"
  by (auto simp: is_digit_def)

lemma parse_u64_digits:
  assumes "ds \<noteq> []" "list_all is_digit ds"
  shows "parse_u64 ds = (if digits_value ds < 2 ^ 64 then Some (of_nat (digits_value ds)) else None)"
  using assms digit_not_plus by (cases ds) (auto simp: parse_u64_def)

lemma parse_u64_to_string [text_simps]: "parse_u64 (u64_to_string w) = Some w"
  using unat_bound64 [of w] nat_digits_correct [of "unat w"]
  by (simp add: u64_to_string_def parse_u64_digits)

lemma digit_not_white:
  "is_digit c \<Longrightarrow> w \<in> set white_space \<Longrightarrow> hd w \<noteq> c \<and> last w \<noteq> c"
  by (auto simp: white_space_def is_digit_def)

lemma trim_u64_to_string [text_simps]: "trim (u64_to_string w) = u64_to_string w"
proof -
  have d: "u64_to_string w \<noteq> []" "list_all is_digit (u64_to_string w)"
    by (simp_all add: u64_to_string_def nat_digits_correct)
  then have "is_digit (hd (u64_to_string w))" "is_digit (last (u64_to_string w))"
    by (simp_all add: list_all_iff)
  then show ?thesis using d(1) digit_not_white by (intro trim_id) metis+
qed

subsection \<open>Joining and splitting strings\<close>

lemma split_on_no: "c \<notin> set x \<Longrightarrow> split_on c x = [x]"
  by (induction x) auto

lemma split_on_append: "c \<notin> set x \<Longrightarrow> split_on c (x @ c # s) = x # split_on c s"
  by (induction x) auto

lemma split_join: "xs \<noteq> [] \<Longrightarrow> \<forall>x\<in>set xs. c \<notin> set x \<Longrightarrow> split_on c (join_on c xs) = xs"
  by (induction c xs rule: join_on.induct) (simp_all add: split_on_no split_on_append)

end
