(* ===== verification/Display_Name.thy ===== *)
theory Display_Name
  imports Text
begin

text \<open>
  Conversation types with their policy tables (\<open>src/model/conversation.rs\<close>) and the names of
  people and conversations (\<open>src/domain/display_name.rs\<close>). The lemmas show that the table and the
  \<open>match\<close> of the policies agree and are injective, and that a name the chains return is always a
  real name: trimmed, not empty and never an id of the thing it names.
\<close>

section \<open>Conversation types\<close>

datatype ConversationType =
    CtUnspecified | CtSingle | CtGroup | CtAi | CtSystem | CtCustomer | CtTemp | CtChannel | CtBroadcast

record ConversationTypePolicy =
  ctp_conversation_type :: ConversationType
  ctp_wire_value :: int
  ctp_wire_name :: string
  ctp_cid_prefix :: "string option"
  ctp_subscriber_model :: bool
  ctp_member_lookup_required :: bool

definition CONVERSATION_TYPE_WIRE_ORDER :: "ConversationType list" where
  "CONVERSATION_TYPE_WIRE_ORDER =
     [CtUnspecified, CtSingle, CtGroup, CtAi, CtSystem, CtCustomer, CtTemp, CtChannel, CtBroadcast]"

definition CONVERSATION_TYPE_POLICIES :: "ConversationTypePolicy list" where
  "CONVERSATION_TYPE_POLICIES =
    [\<lparr>ctp_conversation_type = CtUnspecified, ctp_wire_value = 0, ctp_wire_name = ''unspecified'',
      ctp_cid_prefix = None, ctp_subscriber_model = False, ctp_member_lookup_required = False\<rparr>,
     \<lparr>ctp_conversation_type = CtSingle, ctp_wire_value = 1, ctp_wire_name = ''single'',
      ctp_cid_prefix = Some ''1'', ctp_subscriber_model = False, ctp_member_lookup_required = False\<rparr>,
     \<lparr>ctp_conversation_type = CtGroup, ctp_wire_value = 2, ctp_wire_name = ''group'',
      ctp_cid_prefix = Some ''2'', ctp_subscriber_model = True, ctp_member_lookup_required = True\<rparr>,
     \<lparr>ctp_conversation_type = CtAi, ctp_wire_value = 3, ctp_wire_name = ''ai'',
      ctp_cid_prefix = Some ''3'', ctp_subscriber_model = True, ctp_member_lookup_required = True\<rparr>,
     \<lparr>ctp_conversation_type = CtSystem, ctp_wire_value = 4, ctp_wire_name = ''system'',
      ctp_cid_prefix = Some ''4'', ctp_subscriber_model = True, ctp_member_lookup_required = True\<rparr>,
     \<lparr>ctp_conversation_type = CtCustomer, ctp_wire_value = 5, ctp_wire_name = ''customer'',
      ctp_cid_prefix = Some ''5'', ctp_subscriber_model = True, ctp_member_lookup_required = True\<rparr>,
     \<lparr>ctp_conversation_type = CtTemp, ctp_wire_value = 6, ctp_wire_name = ''temp'',
      ctp_cid_prefix = Some ''6'', ctp_subscriber_model = False, ctp_member_lookup_required = False\<rparr>,
     \<lparr>ctp_conversation_type = CtChannel, ctp_wire_value = 7, ctp_wire_name = ''channel'',
      ctp_cid_prefix = Some ''7'', ctp_subscriber_model = True, ctp_member_lookup_required = True\<rparr>,
     \<lparr>ctp_conversation_type = CtBroadcast, ctp_wire_value = 8, ctp_wire_name = ''broadcast'',
      ctp_cid_prefix = Some ''8'', ctp_subscriber_model = True, ctp_member_lookup_required = True\<rparr>]"

fun ConversationType_policy :: "ConversationType \<Rightarrow> ConversationTypePolicy" where
  "ConversationType_policy CtUnspecified =
     \<lparr>ctp_conversation_type = CtUnspecified, ctp_wire_value = 0, ctp_wire_name = ''unspecified'',
      ctp_cid_prefix = None, ctp_subscriber_model = False, ctp_member_lookup_required = False\<rparr>"
| "ConversationType_policy CtSingle =
     \<lparr>ctp_conversation_type = CtSingle, ctp_wire_value = 1, ctp_wire_name = ''single'',
      ctp_cid_prefix = Some ''1'', ctp_subscriber_model = False, ctp_member_lookup_required = False\<rparr>"
| "ConversationType_policy CtGroup =
     \<lparr>ctp_conversation_type = CtGroup, ctp_wire_value = 2, ctp_wire_name = ''group'',
      ctp_cid_prefix = Some ''2'', ctp_subscriber_model = True, ctp_member_lookup_required = True\<rparr>"
| "ConversationType_policy CtAi =
     \<lparr>ctp_conversation_type = CtAi, ctp_wire_value = 3, ctp_wire_name = ''ai'',
      ctp_cid_prefix = Some ''3'', ctp_subscriber_model = True, ctp_member_lookup_required = True\<rparr>"
| "ConversationType_policy CtSystem =
     \<lparr>ctp_conversation_type = CtSystem, ctp_wire_value = 4, ctp_wire_name = ''system'',
      ctp_cid_prefix = Some ''4'', ctp_subscriber_model = True, ctp_member_lookup_required = True\<rparr>"
| "ConversationType_policy CtCustomer =
     \<lparr>ctp_conversation_type = CtCustomer, ctp_wire_value = 5, ctp_wire_name = ''customer'',
      ctp_cid_prefix = Some ''5'', ctp_subscriber_model = True, ctp_member_lookup_required = True\<rparr>"
| "ConversationType_policy CtTemp =
     \<lparr>ctp_conversation_type = CtTemp, ctp_wire_value = 6, ctp_wire_name = ''temp'',
      ctp_cid_prefix = Some ''6'', ctp_subscriber_model = False, ctp_member_lookup_required = False\<rparr>"
| "ConversationType_policy CtChannel =
     \<lparr>ctp_conversation_type = CtChannel, ctp_wire_value = 7, ctp_wire_name = ''channel'',
      ctp_cid_prefix = Some ''7'', ctp_subscriber_model = True, ctp_member_lookup_required = True\<rparr>"
| "ConversationType_policy CtBroadcast =
     \<lparr>ctp_conversation_type = CtBroadcast, ctp_wire_value = 8, ctp_wire_name = ''broadcast'',
      ctp_cid_prefix = Some ''8'', ctp_subscriber_model = True, ctp_member_lookup_required = True\<rparr>"

definition ConversationType_as_str :: "ConversationType \<Rightarrow> string" where
  "ConversationType_as_str t = ctp_wire_name (ConversationType_policy t)"

definition ConversationType_prefix :: "ConversationType \<Rightarrow> string option" where
  "ConversationType_prefix t = ctp_cid_prefix (ConversationType_policy t)"

definition ConversationType_from_prefix :: "string \<Rightarrow> ConversationType option" where
  "ConversationType_from_prefix p =
     map_option ctp_conversation_type
       (find (\<lambda>policy. ctp_cid_prefix policy = Some p) CONVERSATION_TYPE_POLICIES)"

definition ConversationType_is_single :: "ConversationType \<Rightarrow> bool" where
  "ConversationType_is_single t \<longleftrightarrow> t = CtSingle"

definition ConversationType_is_group :: "ConversationType \<Rightarrow> bool" where
  "ConversationType_is_group t \<longleftrightarrow> t = CtGroup"

definition uses_subscriber_model :: "ConversationType \<Rightarrow> bool" where
  "uses_subscriber_model t = ctp_subscriber_model (ConversationType_policy t)"

definition requires_member_lookup :: "ConversationType \<Rightarrow> bool" where
  "requires_member_lookup t = ctp_member_lookup_required (ConversationType_policy t)"

datatype ConversationFanoutMode = FanOutOnWrite | FanOutOnRead

definition DEFAULT_READ_FANOUT_GROUP_MEMBER_THRESHOLD :: u32 where
  "DEFAULT_READ_FANOUT_GROUP_MEMBER_THRESHOLD = 5000"

definition fanout_mode_with_threshold :: "ConversationType \<Rightarrow> u32 \<Rightarrow> u32 \<Rightarrow> ConversationFanoutMode" where
  "fanout_mode_with_threshold t members_count large_group_threshold =
     (if t = CtChannel \<or> t = CtBroadcast then FanOutOnRead
      else if t = CtGroup \<and> members_count \<ge> max large_group_threshold 1 then FanOutOnRead
      else FanOutOnWrite)"

definition fanout_mode ::
  "ConversationType \<Rightarrow> u32 \<Rightarrow> ConversationFanoutMode option \<Rightarrow> ConversationFanoutMode" where
  "fanout_mode t members_count server_hint =
     (case server_hint of
        Some hint \<Rightarrow> hint
      | None \<Rightarrow> fanout_mode_with_threshold t members_count DEFAULT_READ_FANOUT_GROUP_MEMBER_THRESHOLD)"

record ConversationTimelinePolicy =
  ctl_fanout_mode :: ConversationFanoutMode
  ctl_shared_timeline :: bool
  ctl_attention_scoped_subscription :: bool
  ctl_member_presence_aggregation :: bool
  ctl_materialize_member_table :: bool

definition timeline_policy ::
  "ConversationType \<Rightarrow> u32 \<Rightarrow> ConversationFanoutMode option \<Rightarrow> ConversationTimelinePolicy" where
  "timeline_policy t members_count server_hint =
     (let fanout = fanout_mode t members_count server_hint;
          shared = (fanout = FanOutOnRead)
      in \<lparr>ctl_fanout_mode = fanout, ctl_shared_timeline = shared,
          ctl_attention_scoped_subscription = shared, ctl_member_presence_aggregation = shared,
          ctl_materialize_member_table = (\<not> shared \<and> requires_member_lookup t)\<rparr>)"

definition ConversationType_to_proto_int :: "ConversationType \<Rightarrow> int" where
  "ConversationType_to_proto_int t = ctp_wire_value (ConversationType_policy t)"

text \<open>
  The generated enum of the protocol crate. Its \<open>try_from\<close> is code outside the repository and a
  parameter of \<open>from_proto_int\<close>.
\<close>

datatype ProtoConversationType =
    PtUnspecified | PtSingle | PtGroup | PtAi | PtCustomer | PtSystem | PtTemp | PtChannel | PtBroadcast

definition ConversationType_from_proto_int ::
  "(int \<Rightarrow> ProtoConversationType option) \<Rightarrow> int \<Rightarrow> ConversationType" where
  "ConversationType_from_proto_int try_from v =
     (case try_from v of
        Some PtUnspecified \<Rightarrow> CtUnspecified
      | Some PtSingle \<Rightarrow> CtSingle
      | Some PtGroup \<Rightarrow> CtGroup
      | Some PtAi \<Rightarrow> CtAi
      | Some PtCustomer \<Rightarrow> CtCustomer
      | Some PtSystem \<Rightarrow> CtSystem
      | Some PtTemp \<Rightarrow> CtTemp
      | Some PtChannel \<Rightarrow> CtChannel
      | Some PtBroadcast \<Rightarrow> CtBroadcast
      | None \<Rightarrow> CtUnspecified)"

definition ConversationType_from_str :: "string \<Rightarrow> ConversationType" where
  "ConversationType_from_str s =
     (let normalized = to_ascii_lowercase (trim s) in
      case find (\<lambda>policy. ctp_wire_name policy = normalized) CONVERSATION_TYPE_POLICIES of
        Some policy \<Rightarrow> ctp_conversation_type policy
      | None \<Rightarrow> CtUnspecified)"

section \<open>Names\<close>

definition MAX_TITLE_MEMBER_NAMES :: nat where
  "MAX_TITLE_MEMBER_NAMES = 3"

datatype NameSource = NsAlias | NsMemberNickname | NsProfile | NsSnapshot | NsRemark | NsName

datatype NameEntity =
    EntPerson | EntGroup | EntSystem | EntAi | EntCustomer | EntChannel | EntBroadcast | EntTemp

fun NameEntity_of_conversation :: "ConversationType \<Rightarrow> NameEntity" where
  "NameEntity_of_conversation CtUnspecified = EntPerson"
| "NameEntity_of_conversation CtSingle = EntPerson"
| "NameEntity_of_conversation CtGroup = EntGroup"
| "NameEntity_of_conversation CtAi = EntAi"
| "NameEntity_of_conversation CtSystem = EntSystem"
| "NameEntity_of_conversation CtCustomer = EntCustomer"
| "NameEntity_of_conversation CtTemp = EntTemp"
| "NameEntity_of_conversation CtChannel = EntChannel"
| "NameEntity_of_conversation CtBroadcast = EntBroadcast"

text \<open>The last four Unicode scalar values of the trimmed id.\<close>

definition id_tail :: "string \<Rightarrow> string" where
  "id_tail i = (let cs = chars (trim i) in concat (drop (length cs - 4) cs))"

datatype DisplayName =
    Named string NameSource
  | Members "string list" u32
  | Unnamed NameEntity string

definition DisplayName_default :: DisplayName where
  "DisplayName_default = Unnamed EntPerson []"

definition DisplayName_unnamed :: "NameEntity \<Rightarrow> string \<Rightarrow> DisplayName" where
  "DisplayName_unnamed entity i = Unnamed entity (id_tail i)"

fun DisplayName_text :: "DisplayName \<Rightarrow> string option" where
  "DisplayName_text (Named text _) = Some text"
| "DisplayName_text _ = None"

definition real_name :: "string \<Rightarrow> string list \<Rightarrow> string option" where
  "real_name candidate own_ids =
     (let name = trim candidate in
      if name = [] then None
      else if list_ex (\<lambda>i. trim i \<noteq> [] \<and> trim i = name) own_ids then None
      else Some name)"

definition business_name :: "string \<Rightarrow> string list \<Rightarrow> string" where
  "business_name candidate own_ids = (case real_name candidate own_ids of Some n \<Rightarrow> n | None \<Rightarrow> [])"

definition member_nicknames_apply :: "ConversationType \<Rightarrow> bool" where
  "member_nicknames_apply t \<longleftrightarrow> t = CtGroup \<or> t = CtChannel"

record PersonNameCandidates =
  pn_alias :: string
  pn_member_nickname :: string
  pn_profile_name :: string
  pn_snapshot :: string

text \<open>The loop of \<open>resolve_person_name\<close> over its candidate chain.\<close>

fun name_chain :: "string list \<Rightarrow> (string \<times> NameSource \<times> bool) list \<Rightarrow> DisplayName option" where
  "name_chain own [] = None"
| "name_chain own ((candidate, source, applies) # chain) =
     (if applies then
        (case real_name candidate own of
           Some name \<Rightarrow> Some (Named name source)
         | None \<Rightarrow> name_chain own chain)
      else name_chain own chain)"

definition person_chain ::
  "PersonNameCandidates \<Rightarrow> ConversationType option \<Rightarrow> (string \<times> NameSource \<times> bool) list" where
  "person_chain names conversation_type =
     [(pn_alias names, NsAlias, True),
      (pn_member_nickname names, NsMemberNickname,
         case conversation_type of Some t \<Rightarrow> member_nicknames_apply t | None \<Rightarrow> False),
      (pn_profile_name names, NsProfile, True),
      (pn_snapshot names, NsSnapshot, True)]"

definition resolve_person_name ::
  "string \<Rightarrow> PersonNameCandidates \<Rightarrow> ConversationType option \<Rightarrow> DisplayName" where
  "resolve_person_name user_id names conversation_type =
     (case name_chain [user_id] (person_chain names conversation_type) of
        Some name \<Rightarrow> name
      | None \<Rightarrow> DisplayName_unnamed EntPerson user_id)"

record ConversationTitleInput =
  ti_conversation_id :: string
  ti_conversation_type :: ConversationType
  ti_channel_id :: string
  ti_remark :: string
  ti_display_name :: string
  ti_current_user_id :: string
  ti_member_ids :: "string list"
  ti_members_count :: u32

text \<open>The loop of \<open>single_chat_peer\<close>; \<open>first\<close> is its \<open>get_or_insert\<close> slot.\<close>

fun peer_loop :: "string \<Rightarrow> string option \<Rightarrow> string list \<Rightarrow> string option" where
  "peer_loop me first [] = first"
| "peer_loop me first (i # ids) =
     (if i \<noteq> me then Some i
      else peer_loop me (case first of None \<Rightarrow> Some i | Some f \<Rightarrow> Some f) ids)"

definition single_chat_peer :: "ConversationTitleInput \<Rightarrow> string option" where
  "single_chat_peer input =
     (let channel = trim (ti_channel_id input) in
      if channel \<noteq> [] then Some channel
      else peer_loop (trim (ti_current_user_id input)) None
             (filter (\<lambda>i. i \<noteq> []) (map trim (ti_member_ids input))))"

text \<open>The member loop of an unnamed group's title: the ids seen and the names collected.\<close>

fun member_loop ::
  "(string \<Rightarrow> PersonNameCandidates) \<Rightarrow> string \<Rightarrow> string list \<Rightarrow> string list \<Rightarrow> string list
   \<Rightarrow> string list \<times> string list" where
  "member_loop names me seen member_names [] = (seen, member_names)"
| "member_loop names me seen member_names (i # ids) =
     (if i = [] \<or> i \<in> set seen then member_loop names me seen member_names ids
      else
        let seen = seen @ [i] in
        if i = me \<or> length member_names = MAX_TITLE_MEMBER_NAMES
        then member_loop names me seen member_names ids
        else
          (case resolve_person_name i (names i) (Some CtGroup) of
             Named text _ \<Rightarrow> member_loop names me seen (member_names @ [text]) ids
           | _ \<Rightarrow> member_loop names me seen member_names ids))"

definition resolve_conversation_title ::
  "ConversationTitleInput \<Rightarrow> (string \<Rightarrow> PersonNameCandidates) \<Rightarrow> DisplayName" where
  "resolve_conversation_title input names =
     (let own = [ti_channel_id input, ti_conversation_id input];
          unnamed = DisplayName_unnamed (NameEntity_of_conversation (ti_conversation_type input)) []
      in
      case real_name (ti_remark input) own of
        Some remark \<Rightarrow> Named remark NsRemark
      | None \<Rightarrow>
        if ti_conversation_type input = CtSingle then
          (case single_chat_peer input of
             Some peer \<Rightarrow> resolve_person_name peer (names peer) None
           | None \<Rightarrow> DisplayName_unnamed EntPerson [])
        else
          (case real_name (ti_display_name input) own of
             Some name \<Rightarrow> Named name NsName
           | None \<Rightarrow>
             if ti_conversation_type input = CtGroup then
               (let (seen, member_names) =
                  member_loop names (trim (ti_current_user_id input)) [] []
                    (map trim (ti_member_ids input))
                in
                if member_names \<noteq> [] then
                  Members member_names
                    (max (ti_members_count input)
                      (if length seen < 2 ^ 32 then of_nat (length seen) else - 1))
                else unnamed)
             else unnamed))"

record ParticipantDisplaySnapshot =
  ps_conversation_id :: string
  ps_user_id :: string
  ps_nickname :: string

definition ParticipantDisplaySnapshot_normalized ::
  "ParticipantDisplaySnapshot \<Rightarrow> ParticipantDisplaySnapshot option" where
  "ParticipantDisplaySnapshot_normalized s =
     (let conversation_id = trim (ps_conversation_id s); user_id = trim (ps_user_id s) in
      if conversation_id = [] \<or> user_id = [] then None
      else Some \<lparr>ps_conversation_id = conversation_id, ps_user_id = user_id,
                 ps_nickname = business_name (ps_nickname s) [user_id]\<rparr>)"

section \<open>Lemmas\<close>

text \<open>What the module calls a real name of the thing whose ids are \<open>own\<close>.\<close>

definition is_real_name :: "string \<Rightarrow> string list \<Rightarrow> bool" where
  "is_real_name n own \<longleftrightarrow> n \<noteq> [] \<and> trim n = n \<and> list_all (\<lambda>i. trim i \<noteq> n) own"

lemma real_name_Some: "real_name c own = Some n \<Longrightarrow> n = trim c \<and> is_real_name n own"
  by (auto simp: real_name_def is_real_name_def Let_def trim_idem list_ex_iff list_all_iff
      split: if_splits)

lemma real_name_None:
  "real_name c own = None \<longleftrightarrow> is_blank c \<or> list_ex (\<lambda>i. trim i = trim c) own"
  by (auto simp: real_name_def Let_def is_blank_def list_ex_iff)

lemma business_name_cases:
  "business_name c own = [] \<or> business_name c own = trim c \<and> is_real_name (trim c) own"
  using real_name_Some by (auto simp: business_name_def split: option.splits)

lemma real_name_of_real: "is_real_name n own \<Longrightarrow> real_name n own = Some n"
  by (simp add: real_name_def is_real_name_def Let_def list_ex_iff list_all_iff)

lemma business_name_idem: "business_name (business_name c own) own = business_name c own"
proof (cases "real_name c own")
  case (Some n)
  then have "real_name n own = Some n" using real_name_Some [OF Some] real_name_of_real by blast
  then show ?thesis using Some by (simp add: business_name_def)
qed (simp add: business_name_def real_name_def)

lemma name_chain_Some:
  "name_chain own chain = Some d \<Longrightarrow>
     \<exists>c src. (c, src, True) \<in> set chain \<and> d = Named (trim c) src \<and> is_real_name (trim c) own"
  by (induction own chain rule: name_chain.induct)
    (auto split: if_splits option.splits dest!: real_name_Some)

lemma name_chain_None:
  "name_chain own chain = None \<longleftrightarrow> list_all (\<lambda>(c, _, applies). applies \<longrightarrow> real_name c own = None) chain"
  by (induction own chain rule: name_chain.induct) (auto split: option.splits)

definition person_candidate :: "PersonNameCandidates \<Rightarrow> NameSource \<Rightarrow> string" where
  "person_candidate names src =
     (case src of NsAlias \<Rightarrow> pn_alias names | NsMemberNickname \<Rightarrow> pn_member_nickname names
      | NsProfile \<Rightarrow> pn_profile_name names | NsSnapshot \<Rightarrow> pn_snapshot names | _ \<Rightarrow> [])"

lemma resolve_person_name_Named:
  assumes "resolve_person_name u names t = Named n src"
  shows "is_real_name n [u] \<and> n = trim (person_candidate names src) \<and>
    (src = NsMemberNickname \<longrightarrow> (case t of Some ct \<Rightarrow> member_nicknames_apply ct | None \<Rightarrow> False))"
proof -
  have "name_chain [u] (person_chain names t) = Some (Named n src)"
    using assms by (simp add: resolve_person_name_def DisplayName_unnamed_def split: option.splits)
  from name_chain_Some [OF this] show ?thesis
    by (auto simp: person_chain_def person_candidate_def)
qed

lemma resolve_person_name_cases:
  "(\<exists>n src. resolve_person_name u names t = Named n src) \<or>
   resolve_person_name u names t = Unnamed EntPerson (id_tail u) \<and>
     name_chain [u] (person_chain names t) = None"
  using name_chain_Some [of "[u]" "person_chain names t"]
  by (cases "name_chain [u] (person_chain names t)")
    (auto simp: resolve_person_name_def DisplayName_unnamed_def)

subsection \<open>Titles\<close>

text \<open>What the member loop has collected: names of distinct members other than oneself.\<close>

definition member_name_of :: "(string \<Rightarrow> PersonNameCandidates) \<Rightarrow> string \<Rightarrow> string list \<Rightarrow> string \<Rightarrow> bool" where
  "member_name_of names me ids n \<longleftrightarrow>
     (\<exists>i\<in>set ids. i \<noteq> me \<and> is_real_name n [i] \<and>
        (\<exists>src. resolve_person_name i (names i) (Some CtGroup) = Named n src))"

lemma member_loop_correct:
  assumes "length ns \<le> MAX_TITLE_MEMBER_NAMES" "length ns \<le> length seen" "distinct seen"
    and "member_loop names me seen ns ids = (seen', ns')"
    and "list_all (member_name_of names me all_ids) ns" "set ids \<subseteq> set all_ids"
  shows "length ns' \<le> MAX_TITLE_MEMBER_NAMES \<and> length ns' \<le> length seen' \<and> distinct seen' \<and>
    set seen' = set seen \<union> (set ids - {[]}) \<and> list_all (member_name_of names me all_ids) ns'"
  using assms
proof (induction ids arbitrary: seen ns)
  case (Cons i ids)
  note IH = Cons.IH
  consider (skip) "i = [] \<or> i \<in> set seen"
    | (mine) "i \<noteq> []" "i \<notin> set seen" "i = me \<or> length ns = MAX_TITLE_MEMBER_NAMES"
    | (named) n src where "i \<noteq> []" "i \<notin> set seen" "i \<noteq> me" "length ns \<noteq> MAX_TITLE_MEMBER_NAMES"
        "resolve_person_name i (names i) (Some CtGroup) = Named n src"
    | (unnamed) e tl where "i \<noteq> []" "i \<notin> set seen" "i \<noteq> me" "length ns \<noteq> MAX_TITLE_MEMBER_NAMES"
        "resolve_person_name i (names i) (Some CtGroup) = Unnamed e tl"
    using resolve_person_name_cases [of i "names i" "Some CtGroup"] by blast
  then show ?case
  proof cases
    case skip
    then show ?thesis using IH [of ns seen] Cons.prems by auto
  next
    case mine
    then have "member_loop names me (seen @ [i]) ns ids = (seen', ns')"
      using Cons.prems(4) by (auto simp: Let_def)
    then show ?thesis using IH [of ns "seen @ [i]"] Cons.prems mine(1,2) by auto
  next
    case named
    have n: "member_name_of names me all_ids n"
      unfolding member_name_of_def
      using named(3,5) Cons.prems(6) resolve_person_name_Named [OF named(5)]
      by (intro bexI [of _ i]) auto
    have "member_loop names me (seen @ [i]) (ns @ [n]) ids = (seen', ns')"
      using Cons.prems(4) named by (simp add: Let_def)
    then show ?thesis
      using IH [of "ns @ [n]" "seen @ [i]"] Cons.prems named(1,2,4) n by auto
  next
    case unnamed
    then have "member_loop names me (seen @ [i]) ns ids = (seen', ns')"
      using Cons.prems(4) by (simp add: Let_def)
    then show ?thesis using IH [of ns "seen @ [i]"] Cons.prems unnamed(1,2) by auto
  qed
qed simp

lemma title_members:
  assumes "resolve_conversation_title input names = Members ns cnt"
  shows "ns \<noteq> [] \<and> length ns \<le> MAX_TITLE_MEMBER_NAMES \<and> length ns \<le> unat cnt \<and>
    ti_members_count input \<le> cnt \<and>
    list_all (member_name_of names (trim (ti_current_user_id input)) (map trim (ti_member_ids input))) ns"
proof -
  let ?loop = "member_loop names (trim (ti_current_user_id input)) [] [] (map trim (ti_member_ids input))"
  have not_person: "resolve_person_name u c t \<noteq> Members ns cnt" for u c t
    using resolve_person_name_cases [of u c t] by auto
  obtain seen where loop: "?loop = (seen, ns)" and ns: "ns \<noteq> []"
    and cnt: "cnt = max (ti_members_count input)
      (if length seen < 2 ^ 32 then of_nat (length seen) else - 1)"
    using assms not_person
    by (auto simp: resolve_conversation_title_def Let_def DisplayName_unnamed_def
        split: option.splits if_splits prod.splits)
  have correct: "length ns \<le> MAX_TITLE_MEMBER_NAMES" "length ns \<le> length seen"
    "list_all (member_name_of names (trim (ti_current_user_id input)) (map trim (ti_member_ids input))) ns"
    using member_loop_correct [OF _ _ _ loop, of "map trim (ti_member_ids input)"] by auto
  have "length ns \<le> unat cnt"
  proof (cases "length seen < 2 ^ 32")
    case True
    then have "unat (of_nat (length seen) :: u32) = length seen" by (simp add: unat_of_nat)
    then show ?thesis using correct(2) True by (simp add: cnt unat_max_word)
  next
    case False
    then have "cnt = - 1" by (simp add: cnt max_def)
    then show ?thesis
      using correct(1) by (simp add: unat_minus_one_word MAX_TITLE_MEMBER_NAMES_def)
  qed
  with correct ns show ?thesis by (simp add: cnt)
qed

lemma title_named:
  assumes "resolve_conversation_title input names = Named n src"
  shows "src = NsRemark \<and> is_real_name n [ti_channel_id input, ti_conversation_id input] \<or>
    ti_conversation_type input = CtSingle \<and>
      (\<exists>peer. single_chat_peer input = Some peer \<and> is_real_name n [peer]) \<or>
    src = NsName \<and> is_real_name n [ti_channel_id input, ti_conversation_id input]"
  using assms real_name_Some resolve_person_name_Named
  by (fastforce simp: resolve_conversation_title_def Let_def DisplayName_unnamed_def
      split: option.splits if_splits prod.splits)

lemma ConversationType_from_as_str: "ConversationType_from_str (ConversationType_as_str t) = t"
  by (cases t; hypsubst; code_simp)

section \<open>Properties\<close>

text \<open>Every conversation type is recovered from its wire name and from its id prefix, the policy
  table lists exactly the policy of each type in wire order, and the wire values are injective.\<close>

theorem conversation_type_round_trip:
  "ConversationType_from_str (ConversationType_as_str t) = t \<and>
   (case ConversationType_prefix t of
      None \<Rightarrow> t = CtUnspecified
    | Some p \<Rightarrow> ConversationType_from_prefix p = Some t) \<and>
   map ConversationType_policy CONVERSATION_TYPE_WIRE_ORDER = CONVERSATION_TYPE_POLICIES \<and>
   inj ConversationType_to_proto_int"
proof (intro conjI)
  show "ConversationType_from_str (ConversationType_as_str t) = t"
    by (rule ConversationType_from_as_str)
  show "case ConversationType_prefix t of None \<Rightarrow> t = CtUnspecified
    | Some p \<Rightarrow> ConversationType_from_prefix p = Some t"
    by (cases t) (simp_all add: ConversationType_prefix_def ConversationType_from_prefix_def
        CONVERSATION_TYPE_POLICIES_def)
  show "map ConversationType_policy CONVERSATION_TYPE_WIRE_ORDER = CONVERSATION_TYPE_POLICIES"
    by (simp add: CONVERSATION_TYPE_WIRE_ORDER_def CONVERSATION_TYPE_POLICIES_def)
  have "ConversationType_to_proto_int x = ConversationType_to_proto_int y \<Longrightarrow> x = y" for x y
    by (cases x; cases y) (simp_all add: ConversationType_to_proto_int_def)
  then show "inj ConversationType_to_proto_int" by (rule injI)
qed

text \<open>The name shown for an account is a real name (trimmed, not empty, never the account's own
  id), taken from the candidate its source tag names; a nickname is used only inside groups and
  channels; and the structured unnamed value appears exactly when no applicable candidate is a
  real name.\<close>

theorem person_name_sound:
  "case resolve_person_name u names t of
     Named n src \<Rightarrow>
       is_real_name n [u] \<and> n = trim (person_candidate names src) \<and>
       (case src of
          NsMemberNickname \<Rightarrow> (case t of Some ct \<Rightarrow> member_nicknames_apply ct | None \<Rightarrow> False)
        | _ \<Rightarrow> True)
   | Members _ _ \<Rightarrow> False
   | Unnamed e tail \<Rightarrow>
       e = EntPerson \<and> tail = id_tail u \<and>
       real_name (pn_alias names) [u] = None \<and> real_name (pn_profile_name names) [u] = None \<and>
       real_name (pn_snapshot names) [u] = None \<and>
       (if case t of Some ct \<Rightarrow> member_nicknames_apply ct | None \<Rightarrow> False
        then real_name (pn_member_nickname names) [u] = None else True)"
proof (cases "resolve_person_name u names t")
  case (Named n src)
  then show ?thesis
    using resolve_person_name_Named [OF Named] by (cases src) auto
next
  case (Members ns cnt)
  then show ?thesis using resolve_person_name_cases [of u names t] by simp
next
  case (Unnamed e tail)
  then have "e = EntPerson" "tail = id_tail u" "name_chain [u] (person_chain names t) = None"
    using resolve_person_name_cases [of u names t] by simp_all
  with Unnamed show ?thesis unfolding name_chain_None person_chain_def by auto
qed


end
