(* ===== verification/Conversation_Model.thy ===== *)
theory Conversation_Model
  imports Display_Name
begin

text \<open>
  The conversation of the local store (\<open>src/model/conversation.rs\<close>), its conversions from and to
  the protocol's summary, the settings keys kept in its \<open>ext\<close> map
  (\<open>src/model/conversation_user_settings.rs\<close>) and the local clear watermark
  (\<open>src/domain/conversation/local_clear.rs\<close>).

  The messages of the generated protocol crate appear as records of the fields that the
  conversions read and write. Hash maps are maps; the order of iteration is never observed.
\<close>

section \<open>Data\<close>

record MessagePreviewElem =
  mp_message_id :: string
  mp_sender_id :: string
  mp_type :: int
  mp_text :: string
  mp_time :: u64

record ProtoMessagePreview =
  pmp_message_id :: string
  pmp_sender_id :: string
  pmp_type :: int
  pmp_text :: string
  pmp_created_at :: i64

record ConversationParticipant =
  pa_user_id :: string
  pa_roles :: "string list"
  pa_muted :: bool
  pa_pinned :: bool
  pa_attributes :: "string \<rightharpoonup> string"
  pa_joined_at :: u64
  pa_nickname :: string
  pa_name :: DisplayName

record ProtoParticipant =
  ppa_user_id :: string
  ppa_roles :: "string list"
  ppa_muted :: bool
  ppa_pinned :: bool
  ppa_attributes :: "string \<rightharpoonup> string"
  ppa_joined_at :: i64
  ppa_visible_from_seq :: u64
  ppa_mention_only :: bool

record ConversationLocalState =
  ls_draft_cursor :: "u32 option"

record Conversation =
  cv_conversation_id :: string
  cv_conversation_type :: ConversationType
  cv_business_type :: string
  cv_channel_id :: string
  cv_members_count :: u32
  cv_display_name :: string
  cv_title :: DisplayName
  cv_avatar_url :: string
  cv_remark :: "string option"
  cv_description :: "string option"
  cv_last_message_id :: "string option"
  cv_last_sender_id :: "string option"
  cv_last_message_at :: "u64 option"
  cv_last_message_preview :: "string option"
  cv_last_message :: "MessagePreviewElem option"
  cv_last_sender_nickname :: string
  cv_last_sender :: "DisplayName option"
  cv_last_sender_avatar_url :: string
  cv_unread_count :: u32
  cv_last_read_seq :: u64
  cv_peer_read_seq :: u64
  cv_max_seq :: u64
  cv_visible_after_seq :: u64
  cv_is_pinned :: bool
  cv_is_muted :: bool
  cv_is_mention_only :: "bool option"
  cv_is_archived :: bool
  cv_version :: u64
  cv_updated_at :: u64
  cv_created_at :: u64
  cv_updated_at_ts :: "u64 option"
  cv_ext :: "string \<rightharpoonup> string"
  cv_participant_version :: u64
  cv_member_preview :: "ConversationParticipant list"
  cv_draft :: "string option"
  cv_mention_count :: u32
  cv_mention_me :: bool
  cv_badge :: "string option"
  cv_role :: "string option"
  cv_participants :: "ConversationParticipant list"
  cv_local_state :: ConversationLocalState

definition Conversation_default :: Conversation where
  "Conversation_default =
    \<lparr>cv_conversation_id = [], cv_conversation_type = CtUnspecified, cv_business_type = [],
     cv_channel_id = [], cv_members_count = 0, cv_display_name = [], cv_title = DisplayName_default,
     cv_avatar_url = [], cv_remark = None, cv_description = None, cv_last_message_id = None,
     cv_last_sender_id = None, cv_last_message_at = None, cv_last_message_preview = None,
     cv_last_message = None, cv_last_sender_nickname = [], cv_last_sender = None,
     cv_last_sender_avatar_url = [], cv_unread_count = 0, cv_last_read_seq = 0,
     cv_peer_read_seq = 0, cv_max_seq = 0, cv_visible_after_seq = 0, cv_is_pinned = False,
     cv_is_muted = False, cv_is_mention_only = None, cv_is_archived = False, cv_version = 0,
     cv_updated_at = 0, cv_created_at = 0, cv_updated_at_ts = None, cv_ext = Map.empty,
     cv_participant_version = 0, cv_member_preview = [], cv_draft = None, cv_mention_count = 0,
     cv_mention_me = False, cv_badge = None, cv_role = None, cv_participants = [],
     cv_local_state = \<lparr>ls_draft_cursor = None\<rparr>\<rparr>"

text \<open>The fields of the protocol's \<open>ConversationSummary\<close> that the conversions use.\<close>

record ConversationSummary =
  sm_conversation_id :: string
  sm_conversation_type :: string
  sm_channel_id :: string
  sm_display_name :: string
  sm_avatar_url :: string
  sm_unread_count :: u32
  sm_max_conversation_seq :: u64
  sm_visible_after_conversation_seq :: u64
  sm_last_read_seq :: u64
  sm_is_muted :: bool
  sm_is_mention_only :: "bool option"
  sm_is_pinned :: bool
  sm_is_archived :: bool
  sm_updated_at :: i64
  sm_created_at :: i64
  sm_member_count :: int
  sm_participant_version :: u64
  sm_member_preview :: "ProtoParticipant list"
  sm_draft :: string
  sm_last_message :: "ProtoMessagePreview option"
  sm_attributes :: "string \<rightharpoonup> string"
  sm_user_settings_version :: u64

section \<open>Settings and the clear watermark in \<open>ext\<close>\<close>

definition EXT_USER_SETTINGS_VERSION :: string where
  "EXT_USER_SETTINGS_VERSION = ''user_settings_version''"

definition EXT_SETTINGS_DIRTY :: string where
  "EXT_SETTINGS_DIRTY = ''settings_dirty''"

definition EXT_LOCAL_CLEARED_THROUGH_SEQ :: string where
  "EXT_LOCAL_CLEARED_THROUGH_SEQ = ''local_cleared_through_seq''"

definition user_settings_version :: "Conversation \<Rightarrow> u64" where
  "user_settings_version c =
     (case Option.bind (cv_ext c EXT_USER_SETTINGS_VERSION) parse_u64 of Some v \<Rightarrow> v | None \<Rightarrow> 0)"

definition is_settings_dirty :: "Conversation \<Rightarrow> bool" where
  "is_settings_dirty c =
     (case cv_ext c EXT_SETTINGS_DIRTY of
        Some v \<Rightarrow> v = ''1'' \<or> eq_ignore_ascii_case v ''true''
      | None \<Rightarrow> False)"

definition mark_settings_dirty :: "Conversation \<Rightarrow> Conversation" where
  "mark_settings_dirty c = c\<lparr>cv_ext := (cv_ext c)(EXT_SETTINGS_DIRTY \<mapsto> ''1'')\<rparr>"

definition apply_remote_settings_version :: "Conversation \<Rightarrow> u64 \<Rightarrow> Conversation" where
  "apply_remote_settings_version c version =
     c\<lparr>cv_ext := (cv_ext c)(EXT_USER_SETTINGS_VERSION \<mapsto> u64_to_string version,
                            EXT_SETTINGS_DIRTY \<mapsto> ''0'')\<rparr>"

definition local_cleared_through_seq :: "(string \<rightharpoonup> string) \<Rightarrow> u64" where
  "local_cleared_through_seq ext =
     (case Option.bind (ext EXT_LOCAL_CLEARED_THROUGH_SEQ) (\<lambda>v. parse_u64 (trim v)) of
        Some v \<Rightarrow> v
      | None \<Rightarrow> 0)"

definition sync_visibility_floor :: "Conversation \<Rightarrow> u64" where
  "sync_visibility_floor c = max (local_cleared_through_seq (cv_ext c)) (cv_visible_after_seq c)"

definition set_local_cleared_through_seq :: "(string \<rightharpoonup> string) \<Rightarrow> u64 \<Rightarrow> (string \<rightharpoonup> string)" where
  "set_local_cleared_through_seq ext seq =
     (if seq = 0 then ext(EXT_LOCAL_CLEARED_THROUGH_SEQ := None)
      else ext(EXT_LOCAL_CLEARED_THROUGH_SEQ \<mapsto> u64_to_string seq))"

text \<open>Both filters look only at a message's \<open>conversation_seq\<close>; \<open>seq_of\<close> reads it.\<close>

definition message_visible_after_clear :: "('m \<Rightarrow> u64) \<Rightarrow> 'm \<Rightarrow> u64 \<Rightarrow> bool" where
  "message_visible_after_clear seq_of message cleared_through_seq =
     (if cleared_through_seq = 0 then True
      else if seq_of message = 0 then True
      else seq_of message > cleared_through_seq)"

definition filter_messages_after_clear :: "('m \<Rightarrow> u64) \<Rightarrow> 'm list \<Rightarrow> u64 \<Rightarrow> 'm list" where
  "filter_messages_after_clear seq_of messages cleared_through_seq =
     (if cleared_through_seq = 0 then messages
      else filter (\<lambda>m. message_visible_after_clear seq_of m cleared_through_seq) messages)"

section \<open>Conversions\<close>

definition proto_ms_to_u64 :: "i64 \<Rightarrow> u64" where
  "proto_ms_to_u64 ms = (if ms > 0 then word_of_int ms else 0)"

definition u64_to_proto_ms :: "u64 \<Rightarrow> i64" where
  "u64_to_proto_ms ms = (if uint ms \<le> i64_max then uint ms else i64_max)"

definition message_preview_from_proto :: "ProtoMessagePreview \<Rightarrow> MessagePreviewElem" where
  "message_preview_from_proto p =
     \<lparr>mp_message_id = pmp_message_id p, mp_sender_id = pmp_sender_id p, mp_type = pmp_type p,
      mp_text = pmp_text p, mp_time = proto_ms_to_u64 (pmp_created_at p)\<rparr>"

definition message_preview_to_proto :: "MessagePreviewElem \<Rightarrow> ProtoMessagePreview" where
  "message_preview_to_proto e =
     \<lparr>pmp_message_id = mp_message_id e, pmp_sender_id = mp_sender_id e, pmp_type = mp_type e,
      pmp_text = mp_text e, pmp_created_at = u64_to_proto_ms (mp_time e)\<rparr>"

definition nickname_name :: "string \<Rightarrow> string \<Rightarrow> DisplayName" where
  "nickname_name user_id nickname =
     resolve_person_name user_id
       \<lparr>pn_alias = [], pn_member_nickname = nickname, pn_profile_name = [], pn_snapshot = []\<rparr>
       (Some CtGroup)"

definition participant_from_proto :: "ProtoParticipant \<Rightarrow> ConversationParticipant" where
  "participant_from_proto p =
     (let nickname = (case ppa_attributes p ''nickname'' of Some n \<Rightarrow> n | None \<Rightarrow> []) in
      \<lparr>pa_user_id = ppa_user_id p, pa_roles = ppa_roles p, pa_muted = ppa_muted p,
       pa_pinned = ppa_pinned p, pa_attributes = ppa_attributes p,
       pa_joined_at = proto_ms_to_u64 (ppa_joined_at p), pa_nickname = nickname,
       pa_name = nickname_name (ppa_user_id p) nickname\<rparr>)"

definition participant_to_proto :: "ConversationParticipant \<Rightarrow> ProtoParticipant" where
  "participant_to_proto p =
     (let attributes =
        (if pa_nickname p \<noteq> [] \<and> pa_attributes p ''nickname'' = None
         then (pa_attributes p)(''nickname'' \<mapsto> pa_nickname p) else pa_attributes p)
      in \<lparr>ppa_user_id = pa_user_id p, ppa_roles = pa_roles p, ppa_muted = pa_muted p,
          ppa_pinned = pa_pinned p, ppa_attributes = attributes,
          ppa_joined_at = u64_to_proto_ms (pa_joined_at p), ppa_visible_from_seq = 0,
          ppa_mention_only = False\<rparr>)"

definition from_conversation_id :: "string \<Rightarrow> Conversation" where
  "from_conversation_id i = Conversation_default\<lparr>cv_conversation_id := i\<rparr>"

definition normalize_channel_id_for_wire :: "Conversation \<Rightarrow> Conversation \<times> bool" where
  "normalize_channel_id_for_wire c =
     (if trim (cv_channel_id c) \<noteq> [] then (c, False)
      else
        let fallback = trim (cv_conversation_id c) in
        if fallback = [] then (c, False)
        else (c\<lparr>cv_channel_id := fallback\<rparr>, True))"

definition to_proto_summary :: "Conversation \<Rightarrow> ConversationSummary" where
  "to_proto_summary c =
     (let attributes = (cv_ext c)(''peer_read_seq'' \<mapsto> u64_to_string (cv_peer_read_seq c));
          attributes =
            (if trim (cv_business_type c) \<noteq> []
             then attributes(''business_type'' \<mapsto> cv_business_type c) else attributes)
      in \<lparr>sm_conversation_id = cv_conversation_id c,
          sm_conversation_type = ConversationType_as_str (cv_conversation_type c),
          sm_channel_id = cv_channel_id c, sm_display_name = cv_display_name c,
          sm_avatar_url = cv_avatar_url c, sm_unread_count = cv_unread_count c,
          sm_max_conversation_seq = cv_max_seq c,
          sm_visible_after_conversation_seq = cv_visible_after_seq c,
          sm_last_read_seq = cv_last_read_seq c, sm_is_muted = cv_is_muted c,
          sm_is_mention_only = cv_is_mention_only c, sm_is_pinned = cv_is_pinned c,
          sm_is_archived = cv_is_archived c, sm_updated_at = u64_to_proto_ms (cv_updated_at c),
          sm_created_at = u64_to_proto_ms (cv_created_at c),
          sm_member_count = sint (cv_members_count c),
          sm_participant_version = cv_participant_version c,
          sm_member_preview = map participant_to_proto (cv_member_preview c),
          sm_draft = (case cv_draft c of Some d \<Rightarrow> d | None \<Rightarrow> []),
          sm_last_message = map_option message_preview_to_proto (cv_last_message c),
          sm_attributes = attributes, sm_user_settings_version = 0\<rparr>)"

definition nonblank :: "string \<Rightarrow> string option" where
  "nonblank s = (if trim s = [] then None else Some s)"

definition summary_ext :: "ConversationSummary \<Rightarrow> u64 \<Rightarrow> (string \<rightharpoonup> string)" where
  "summary_ext s peer_read_seq =
     (let ext = (sm_attributes s)(''peer_read_seq'' \<mapsto> u64_to_string peer_read_seq);
          ext = set_local_cleared_through_seq ext (sm_visible_after_conversation_seq s);
          ext = (if sm_user_settings_version s > 0
                 then ext(EXT_USER_SETTINGS_VERSION \<mapsto> u64_to_string (sm_user_settings_version s))
                 else ext)
      in ext(EXT_SETTINGS_DIRTY \<mapsto> ''0''))"

definition Conversation_from_summary :: "ConversationSummary \<Rightarrow> Conversation" where
  "Conversation_from_summary s =
     (let last_message = map_option message_preview_from_proto (sm_last_message s);
          business_type = (case sm_attributes s ''business_type'' of Some b \<Rightarrow> b | None \<Rightarrow> []);
          peer = (case Option.bind (sm_attributes s ''peer_read_seq'') parse_u64 of
                    Some v \<Rightarrow> v | None \<Rightarrow> 0);
          peer_read_seq = (if peer \<le> sm_max_conversation_seq s then peer else 0);
          member_preview = map participant_from_proto (sm_member_preview s);
          visible_after_seq = sm_visible_after_conversation_seq s;
          unread_count =
            (if visible_after_seq > 0 \<and> sm_max_conversation_seq s \<le> visible_after_seq then 0
             else sm_unread_count s);
          last_read_seq = max (sm_last_read_seq s) visible_after_seq
      in Conversation_default
         \<lparr>cv_conversation_id := sm_conversation_id s,
          cv_conversation_type := ConversationType_from_str (sm_conversation_type s),
          cv_business_type := business_type, cv_channel_id := sm_channel_id s,
          cv_display_name := sm_display_name s, cv_avatar_url := sm_avatar_url s,
          cv_unread_count := unread_count, cv_max_seq := sm_max_conversation_seq s,
          cv_visible_after_seq := visible_after_seq, cv_last_read_seq := last_read_seq,
          cv_peer_read_seq := peer_read_seq,
          cv_last_message_id := Option.bind last_message (\<lambda>m. nonblank (mp_message_id m)),
          cv_last_sender_id := Option.bind last_message (\<lambda>m. nonblank (mp_sender_id m)),
          cv_last_message_at :=
            Option.bind last_message (\<lambda>m. if mp_time m > 0 then Some (mp_time m) else None),
          cv_last_message_preview := Option.bind last_message (\<lambda>m. nonblank (mp_text m)),
          cv_last_message := last_message,
          cv_updated_at := proto_ms_to_u64 (sm_updated_at s),
          cv_created_at := proto_ms_to_u64 (sm_created_at s),
          cv_is_pinned := sm_is_pinned s, cv_is_muted := sm_is_muted s,
          cv_is_mention_only := sm_is_mention_only s, cv_is_archived := sm_is_archived s,
          cv_members_count :=
            max (word_of_int (max (sm_member_count s) 0)) (of_nat (length member_preview)),
          cv_participant_version := sm_participant_version s,
          cv_member_preview := member_preview,
          cv_draft := nonblank (sm_draft s),
          cv_ext := summary_ext s peer_read_seq\<rparr>)"

section \<open>Names shown by a conversation\<close>

definition group_is_titled_by_members :: "Conversation \<Rightarrow> bool" where
  "group_is_titled_by_members c =
     (let own = [cv_channel_id c, cv_conversation_id c] in
      real_name (case cv_remark c of Some r \<Rightarrow> r | None \<Rightarrow> []) own = None \<and>
      real_name (cv_display_name c) own = None)"

definition conversation_shows_person :: "Conversation \<Rightarrow> string \<Rightarrow> bool" where
  "conversation_shows_person c user_id =
     (let user_id = trim user_id in
      if user_id = [] then False
      else if cv_conversation_type c = CtSingle \<and> trim (cv_channel_id c) = user_id then True
      else if (case cv_last_sender_id c of Some sender \<Rightarrow> trim sender = user_id | None \<Rightarrow> False)
      then True
      else cv_conversation_type c = CtGroup \<and> group_is_titled_by_members c \<and>
        list_ex (\<lambda>member. trim (pa_user_id member) = user_id) (cv_member_preview c))"

definition stored_name_is_an_id :: "Conversation \<Rightarrow> bool" where
  "stored_name_is_an_id c \<longleftrightarrow>
     trim (cv_display_name c) \<noteq> [] \<and>
     real_name (cv_display_name c) [cv_channel_id c, cv_conversation_id c] = None"

section \<open>Lemmas\<close>

named_theorems ext_simps \<open>keys of the \<open>ext\<close> map\<close>

lemma ext_keys_distinct [ext_simps]:
  "EXT_USER_SETTINGS_VERSION \<noteq> EXT_SETTINGS_DIRTY" "EXT_SETTINGS_DIRTY \<noteq> EXT_USER_SETTINGS_VERSION"
  "EXT_USER_SETTINGS_VERSION \<noteq> EXT_LOCAL_CLEARED_THROUGH_SEQ"
  "EXT_LOCAL_CLEARED_THROUGH_SEQ \<noteq> EXT_USER_SETTINGS_VERSION"
  "EXT_SETTINGS_DIRTY \<noteq> EXT_LOCAL_CLEARED_THROUGH_SEQ"
  "EXT_LOCAL_CLEARED_THROUGH_SEQ \<noteq> EXT_SETTINGS_DIRTY"
  "EXT_SETTINGS_DIRTY \<noteq> ''peer_read_seq''" "EXT_LOCAL_CLEARED_THROUGH_SEQ \<noteq> ''peer_read_seq''"
  "EXT_USER_SETTINGS_VERSION \<noteq> ''peer_read_seq''"
  "EXT_SETTINGS_DIRTY \<noteq> ''business_type''" "EXT_LOCAL_CLEARED_THROUGH_SEQ \<noteq> ''business_type''"
  by (simp_all add: EXT_USER_SETTINGS_VERSION_def EXT_SETTINGS_DIRTY_def
      EXT_LOCAL_CLEARED_THROUGH_SEQ_def)

lemmas ext_keys_sym [ext_simps] = ext_keys_distinct [THEN not_sym]

lemma local_cleared_set [ext_simps]:
  "local_cleared_through_seq (set_local_cleared_through_seq ext seq) = seq"
  by (simp add: local_cleared_through_seq_def set_local_cleared_through_seq_def text_simps)

lemma local_cleared_upd [ext_simps]:
  "k \<noteq> EXT_LOCAL_CLEARED_THROUGH_SEQ \<Longrightarrow>
     local_cleared_through_seq (ext(k := v)) = local_cleared_through_seq ext"
  by (simp add: local_cleared_through_seq_def)

lemma set_local_cleared_other [ext_simps]:
  "k \<noteq> EXT_LOCAL_CLEARED_THROUGH_SEQ \<Longrightarrow> set_local_cleared_through_seq ext seq k = ext k"
  by (simp add: set_local_cleared_through_seq_def)

lemma settings_after_remote:
  "user_settings_version (apply_remote_settings_version c v) = v"
  "\<not> is_settings_dirty (apply_remote_settings_version c v)"
  "is_settings_dirty (mark_settings_dirty c)"
  by (simp_all add: user_settings_version_def apply_remote_settings_version_def text_simps
      ext_simps is_settings_dirty_def mark_settings_dirty_def eq_ignore_ascii_case_def
      to_ascii_lowercase_def)

lemma filter_messages_after_clear_iff:
  "m \<in> set (filter_messages_after_clear seq_of ms floor) \<longleftrightarrow>
     m \<in> set ms \<and> (seq_of m = 0 \<or> seq_of m > floor)"
  by (auto simp: filter_messages_after_clear_def message_visible_after_clear_def word_gt_0)

lemma u64_ms_round_trip:
  assumes "uint ms \<le> i64_max"
  shows "proto_ms_to_u64 (u64_to_proto_ms ms) = ms"
proof -
  have "0 < uint ms \<or> ms = 0" by (metis order_le_less uint_0_iff uint_ge_0)
  then show ?thesis using assms by (auto simp: proto_ms_to_u64_def u64_to_proto_ms_def)
qed

lemma message_preview_round_trip:
  "uint (mp_time m) \<le> i64_max \<Longrightarrow> message_preview_from_proto (message_preview_to_proto m) = m"
  by (simp add: message_preview_from_proto_def message_preview_to_proto_def u64_ms_round_trip)

text \<open>What a conversation built from a summary satisfies.\<close>

definition summary_bounds_ok :: "Conversation \<Rightarrow> bool" where
  "summary_bounds_ok c \<longleftrightarrow>
     cv_visible_after_seq c \<le> cv_last_read_seq c \<and> cv_peer_read_seq c \<le> cv_max_seq c \<and>
     local_cleared_through_seq (cv_ext c) = cv_visible_after_seq c \<and>
     cv_ext c ''peer_read_seq'' = Some (u64_to_string (cv_peer_read_seq c)) \<and>
     \<not> is_settings_dirty c"

lemma Conversation_from_summary_bounds: "summary_bounds_ok (Conversation_from_summary s)"
  by (auto simp: summary_bounds_ok_def Conversation_from_summary_def Let_def summary_ext_def
      ext_simps is_settings_dirty_def eq_ignore_ascii_case_def to_ascii_lowercase_def)

text \<open>A conversation that the summary can carry: times fit \<open>i64\<close>, the read marks respect the
  visibility floor, and the optional texts are not blank.\<close>

definition summary_representable :: "Conversation \<Rightarrow> bool" where
  "summary_representable c \<longleftrightarrow>
     uint (cv_updated_at c) \<le> i64_max \<and> uint (cv_created_at c) \<le> i64_max \<and>
     (case cv_last_message c of Some m \<Rightarrow> uint (mp_time m) \<le> i64_max | None \<Rightarrow> True) \<and>
     cv_peer_read_seq c \<le> cv_max_seq c \<and> cv_visible_after_seq c \<le> cv_last_read_seq c \<and>
     (if 0 < cv_visible_after_seq c \<and> cv_max_seq c \<le> cv_visible_after_seq c
      then cv_unread_count c = 0 else True) \<and>
     (case cv_draft c of Some d \<Rightarrow> trim d \<noteq> [] | None \<Rightarrow> True) \<and> trim (cv_business_type c) \<noteq> []"

lemma round_trip_last_message:
  "summary_representable c \<Longrightarrow>
     map_option message_preview_from_proto (map_option message_preview_to_proto (cv_last_message c))
       = cv_last_message c"
  by (cases "cv_last_message c") (auto simp: summary_representable_def message_preview_round_trip)

lemma round_trip_draft:
  "summary_representable c \<Longrightarrow> nonblank (case cv_draft c of Some d \<Rightarrow> d | None \<Rightarrow> []) = cv_draft c"
  by (cases "cv_draft c") (auto simp: summary_representable_def nonblank_def)

lemma Conversation_round_trip_fields:
  assumes "summary_representable c"
  defines "d \<equiv> Conversation_from_summary (to_proto_summary c)"
  shows "cv_conversation_id d = cv_conversation_id c \<and> cv_conversation_type d = cv_conversation_type c \<and>
    cv_business_type d = cv_business_type c \<and> cv_channel_id d = cv_channel_id c \<and>
    cv_display_name d = cv_display_name c \<and> cv_last_message d = cv_last_message c \<and>
    cv_unread_count d = cv_unread_count c \<and> cv_last_read_seq d = cv_last_read_seq c \<and>
    cv_peer_read_seq d = cv_peer_read_seq c \<and> cv_max_seq d = cv_max_seq c \<and>
    cv_visible_after_seq d = cv_visible_after_seq c \<and> cv_updated_at d = cv_updated_at c \<and>
    cv_created_at d = cv_created_at c \<and> cv_draft d = cv_draft c \<and>
    cv_is_pinned d = cv_is_pinned c \<and> cv_is_muted d = cv_is_muted c \<and>
    cv_is_archived d = cv_is_archived c \<and> cv_is_mention_only d = cv_is_mention_only c"
  unfolding d_def
  using assms(1) round_trip_last_message [OF assms(1)] round_trip_draft [OF assms(1)]
  by (simp add: Conversation_from_summary_def to_proto_summary_def Let_def text_simps
      ConversationType_from_as_str u64_ms_round_trip summary_representable_def max_absorb1 split: if_splits)

section \<open>Properties\<close>

text \<open>Whatever summary the server sends, the conversation built from it never has its read
  mark below the visibility floor nor a peer read mark beyond the newest message, keeps the floor
  in its \<open>ext\<close> map as the local clear watermark, stores the sanitised peer read mark there, and is
  not marked as locally edited.\<close>

theorem summary_conversion_bounds:
  "let c = Conversation_from_summary s in
     cv_visible_after_seq c \<le> cv_last_read_seq c \<and> cv_peer_read_seq c \<le> cv_max_seq c \<and>
     sync_visibility_floor c = sm_visible_after_conversation_seq s \<and>
     cv_ext c ''peer_read_seq'' = Some (u64_to_string (cv_peer_read_seq c)) \<and>
     \<not> is_settings_dirty c"
  using Conversation_from_summary_bounds [of s]
  by (simp add: summary_bounds_ok_def sync_visibility_floor_def Let_def)
    (simp add: Conversation_from_summary_def Let_def)

text \<open>C29. Converting a conversation to the protocol's summary and back returns its identity, read
  marks, settings, times, draft and last message, when the summary can carry them.\<close>

theorem summary_round_trip:
  assumes "summary_representable c" "d = Conversation_from_summary (to_proto_summary c)"
  shows "cv_conversation_id d = cv_conversation_id c \<and> cv_conversation_type d = cv_conversation_type c \<and>
    cv_business_type d = cv_business_type c \<and> cv_channel_id d = cv_channel_id c \<and>
    cv_display_name d = cv_display_name c \<and> cv_last_message d = cv_last_message c \<and>
    cv_unread_count d = cv_unread_count c \<and> cv_last_read_seq d = cv_last_read_seq c \<and>
    cv_peer_read_seq d = cv_peer_read_seq c \<and> cv_max_seq d = cv_max_seq c \<and>
    cv_visible_after_seq d = cv_visible_after_seq c \<and> cv_updated_at d = cv_updated_at c \<and>
    cv_created_at d = cv_created_at c \<and> cv_draft d = cv_draft c \<and>
    cv_is_pinned d = cv_is_pinned c \<and> cv_is_muted d = cv_is_muted c \<and>
    cv_is_archived d = cv_is_archived c \<and> cv_is_mention_only d = cv_is_mention_only c"
  unfolding assms(2) by (rule Conversation_round_trip_fields [OF assms(1)])

theorem summary_round_trip_witness:
  "cv_peer_read_seq (Conversation_from_summary (to_proto_summary
     (Conversation_default\<lparr>cv_business_type := ''single'', cv_conversation_type := CtSingle,
        cv_max_seq := 9, cv_peer_read_seq := 7, cv_draft := Some ''hi''\<rparr>))) = 7"
proof -
  let ?c = "Conversation_default\<lparr>cv_business_type := ''single'', cv_conversation_type := CtSingle,
        cv_max_seq := 9, cv_peer_read_seq := 7, cv_draft := Some ''hi''\<rparr>"
  have "trim ''hi'' \<noteq> []" "trim ''single'' \<noteq> []" by code_simp+
  then have "summary_representable ?c"
    by (simp add: summary_representable_def Conversation_default_def i64_max_def)
  from summary_round_trip [OF this refl] show ?thesis by simp
qed

end
