(* ===== verification/Conversation_Identity.thy ===== *)
theory Conversation_Identity
  imports Conversation_Model
begin

text \<open>
  Conversation ids and the repair of single chats
  (\<open>src/domain/conversation/identity.rs\<close>). The id scheme itself lives in the crate
  \<open>flare_core\<close>; its functions are the fields of \<open>cid_ops\<close>, a parameter of every operation that
  calls them.
\<close>

section \<open>Definitions\<close>

text \<open>The five messages of the \<open>InvalidParameter\<close> errors.\<close>

datatype IdentityError =
    CurrentUserEmpty | SourceEmpty | UnsupportedType | GeneratedEmpty | GeneratedInvalid string

record ConversationIdRewrite =
  rw_from :: string
  rw_to :: string

text \<open>\<open>flare_core::common::conversation\<close>: generators, the type test and the validator, whose
  error is carried as text.\<close>

record cid_ops =
  cid_single :: "string \<Rightarrow> string \<Rightarrow> string"
  cid_group :: "string \<Rightarrow> string"
  cid_ai :: "string \<Rightarrow> string \<Rightarrow> string"
  cid_customer :: "string \<Rightarrow> string \<Rightarrow> string"
  cid_system :: "string \<Rightarrow> string"
  cid_temp :: string
  cid_channel :: "string \<Rightarrow> string"
  cid_broadcast :: "string \<Rightarrow> string"
  cid_is_group_chat :: "string \<Rightarrow> bool"
  cid_validate :: "string \<Rightarrow> string option"

definition requires_current_user :: "ConversationType \<Rightarrow> bool" where
  "requires_current_user t \<longleftrightarrow> t = CtSingle \<or> t = CtAi \<or> t = CtCustomer"

definition requires_source_id :: "ConversationType \<Rightarrow> bool" where
  "requires_source_id t \<longleftrightarrow> t \<noteq> CtTemp"

definition generate_id :: "cid_ops \<Rightarrow> string \<Rightarrow> string \<Rightarrow> ConversationType \<Rightarrow> string option" where
  "generate_id ops current_user_id source_id t =
     (case t of
        CtSingle \<Rightarrow> Some (cid_single ops current_user_id source_id)
      | CtGroup \<Rightarrow> Some (cid_group ops source_id)
      | CtAi \<Rightarrow> Some (cid_ai ops current_user_id source_id)
      | CtCustomer \<Rightarrow> Some (cid_customer ops current_user_id source_id)
      | CtSystem \<Rightarrow> Some (cid_system ops source_id)
      | CtTemp \<Rightarrow> Some (cid_temp ops)
      | CtChannel \<Rightarrow> Some (cid_channel ops source_id)
      | CtBroadcast \<Rightarrow> Some (cid_broadcast ops source_id)
      | CtUnspecified \<Rightarrow> None)"

definition resolve_conversation_id ::
  "cid_ops \<Rightarrow> string \<Rightarrow> string \<Rightarrow> ConversationType \<Rightarrow> IdentityError + string" where
  "resolve_conversation_id ops current_user_id0 source_id0 t =
     (let current_user_id = trim current_user_id0; source_id = trim source_id0 in
      if requires_current_user t \<and> current_user_id = [] then Inl CurrentUserEmpty
      else if requires_source_id t \<and> source_id = [] then Inl SourceEmpty
      else
        (case generate_id ops current_user_id source_id t of
           None \<Rightarrow> Inl UnsupportedType
         | Some conversation_id \<Rightarrow>
             if trim conversation_id = [] then Inl GeneratedEmpty
             else
               (case cid_validate ops conversation_id of
                  Some error \<Rightarrow> Inl (GeneratedInvalid error)
                | None \<Rightarrow> Inr conversation_id)))"

definition starts_with :: "string \<Rightarrow> string \<Rightarrow> bool" where
  "starts_with s p \<longleftrightarrow> prefix p s"

definition is_reserved_sync_inbox :: "string \<Rightarrow> bool" where
  "is_reserved_sync_inbox conversation_id \<longleftrightarrow> starts_with (trim conversation_id) ''sync:''"

definition single_chat_peer_from_parts :: "string \<Rightarrow> string \<Rightarrow> string \<Rightarrow> string \<Rightarrow> string option" where
  "single_chat_peer_from_parts current_user_id channel_id sender_id fallback =
     find (\<lambda>candidate. candidate \<noteq> [] \<and> candidate \<noteq> current_user_id)
       (map trim [channel_id, sender_id, fallback])"

definition single_chat_peer_from_members :: "string \<Rightarrow> Conversation \<Rightarrow> string option" where
  "single_chat_peer_from_members current_user_id c =
     find (\<lambda>user_id. user_id \<noteq> [] \<and> user_id \<noteq> current_user_id)
       (map (\<lambda>member. trim (pa_user_id member)) (cv_member_preview c @ cv_participants c))"

definition usable_peer :: "string \<Rightarrow> string option \<Rightarrow> string option" where
  "usable_peer me p =
     (case map_option trim p of
        Some q \<Rightarrow> if q \<noteq> [] \<and> q \<noteq> me then Some q else None
      | None \<Rightarrow> None)"

definition repair_single_chat_channel ::
  "Conversation \<Rightarrow> string \<Rightarrow> string option \<Rightarrow> Conversation \<times> bool" where
  "repair_single_chat_channel c current_user_id peer_hint =
     (if \<not> ConversationType_is_single (cv_conversation_type c) \<or>
         is_reserved_sync_inbox (cv_conversation_id c)
      then (c, False)
      else
        let me = trim current_user_id in
        if me = [] then (c, False)
        else
          (case usable_peer me peer_hint of
             Some peer \<Rightarrow>
               if cv_channel_id c \<noteq> peer then (c\<lparr>cv_channel_id := peer\<rparr>, True) else (c, False)
           | None \<Rightarrow>
               let ch = trim (cv_channel_id c) in
               if ch \<noteq> [] \<and> ch \<noteq> me then (c, False)
               else
                 (case usable_peer me (cv_last_sender_id c) of
                    Some sender \<Rightarrow> (c\<lparr>cv_channel_id := sender\<rparr>, True)
                  | None \<Rightarrow> (c, False))))"

text \<open>The peer of a conversation: from its channel and last sender, else from its members.\<close>

definition conversation_peer :: "string \<Rightarrow> Conversation \<Rightarrow> string option" where
  "conversation_peer me c =
     (case single_chat_peer_from_parts me (cv_channel_id c)
             (case cv_last_sender_id c of Some s \<Rightarrow> s | None \<Rightarrow> []) [] of
        Some p \<Rightarrow> Some p
      | None \<Rightarrow> single_chat_peer_from_members me c)"

definition canonicalize_single_chat_conversation ::
  "cid_ops \<Rightarrow> Conversation \<Rightarrow> string \<Rightarrow> Conversation \<times> ConversationIdRewrite option" where
  "canonicalize_single_chat_conversation ops c current_user_id =
     (if \<not> ConversationType_is_single (cv_conversation_type c) then (c, None)
      else if cid_is_group_chat ops (cv_conversation_id c) \<or>
              is_reserved_sync_inbox (cv_conversation_id c) then (c, None)
      else
        let me = trim current_user_id in
        if me = [] then (c, None)
        else
          case conversation_peer me c of
            None \<Rightarrow> (c, None)
          | Some peer \<Rightarrow>
              let canonical = cid_single ops me peer;
                  old = trim (cv_conversation_id c);
                  c' = c\<lparr>cv_channel_id := peer, cv_conversation_id := canonical\<rparr>
              in if old = [] \<or> old = canonical then (c', None)
                 else (c', Some \<lparr>rw_from = old, rw_to = canonical\<rparr>))"

text \<open>The fields of a message that the repair reads and writes.\<close>

record message_identity =
  mi_conversation_id :: string
  mi_conversation_type :: int
  mi_channel_id :: string
  mi_sender_id :: string

definition canonicalize_single_chat_message ::
  "cid_ops \<Rightarrow> (int \<Rightarrow> ProtoConversationType option) \<Rightarrow> message_identity \<Rightarrow> string
   \<Rightarrow> message_identity \<times> ConversationIdRewrite option" where
  "canonicalize_single_chat_message ops try_from m current_user_id =
     (if \<not> ConversationType_is_single (ConversationType_from_proto_int try_from (mi_conversation_type m))
      then (m, None)
      else if cid_is_group_chat ops (mi_conversation_id m) \<or>
              is_reserved_sync_inbox (mi_conversation_id m) then (m, None)
      else
        let me = trim current_user_id in
        if me = [] then (m, None)
        else
          (case single_chat_peer_from_parts me (mi_channel_id m) (mi_sender_id m) [] of
             None \<Rightarrow> (m, None)
           | Some peer \<Rightarrow>
               let canonical = cid_single ops me peer;
                   old = trim (mi_conversation_id m);
                   m' = m\<lparr>mi_channel_id := peer, mi_conversation_id := canonical\<rparr>
               in if old = [] \<or> old = canonical then (m', None)
                  else (m', Some \<lparr>rw_from = old, rw_to = canonical\<rparr>)))"

definition merge_or_create ::
  "Conversation option \<Rightarrow> string \<Rightarrow> string \<Rightarrow> string \<Rightarrow> ConversationType \<Rightarrow> Conversation \<times> bool" where
  "merge_or_create existing conversation_id current_user_id source_id t =
     (case existing of
        Some c \<Rightarrow>
          let (c, needs_persist) =
                (if cv_channel_id c = [] then (c\<lparr>cv_channel_id := source_id\<rparr>, True) else (c, False));
              (c, repaired) = repair_single_chat_channel c current_user_id (Some source_id)
          in (c, repaired \<or> needs_persist)
      | None \<Rightarrow>
          ((from_conversation_id conversation_id)
             \<lparr>cv_conversation_type := t, cv_channel_id := source_id,
              cv_business_type := ConversationType_as_str t\<rparr>, True))"

definition build_local_conversation ::
  "string \<Rightarrow> string option \<Rightarrow> ConversationType \<Rightarrow> string \<Rightarrow> string \<Rightarrow> Conversation" where
  "build_local_conversation conversation_id display_name t business_type channel_id =
     (from_conversation_id conversation_id)
       \<lparr>cv_conversation_type := t, cv_business_type := business_type,
        cv_display_name :=
          business_name (case display_name of Some d \<Rightarrow> d | None \<Rightarrow> []) [channel_id, conversation_id],
        cv_channel_id := channel_id\<rparr>"

section \<open>Lemmas\<close>

lemma peer_from_parts_Some:
  "single_chat_peer_from_parts me ch sender fb = Some p \<Longrightarrow> p \<noteq> [] \<and> p \<noteq> me \<and> trim p = p"
  by (auto simp: single_chat_peer_from_parts_def text_simps split: if_splits)

lemma peer_from_members_Some:
  "single_chat_peer_from_members me c = Some p \<Longrightarrow> p \<noteq> [] \<and> p \<noteq> me \<and> trim p = p"
  unfolding single_chat_peer_from_members_def find_Some_iff
  by (auto simp: text_simps) (metis (no_types, lifting) comp_apply length_map nth_map text_simps(1) length_append map_append)+

lemma peer_from_parts_channel:
  "p \<noteq> [] \<Longrightarrow> p \<noteq> me \<Longrightarrow> trim p = p \<Longrightarrow> single_chat_peer_from_parts me p sender fb = Some p"
  by (simp add: single_chat_peer_from_parts_def)

lemma usable_peer_Some: "usable_peer me p = Some q \<Longrightarrow> q \<noteq> [] \<and> q \<noteq> me \<and> trim q = q"
  by (cases p) (auto simp: usable_peer_def text_simps split: if_splits)

lemma repair_channel_not_self:
  assumes "repair_single_chat_channel c u hint = (c', True)"
  shows "\<exists>p. c' = c\<lparr>cv_channel_id := p\<rparr> \<and> p \<noteq> [] \<and> p \<noteq> trim u \<and> trim p = p"
  using assms usable_peer_Some
  by (fastforce simp: repair_single_chat_channel_def Let_def split: if_splits option.splits)

lemma conversation_peer_Some:
  "conversation_peer me c = Some p \<Longrightarrow> p \<noteq> [] \<and> p \<noteq> me \<and> trim p = p"
  using peer_from_parts_Some peer_from_members_Some
  by (simp add: conversation_peer_def split: option.splits)

lemma canonicalize_cases:
  assumes "canonicalize_single_chat_conversation ops c u = (c', rw)"
  shows "c' = c \<and> rw = None \<or>
    (\<exists>p. p \<noteq> [] \<and> p \<noteq> trim u \<and> trim p = p \<and> trim u \<noteq> [] \<and> ConversationType_is_single (cv_conversation_type c) \<and>
       \<not> cid_is_group_chat ops (cv_conversation_id c) \<and> \<not> is_reserved_sync_inbox (cv_conversation_id c) \<and>
       c' = c\<lparr>cv_channel_id := p, cv_conversation_id := cid_single ops (trim u) p\<rparr> \<and>
       (rw = None \<or> rw = Some \<lparr>rw_from = trim (cv_conversation_id c),
                                   rw_to = cid_single ops (trim u) p\<rparr>))"
proof (cases "ConversationType_is_single (cv_conversation_type c) \<and> trim u \<noteq> [] \<and>
    \<not> cid_is_group_chat ops (cv_conversation_id c) \<and>
    \<not> is_reserved_sync_inbox (cv_conversation_id c) \<and> conversation_peer (trim u) c \<noteq> None")
  case True
  then obtain p where "conversation_peer (trim u) c = Some p" by blast
  with True show ?thesis
    using assms conversation_peer_Some [of "trim u" c p]
    by (simp add: canonicalize_single_chat_conversation_def Let_def split: if_splits) blast+
next
  case False
  then have "canonicalize_single_chat_conversation ops c u = (c, None)"
    by (auto simp: canonicalize_single_chat_conversation_def Let_def)
  with assms show ?thesis by simp
qed

text \<open>What the id scheme guarantees of a generated single-chat id: it is not a group id, not an
  inbox route, and has no surrounding white space.\<close>

definition single_ids_ok :: "cid_ops \<Rightarrow> bool" where
  "single_ids_ok ops \<longleftrightarrow>
     (\<forall>a b. \<not> cid_is_group_chat ops (cid_single ops a b) \<and>
            \<not> is_reserved_sync_inbox (cid_single ops a b) \<and>
            trim (cid_single ops a b) = cid_single ops a b)"

lemma canonicalize_again:
  assumes "single_ids_ok ops" "canonicalize_single_chat_conversation ops c u = (c', rw)" "c' \<noteq> c"
  shows "canonicalize_single_chat_conversation ops c' u = (c', None)"
proof -
  obtain p where p: "p \<noteq> []" "p \<noteq> trim u" "trim p = p" "trim u \<noteq> []"
    "ConversationType_is_single (cv_conversation_type c)"
    "c' = c\<lparr>cv_channel_id := p, cv_conversation_id := cid_single ops (trim u) p\<rparr>"
    using canonicalize_cases [OF assms(2)] assms(3) by blast
  have "conversation_peer (trim u) c' = Some p"
    using p by (simp add: conversation_peer_def peer_from_parts_channel)
  then show ?thesis
    using p assms(1) by (simp add: canonicalize_single_chat_conversation_def Let_def single_ids_ok_def)
qed

section \<open>Properties\<close>




end
