(* ===== verification/Read_Position.thy ===== *)
theory Read_Position
  imports Conversation_Model
begin

text \<open>
  Read marks and unread counts: \<open>src/domain/conversation/read_position.rs\<close>, \<open>read.rs\<close> and
  \<open>unread_total.rs\<close>. Sequence numbers are 64-bit and unread counts 32-bit words; the casts of the
  source (\<open>as u32\<close>, \<open>as u64\<close>) are the truncating and zero-extending casts.
\<close>

section \<open>Definitions\<close>

record ReadPosition =
  rp_max_seq :: u64
  rp_last_read_seq :: u64
  rp_unread_count :: u32

definition ReadPosition_from_parts :: "u64 \<Rightarrow> u64 \<Rightarrow> u32 \<Rightarrow> ReadPosition" where
  "ReadPosition_from_parts max_seq last_read_seq unread_count =
     \<lparr>rp_max_seq = max_seq, rp_last_read_seq = last_read_seq, rp_unread_count = unread_count\<rparr>"

definition ReadPosition_default :: ReadPosition where
  "ReadPosition_default = ReadPosition_from_parts 0 0 0"

definition ReadPosition_from_conversation :: "Conversation \<Rightarrow> ReadPosition" where
  "ReadPosition_from_conversation c =
     ReadPosition_from_parts (cv_max_seq c) (cv_last_read_seq c) (cv_unread_count c)"

definition normalize_for_unread_delta :: "ReadPosition \<Rightarrow> ReadPosition" where
  "normalize_for_unread_delta pos =
     (if rp_max_seq pos > 0 \<and> rp_last_read_seq pos = 0 \<and> rp_unread_count pos > 0 \<and>
         ucast (rp_unread_count pos) < rp_max_seq pos
      then pos\<lparr>rp_last_read_seq := sat_sub (rp_max_seq pos) (ucast (rp_unread_count pos))\<rparr>
      else pos)"

definition normalize_local :: "ReadPosition \<Rightarrow> ReadPosition" where
  "normalize_local pos =
     (let pos =
        (if rp_max_seq pos > 0 \<and> rp_last_read_seq pos = 0 \<and> rp_unread_count pos > 0 \<and>
            ucast (rp_unread_count pos) < rp_max_seq pos
         then pos\<lparr>rp_last_read_seq := sat_sub (rp_max_seq pos) (ucast (rp_unread_count pos))\<rparr>
         else pos)
      in if rp_max_seq pos > 0 \<and> rp_unread_count pos = 0 \<and> rp_last_read_seq pos < rp_max_seq pos
         then pos\<lparr>rp_last_read_seq := rp_max_seq pos\<rparr> else pos)"

definition is_established :: "ReadPosition \<Rightarrow> bool" where
  "is_established pos \<longleftrightarrow> rp_max_seq pos > 0 \<and> rp_last_read_seq pos \<ge> sat_sub (rp_max_seq pos) 1"

definition unread_upper_bound :: "ReadPosition \<Rightarrow> u32" where
  "unread_upper_bound pos = ucast (sat_sub (rp_max_seq pos) (rp_last_read_seq pos))"

definition read_covers_tail :: "ReadPosition \<Rightarrow> bool" where
  "read_covers_tail pos \<longleftrightarrow>
     rp_last_read_seq pos \<ge> sat_sub (rp_max_seq pos) (ucast (rp_unread_count pos))"

definition ack_read_seq :: "ReadPosition \<Rightarrow> u64 option" where
  "ack_read_seq self =
     (let pos = normalize_local self;
          seq = (if rp_unread_count pos = 0 \<and> rp_max_seq pos > rp_last_read_seq pos
                 then rp_max_seq pos else rp_last_read_seq pos)
      in if seq > 0 then Some seq else None)"

definition merge_with_incoming_summary :: "ReadPosition \<Rightarrow> ReadPosition \<Rightarrow> ReadPosition" where
  "merge_with_incoming_summary local0 incoming0 =
     (let local = normalize_for_unread_delta local0;
          incoming = normalize_for_unread_delta incoming0;
          merged_max = max (rp_max_seq incoming) (rp_max_seq local);
          last_read = max (rp_last_read_seq incoming) (rp_last_read_seq local);
          upper = (ucast (sat_sub merged_max last_read) :: u32);
          unread = (if rp_max_seq incoming \<le> rp_max_seq local
                    then min (rp_unread_count local) upper
                    else min (rp_unread_count incoming) upper)
      in if rp_max_seq local > 0 \<and> rp_last_read_seq local \<ge> merged_max \<and> merged_max > 0
         then \<lparr>rp_max_seq = merged_max, rp_last_read_seq = max (rp_last_read_seq local) last_read,
               rp_unread_count = 0\<rparr>
         else \<lparr>rp_max_seq = merged_max, rp_last_read_seq = last_read, rp_unread_count = unread\<rparr>)"

definition skip_recompute_after_summary_sync :: "ReadPosition \<Rightarrow> u64 \<Rightarrow> bool" where
  "skip_recompute_after_summary_sync self incoming_max_seq =
     (let local = normalize_local self in
      if rp_max_seq local = 0 \<or> incoming_max_seq > rp_max_seq local then False
      else rp_unread_count local \<le> 1 \<or> read_covers_tail local \<or> is_established local)"

definition should_recompute_unread_after_message :: "ReadPosition \<Rightarrow> u64 \<Rightarrow> bool \<Rightarrow> bool" where
  "should_recompute_unread_after_message self peer_message_seq is_from_peer =
     (if \<not> is_from_peer then False
      else peer_message_seq > rp_max_seq self \<or>
           (is_established self \<and> peer_message_seq > rp_last_read_seq self))"

record ConversationReadDecision =
  rd_unread_count :: u32
  rd_next_read_seq :: u64
  rd_should_recompute_local_unread :: bool

definition plan_mark_read :: "Conversation \<Rightarrow> u64 \<Rightarrow> u64 \<Rightarrow> ConversationReadDecision" where
  "plan_mark_read current local_max_seq requested_read_seq =
     (let effective_max_seq = max local_max_seq (cv_max_seq current);
          target_read_seq = min requested_read_seq effective_max_seq;
          next_read_seq = min (max target_read_seq (cv_last_read_seq current)) effective_max_seq;
          unread_count = (if next_read_seq \<ge> effective_max_seq then 0 else cv_unread_count current)
      in \<lparr>rd_unread_count = unread_count, rd_next_read_seq = next_read_seq,
          rd_should_recompute_local_unread = True\<rparr>)"

definition unread_counted_in_total :: "Conversation \<Rightarrow> u32" where
  "unread_counted_in_total c =
     (if cv_is_archived c then 0
      else if \<not> cv_is_muted c then cv_unread_count c
      else
        let mentions = max (cv_mention_count c) (if cv_mention_me c then 1 else 0)
        in min mentions (cv_unread_count c))"

text \<open>The sum of the iterator is a \<open>u64\<close>; \<open>+\<close> on words wraps as in a release build.\<close>

definition total_unread :: "Conversation list \<Rightarrow> u64" where
  "total_unread conversations =
     sum_list (map (\<lambda>c. ucast (unread_counted_in_total c)) conversations)"

section \<open>Lemmas\<close>

lemma normalize_for_unread_delta_max [simp]:
  "rp_max_seq (normalize_for_unread_delta p) = rp_max_seq p"
  "rp_unread_count (normalize_for_unread_delta p) = rp_unread_count p"
  by (simp_all add: normalize_for_unread_delta_def)

lemma normalize_for_unread_delta_last_read:
  "rp_last_read_seq p \<le> rp_last_read_seq (normalize_for_unread_delta p)"
  by (simp add: normalize_for_unread_delta_def)

lemma merge_max [simp]:
  "rp_max_seq (merge_with_incoming_summary l i) = max (rp_max_seq i) (rp_max_seq l)"
  by (simp add: merge_with_incoming_summary_def Let_def)

lemma merge_last_read:
  "rp_last_read_seq (merge_with_incoming_summary l i) =
     max (rp_last_read_seq (normalize_for_unread_delta i)) (rp_last_read_seq (normalize_for_unread_delta l))"
  by (simp add: merge_with_incoming_summary_def Let_def max.left_commute)

lemma merge_unread_le:
  "rp_unread_count (merge_with_incoming_summary l i) \<le> unread_upper_bound (merge_with_incoming_summary l i)"
  by (simp add: merge_with_incoming_summary_def Let_def unread_upper_bound_def)

lemma merge_last_read_mono:
  "rp_last_read_seq l \<le> rp_last_read_seq (merge_with_incoming_summary l i)"
  "rp_last_read_seq i \<le> rp_last_read_seq (merge_with_incoming_summary l i)"
  using normalize_for_unread_delta_last_read [of l] normalize_for_unread_delta_last_read [of i]
  by (simp_all add: merge_last_read le_max_iff_disj)

lemma merge_read_to_end:
  assumes "rp_max_seq l \<le> rp_last_read_seq l" "rp_max_seq i \<le> rp_max_seq l" "rp_max_seq l \<noteq> 0"
  shows "rp_unread_count (merge_with_incoming_summary l i) = 0"
  using assms normalize_for_unread_delta_last_read [of l]
  by (auto simp: merge_with_incoming_summary_def Let_def word_gt_0 max_def)

lemma sum_list_unat:
  assumes "length cs < 2 ^ 32"
  shows "unat (total_unread cs) = sum_list (map (\<lambda>c. unat (unread_counted_in_total c)) cs)"
proof -
  have bound: "unat (x :: u32) \<le> 2 ^ 32 - 1" for x using unat_bound32 [of x] by simp
  have "sum_list (map (\<lambda>c. unat (unread_counted_in_total c)) cs) \<le> length cs * (2 ^ 32 - 1) \<and>
        unat (total_unread cs) = sum_list (map (\<lambda>c. unat (unread_counted_in_total c)) cs)"
    using assms
  proof (induction cs)
    case (Cons c cs)
    let ?s = "sum_list (map (\<lambda>c. unat (unread_counted_in_total c)) cs)"
    have IH: "?s \<le> length cs * (2 ^ 32 - 1)" "unat (total_unread cs) = ?s" using Cons by simp_all
    have le: "unat (unread_counted_in_total c) + ?s \<le> Suc (length cs) * (2 ^ 32 - 1)"
      using IH(1) bound [of "unread_counted_in_total c"] by simp
    also have "\<dots> < 2 ^ 64" using Cons.prems by simp
    finally have "unat (unread_counted_in_total c) + ?s < 2 ^ 64" .
    then have "unat (total_unread (c # cs)) = unat (unread_counted_in_total c) + ?s"
      using IH(2) by (simp add: total_unread_def unat_word_ariths)
    with le show ?case by simp
  qed (simp add: total_unread_def)
  then show ?thesis by simp
qed

text \<open>A position that the conservative repair leaves alone.\<close>

definition delta_normal :: "ReadPosition \<Rightarrow> bool" where
  "delta_normal p \<longleftrightarrow>
     rp_last_read_seq p \<noteq> 0 \<or> rp_unread_count p = 0 \<or> rp_max_seq p \<le> ucast (rp_unread_count p)"

lemma normalize_for_unread_delta_id: "delta_normal p \<Longrightarrow> normalize_for_unread_delta p = p"
  by (auto simp: normalize_for_unread_delta_def delta_normal_def)

lemma delta_normal_normalize: "delta_normal (normalize_for_unread_delta p)"
  by (auto simp: normalize_for_unread_delta_def delta_normal_def sat_sub_neq_0 word_gt_0 not_less)

lemma u32_cast_min:
  assumes "rp_max_seq p \<le> ucast (rp_unread_count p)" "unat (rp_max_seq p) < 2 ^ 32"
  shows "rp_max_seq p \<le> ucast (min (rp_unread_count p) (ucast (rp_max_seq p)) :: u32)"
  using assms by (simp add: word_le_nat_alt unat_min_word unat_u64_to_u32)

lemma merge_delta_normal:
  assumes "unat (rp_max_seq l) < 2 ^ 32" "unat (rp_max_seq i) < 2 ^ 32"
  shows "delta_normal (merge_with_incoming_summary l i)"
proof -
  let ?L = "normalize_for_unread_delta l" and ?I = "normalize_for_unread_delta i"
  have norm: "delta_normal ?L" "delta_normal ?I" by (simp_all add: delta_normal_normalize)
  show ?thesis
  proof (cases "rp_last_read_seq ?L = 0 \<and> rp_last_read_seq ?I = 0")
    case True
    show ?thesis
    proof (cases "rp_max_seq i \<le> rp_max_seq l")
      case le: True
      then show ?thesis
        using True norm(1) u32_cast_min [of l] assms(1)
        by (auto simp: delta_normal_def merge_with_incoming_summary_def Let_def max_absorb2)
    next
      case False
      then show ?thesis
        using True norm(2) u32_cast_min [of i] assms(2)
        by (auto simp: delta_normal_def merge_with_incoming_summary_def Let_def max_absorb1)
    qed
  next
    case False
    then have "rp_last_read_seq (merge_with_incoming_summary l i) \<noteq> 0"
      unfolding merge_last_read by (auto simp: max_def)
    then show ?thesis by (simp add: delta_normal_def)
  qed
qed

lemma merge_idempotent_aux:
  assumes "unat (rp_max_seq l) < 2 ^ 32" "unat (rp_max_seq i) < 2 ^ 32"
  shows "merge_with_incoming_summary (merge_with_incoming_summary l i) i = merge_with_incoming_summary l i"
proof -
  let ?m = "merge_with_incoming_summary l i" and ?I = "normalize_for_unread_delta i"
  have m: "normalize_for_unread_delta ?m = ?m"
    using normalize_for_unread_delta_id merge_delta_normal assms by blast
  have le: "rp_max_seq i \<le> rp_max_seq ?m" "rp_last_read_seq ?I \<le> rp_last_read_seq ?m"
    by (simp_all add: merge_last_read)
  have zero: "rp_unread_count ?m = 0" if "rp_max_seq ?m \<le> rp_last_read_seq ?m"
  proof -
    have "unread_upper_bound ?m = 0"
      unfolding unread_upper_bound_def sat_sub_eq_0 [OF that] by simp
    then show ?thesis using merge_unread_le [of l i] by simp
  qed
  have unread: "min (rp_unread_count ?m)
      (ucast (sat_sub (rp_max_seq ?m) (rp_last_read_seq ?m))) = rp_unread_count ?m"
    using merge_unread_le [of l i] by (simp add: unread_upper_bound_def min_absorb1)
  show ?thesis
    unfolding merge_with_incoming_summary_def [of ?m] Let_def m
    by (intro ReadPosition.equality) (use le unread zero in \<open>auto simp: max_absorb2 max_absorb1\<close>)
qed

lemma plan_mark_read_bounds:
  "rd_next_read_seq (plan_mark_read c lm req) \<le> max lm (cv_max_seq c)"
  "min (cv_last_read_seq c) (max lm (cv_max_seq c)) \<le> rd_next_read_seq (plan_mark_read c lm req)"
  "min req (max lm (cv_max_seq c)) \<le> rd_next_read_seq (plan_mark_read c lm req)"
  by (simp_all add: plan_mark_read_def Let_def) (auto simp: min_le_iff_disj le_max_iff_disj)

lemma plan_mark_read_unread:
  "rd_unread_count (plan_mark_read c lm req) =
     (if rd_next_read_seq (plan_mark_read c lm req) = max lm (cv_max_seq c) then 0
      else cv_unread_count c)"
proof -
  define e where "e = max lm (cv_max_seq c)"
  define n where "n = min (max (min req e) (cv_last_read_seq c)) e"
  have "plan_mark_read c lm req =
    \<lparr>rd_unread_count = (if n \<ge> e then 0 else cv_unread_count c), rd_next_read_seq = n,
     rd_should_recompute_local_unread = True\<rparr>"
    unfolding plan_mark_read_def Let_def n_def e_def by (rule refl)
  moreover have "n \<le> e" by (simp add: n_def)
  then have "n \<ge> e \<longleftrightarrow> n = e" by auto
  ultimately show ?thesis by (simp add: e_def)
qed

section \<open>Properties\<close>

text \<open>C26. Merging a server summary never moves a read mark backwards on either side, takes the
  larger newest sequence number, and never reports more unread messages than the merged marks
  leave room for.\<close>

theorem read_merge_never_regresses:
  "let m = merge_with_incoming_summary local incoming in
     rp_max_seq m = max (rp_max_seq incoming) (rp_max_seq local) \<and>
     rp_last_read_seq local \<le> rp_last_read_seq m \<and> rp_last_read_seq incoming \<le> rp_last_read_seq m \<and>
     rp_unread_count m \<le> unread_upper_bound m"
  by (simp add: merge_last_read_mono merge_unread_le)

text \<open>Applying the same server summary a second time changes nothing, as long as sequence
  numbers fit the 32-bit unread counter.\<close>

theorem read_merge_idempotent:
  assumes "unat (rp_max_seq local) < 2 ^ 32" "unat (rp_max_seq incoming) < 2 ^ 32"
  shows "merge_with_incoming_summary (merge_with_incoming_summary local incoming) incoming
    = merge_with_incoming_summary local incoming"
  using assms by (rule merge_idempotent_aux)

theorem read_merge_idempotent_witness:
  "merge_with_incoming_summary (ReadPosition_from_parts 10 0 3) (ReadPosition_from_parts 12 8 4) =
     ReadPosition_from_parts 12 8 4 \<and>
   merge_with_incoming_summary (ReadPosition_from_parts 12 8 4) (ReadPosition_from_parts 12 8 4) =
     ReadPosition_from_parts 12 8 4"
proof -
  let ?l = "ReadPosition_from_parts 10 0 3" and ?i = "ReadPosition_from_parts 12 8 4"
  have "merge_with_incoming_summary ?l ?i = ?i" by code_simp
  moreover have "unat (rp_max_seq ?l) < 2 ^ 32" "unat (rp_max_seq ?i) < 2 ^ 32"
    by (simp_all add: ReadPosition_from_parts_def)
  ultimately show ?thesis using read_merge_idempotent [of ?l ?i] by simp
qed

text \<open>The plan for marking a conversation read never reads past the newest known message, never
  takes the mark back, honours the request up to the newest message, and clears the unread count
  exactly when everything is read.\<close>

theorem mark_read_plan_bounds:
  "let d = plan_mark_read c local_max requested; newest = max local_max (cv_max_seq c) in
     rd_next_read_seq d \<le> newest \<and> min (cv_last_read_seq c) newest \<le> rd_next_read_seq d \<and>
     min requested newest \<le> rd_next_read_seq d \<and>
     rd_unread_count d = (if rd_next_read_seq d = newest then 0 else cv_unread_count c)"
  unfolding Let_def
  using plan_mark_read_bounds [where c = c and lm = local_max and req = requested]
    plan_mark_read_unread [of c local_max requested] by blast

text \<open>The unread total is the sum of the per-conversation counts without overflow for any list
  that fits the process; an archived conversation adds nothing and a muted one adds at most its
  mentions and at most its unread count.\<close>

theorem unread_total_exact:
  assumes "length cs < 2 ^ 32"
  shows "unat (total_unread cs) = sum_list (map (\<lambda>c. unat (unread_counted_in_total c)) cs) \<and>
    unread_counted_in_total c \<le> cv_unread_count c \<and>
    (cv_is_archived c \<longrightarrow> unread_counted_in_total c = 0) \<and>
    (cv_is_muted c \<and> cv_mention_count c = 0 \<and> \<not> cv_mention_me c \<longrightarrow> unread_counted_in_total c = 0)"
  using sum_list_unat [OF assms] by (simp add: unread_counted_in_total_def Let_def)

theorem unread_total_exact_witness:
  "unat (total_unread [Conversation_default\<lparr>cv_unread_count := 4\<rparr>,
      Conversation_default\<lparr>cv_unread_count := 9, cv_is_muted := True, cv_mention_me := True\<rparr>]) = 5"
proof -
  let ?a = "Conversation_default\<lparr>cv_unread_count := 4\<rparr>"
  let ?b = "Conversation_default\<lparr>cv_unread_count := 9, cv_is_muted := True, cv_mention_me := True\<rparr>"
  have "unread_counted_in_total ?a = 4" "unread_counted_in_total ?b = 1"
    by (simp_all add: unread_counted_in_total_def Conversation_default_def)
  then show ?thesis using unread_total_exact [of "[?a, ?b]" ?a] by simp
qed

end
