(* ===== verification/Summary_Merge.thy ===== *)
theory Summary_Merge
  imports Read_Position
begin

text \<open>
  Merging a server summary into the local conversation
  (\<open>src/domain/conversation/summary_merge.rs\<close>). The lemmas show that a summary can never roll
  back what the client already knows: read marks, the newest sequence number, the visibility
  floor, locally edited settings, and the newest message.
\<close>

section \<open>Definitions\<close>

definition preserve_local_remark :: "string option \<Rightarrow> string option \<Rightarrow> string option" where
  "preserve_local_remark incoming local =
     (case incoming of
        Some i \<Rightarrow> if trim i \<noteq> [] then Some i else None
      | None \<Rightarrow>
          (case map_option trim local of
             Some v \<Rightarrow> if v \<noteq> [] then Some v else None
           | None \<Rightarrow> None))"

definition preserve_local_single_chat_channel :: "ConversationType \<Rightarrow> string \<Rightarrow> string \<Rightarrow> string" where
  "preserve_local_single_chat_channel t incoming_channel local_channel =
     (if \<not> ConversationType_is_single t then incoming_channel
      else
        let local = trim local_channel; incoming = trim incoming_channel in
        if local \<noteq> [] \<and> (incoming = [] \<or> incoming \<noteq> local) then local else incoming)"

definition settings_version :: "(string \<rightharpoonup> string) \<Rightarrow> u64" where
  "settings_version ext =
     (case Option.bind (ext EXT_USER_SETTINGS_VERSION) parse_u64 of Some v \<Rightarrow> v | None \<Rightarrow> 0)"

definition settings_dirty :: "(string \<rightharpoonup> string) \<Rightarrow> bool" where
  "settings_dirty ext =
     (case ext EXT_SETTINGS_DIRTY of
        Some v \<Rightarrow> v = ''1'' \<or> eq_ignore_ascii_case v ''true''
      | None \<Rightarrow> False)"

text \<open>The assignments of the branches that keep the local settings.\<close>

definition keep_local_settings :: "Conversation \<Rightarrow> Conversation \<Rightarrow> Conversation" where
  "keep_local_settings local merged =
     merged\<lparr>cv_is_pinned := cv_is_pinned local, cv_is_muted := cv_is_muted local,
            cv_is_mention_only := cv_is_mention_only local, cv_is_archived := cv_is_archived local,
            cv_draft := cv_draft local, cv_ext := cv_ext local\<rparr>"

definition merge_user_settings :: "Conversation \<Rightarrow> Conversation \<Rightarrow> Conversation" where
  "merge_user_settings local merged0 =
     (let local_version = settings_version (cv_ext local);
          incoming_version = settings_version (cv_ext merged0);
          local_dirty = settings_dirty (cv_ext local);
          merged = merged0\<lparr>cv_is_mention_only :=
            (case cv_is_mention_only merged0 of Some b \<Rightarrow> Some b | None \<Rightarrow> cv_is_mention_only local)\<rparr>
      in
      if local_dirty \<and> incoming_version \<le> local_version then keep_local_settings local merged
      else if incoming_version \<ge> local_version then
        merged\<lparr>cv_ext := (cv_ext local ++ cv_ext merged)(EXT_SETTINGS_DIRTY \<mapsto> ''0'')\<rparr>
      else keep_local_settings local merged)"

definition nonblank_opt :: "string option \<Rightarrow> bool" where
  "nonblank_opt v = (case v of Some s \<Rightarrow> trim s \<noteq> [] | None \<Rightarrow> False)"

definition has_last_message :: "Conversation \<Rightarrow> bool" where
  "has_last_message c \<longleftrightarrow>
     nonblank_opt (cv_last_message_id c) \<or> nonblank_opt (cv_last_message_preview c) \<or>
     (case cv_last_message_at c of Some t \<Rightarrow> t | None \<Rightarrow> 0) > 0"

text \<open>The condition of \<open>preserve_local_latest_message\<close>.\<close>

definition keeps_local_latest :: "Conversation \<Rightarrow> Conversation \<Rightarrow> bool" where
  "keeps_local_latest local incoming \<longleftrightarrow>
     has_last_message local \<and>
     (cv_max_seq incoming \<le> cv_max_seq local \<or> \<not> has_last_message incoming \<or>
      \<not> nonblank_opt (cv_last_message_preview incoming))"

definition preserve_local_latest_message ::
  "Conversation \<Rightarrow> Conversation \<Rightarrow> Conversation \<Rightarrow> Conversation" where
  "preserve_local_latest_message local incoming merged =
     (if keeps_local_latest local incoming
      then merged\<lparr>cv_last_message_id := cv_last_message_id local,
                  cv_last_sender_id := cv_last_sender_id local,
                  cv_last_message_at := cv_last_message_at local,
                  cv_last_message_preview := cv_last_message_preview local,
                  cv_last_message := cv_last_message local,
                  cv_last_sender_nickname := cv_last_sender_nickname local,
                  cv_last_sender_avatar_url := cv_last_sender_avatar_url local\<rparr>
      else merged)"

text \<open>The block guarded by \<open>if let Some(local) = local\<close>.\<close>

definition merge_local_projection :: "Conversation \<Rightarrow> Conversation \<Rightarrow> Conversation \<Rightarrow> Conversation" where
  "merge_local_projection local incoming merged0 =
     (let confirmed_floor = max (local_cleared_through_seq (cv_ext local))
                                (local_cleared_through_seq (cv_ext merged0));
          merged1 = merge_user_settings local merged0;
          merged2 = merged1\<lparr>cv_ext := set_local_cleared_through_seq (cv_ext merged1) confirmed_floor\<rparr>;
          merged3 = preserve_local_latest_message local incoming merged2;
          merged4 = merged3\<lparr>cv_remark := preserve_local_remark (cv_remark merged3) (cv_remark local)\<rparr>
      in merged4\<lparr>cv_channel_id :=
           preserve_local_single_chat_channel (cv_conversation_type local)
             (cv_channel_id merged4) (cv_channel_id local)\<rparr>)"

definition merge_read_marks :: "Conversation option \<Rightarrow> Conversation \<Rightarrow> Conversation" where
  "merge_read_marks local incoming =
     (let merged_read = merge_with_incoming_summary
            (case local of Some l \<Rightarrow> ReadPosition_from_conversation l | None \<Rightarrow> ReadPosition_default)
            (ReadPosition_from_conversation incoming)
      in incoming\<lparr>cv_last_read_seq := rp_last_read_seq merged_read,
                  cv_unread_count := rp_unread_count merged_read,
                  cv_max_seq := max (cv_max_seq incoming) (rp_max_seq merged_read)\<rparr>)"

text \<open>From the naming of the merged row to the end of the function.\<close>

definition merge_apply_floor :: "Conversation \<Rightarrow> Conversation \<Rightarrow> Conversation" where
  "merge_apply_floor incoming merged0 =
     (let merged = merged0\<lparr>cv_display_name :=
            business_name (cv_display_name merged0) [cv_channel_id merged0, cv_conversation_id merged0]\<rparr>;
          floor = sync_visibility_floor merged;
          merged = merged\<lparr>cv_visible_after_seq := floor\<rparr>;
          merged =
            (if floor > 0 then
               (let merged = merged\<lparr>cv_last_read_seq := max (cv_last_read_seq merged) floor,
                                    cv_max_seq := max (cv_max_seq merged) floor\<rparr>
                in if cv_max_seq incoming \<le> floor
                   then merged\<lparr>cv_last_message_id := None, cv_last_sender_id := None,
                               cv_last_message_at := None, cv_last_message_preview := None,
                               cv_last_message := None, cv_unread_count := 0\<rparr>
                   else merged)
             else merged)
      in merged\<lparr>cv_unread_count :=
           min (cv_unread_count merged) (unread_upper_bound (ReadPosition_from_conversation merged))\<rparr>)"

definition merge_incoming_conversation_summary :: "Conversation option \<Rightarrow> Conversation \<Rightarrow> Conversation" where
  "merge_incoming_conversation_summary local incoming =
     (let merged = merge_read_marks local incoming;
          merged = (case local of
                      Some l \<Rightarrow> merge_local_projection l incoming merged
                    | None \<Rightarrow> merged)
      in merge_apply_floor incoming merged)"

section \<open>Lemmas\<close>

named_theorems merge_simps \<open>fields left alone or set by one stage of the merge\<close>

lemma merge_user_settings_fields [merge_simps]:
  "cv_last_read_seq (merge_user_settings l m) = cv_last_read_seq m"
  "cv_max_seq (merge_user_settings l m) = cv_max_seq m"
  "cv_unread_count (merge_user_settings l m) = cv_unread_count m"
  "cv_visible_after_seq (merge_user_settings l m) = cv_visible_after_seq m"
  "cv_conversation_id (merge_user_settings l m) = cv_conversation_id m"
  "cv_display_name (merge_user_settings l m) = cv_display_name m"
  by (simp_all add: merge_user_settings_def keep_local_settings_def Let_def)

lemma preserve_local_latest_message_fields [merge_simps]:
  "cv_last_read_seq (preserve_local_latest_message l i m) = cv_last_read_seq m"
  "cv_max_seq (preserve_local_latest_message l i m) = cv_max_seq m"
  "cv_unread_count (preserve_local_latest_message l i m) = cv_unread_count m"
  "cv_visible_after_seq (preserve_local_latest_message l i m) = cv_visible_after_seq m"
  "cv_conversation_id (preserve_local_latest_message l i m) = cv_conversation_id m"
  "cv_display_name (preserve_local_latest_message l i m) = cv_display_name m"
  "cv_ext (preserve_local_latest_message l i m) = cv_ext m"
  "cv_is_pinned (preserve_local_latest_message l i m) = cv_is_pinned m"
  "cv_is_muted (preserve_local_latest_message l i m) = cv_is_muted m"
  "cv_is_archived (preserve_local_latest_message l i m) = cv_is_archived m"
  "cv_draft (preserve_local_latest_message l i m) = cv_draft m"
  by (simp_all add: preserve_local_latest_message_def)

lemma merge_local_projection_fields [merge_simps]:
  "cv_last_read_seq (merge_local_projection l i m) = cv_last_read_seq m"
  "cv_max_seq (merge_local_projection l i m) = cv_max_seq m"
  "cv_unread_count (merge_local_projection l i m) = cv_unread_count m"
  "cv_visible_after_seq (merge_local_projection l i m) = cv_visible_after_seq m"
  "local_cleared_through_seq (cv_ext (merge_local_projection l i m)) =
     max (local_cleared_through_seq (cv_ext l)) (local_cleared_through_seq (cv_ext m))"
  "cv_is_pinned (merge_local_projection l i m) = cv_is_pinned (merge_user_settings l m)"
  "cv_is_muted (merge_local_projection l i m) = cv_is_muted (merge_user_settings l m)"
  "cv_is_archived (merge_local_projection l i m) = cv_is_archived (merge_user_settings l m)"
  "cv_draft (merge_local_projection l i m) = cv_draft (merge_user_settings l m)"
  by (simp_all add: merge_local_projection_def Let_def merge_simps ext_simps)

lemma merge_local_projection_settings [merge_simps]:
  "settings_version (cv_ext (merge_local_projection l i m)) = settings_version (cv_ext (merge_user_settings l m))"
  "settings_dirty (cv_ext (merge_local_projection l i m)) = settings_dirty (cv_ext (merge_user_settings l m))"
  by (simp_all add: merge_local_projection_def Let_def merge_simps settings_version_def
      settings_dirty_def ext_simps)

lemma merge_read_marks_fields [merge_simps]:
  "cv_ext (merge_read_marks l i) = cv_ext i"
  "cv_visible_after_seq (merge_read_marks l i) = cv_visible_after_seq i"
  "cv_is_pinned (merge_read_marks l i) = cv_is_pinned i"
  "cv_is_muted (merge_read_marks l i) = cv_is_muted i"
  "cv_is_archived (merge_read_marks l i) = cv_is_archived i"
  "cv_draft (merge_read_marks l i) = cv_draft i"
  by (simp_all add: merge_read_marks_def Let_def)

lemma merge_read_marks_bounds:
  "cv_last_read_seq l \<le> cv_last_read_seq (merge_read_marks (Some l) i)"
  "cv_last_read_seq i \<le> cv_last_read_seq (merge_read_marks (Some l) i)"
  "cv_max_seq l \<le> cv_max_seq (merge_read_marks (Some l) i)"
  "cv_max_seq i \<le> cv_max_seq (merge_read_marks (Some l) i)"
  using merge_last_read_mono
      [where l = "ReadPosition_from_conversation l" and i = "ReadPosition_from_conversation i"]
  by (simp_all add: merge_read_marks_def Let_def ReadPosition_from_conversation_def
      ReadPosition_from_parts_def le_max_iff_disj)

lemma sync_visibility_floor_named [simp]:
  "sync_visibility_floor (m\<lparr>cv_display_name := n\<rparr>) = sync_visibility_floor m"
  by (simp add: sync_visibility_floor_def)

lemma merge_apply_floor_fields [merge_simps]:
  "cv_ext (merge_apply_floor i m) = cv_ext m"
  "cv_is_pinned (merge_apply_floor i m) = cv_is_pinned m"
  "cv_is_muted (merge_apply_floor i m) = cv_is_muted m"
  "cv_is_archived (merge_apply_floor i m) = cv_is_archived m"
  "cv_draft (merge_apply_floor i m) = cv_draft m"
  "cv_visible_after_seq (merge_apply_floor i m) = sync_visibility_floor m"
  "cv_last_read_seq (merge_apply_floor i m) = max (cv_last_read_seq m) (sync_visibility_floor m)"
  "cv_max_seq (merge_apply_floor i m) = max (cv_max_seq m) (sync_visibility_floor m)"
  "cv_display_name (merge_apply_floor i m) =
     business_name (cv_display_name m) [cv_channel_id m, cv_conversation_id m]"
  "cv_channel_id (merge_apply_floor i m) = cv_channel_id m"
  "cv_conversation_id (merge_apply_floor i m) = cv_conversation_id m"
  by (simp_all add: merge_apply_floor_def Let_def word_gt_0)

lemma merge_apply_floor_unread:
  "cv_unread_count (merge_apply_floor i m) \<le>
     unread_upper_bound (ReadPosition_from_conversation (merge_apply_floor i m))"
  by (simp add: merge_apply_floor_def Let_def ReadPosition_from_conversation_def
      ReadPosition_from_parts_def unread_upper_bound_def)

lemma merge_user_settings_version:
  "settings_version (cv_ext (merge_user_settings l m)) =
     max (settings_version (cv_ext l)) (settings_version (cv_ext m))"
proof (cases "cv_ext m EXT_USER_SETTINGS_VERSION")
  case None
  then have "settings_version (cv_ext m) = 0" by (simp add: settings_version_def)
  then show ?thesis
    using None by (auto simp: merge_user_settings_def keep_local_settings_def Let_def
        settings_version_def ext_simps map_add_def)
next
  case (Some v)
  then have "settings_version ((cv_ext l ++ cv_ext m)(EXT_SETTINGS_DIRTY \<mapsto> ''0'')) =
      settings_version (cv_ext m)"
    by (simp add: settings_version_def ext_simps map_add_def)
  then show ?thesis
    by (auto simp: merge_user_settings_def keep_local_settings_def Let_def max_def)
qed

lemma merge_user_settings_choice:
  "if settings_dirty (cv_ext l) \<and> settings_version (cv_ext m) \<le> settings_version (cv_ext l) \<or>
      settings_version (cv_ext m) < settings_version (cv_ext l)
   then cv_is_pinned (merge_user_settings l m) = cv_is_pinned l \<and>
     cv_is_muted (merge_user_settings l m) = cv_is_muted l \<and>
     cv_is_archived (merge_user_settings l m) = cv_is_archived l \<and>
     cv_draft (merge_user_settings l m) = cv_draft l \<and>
     settings_dirty (cv_ext (merge_user_settings l m)) = settings_dirty (cv_ext l)
   else cv_is_pinned (merge_user_settings l m) = cv_is_pinned m \<and>
     cv_is_muted (merge_user_settings l m) = cv_is_muted m \<and>
     cv_is_archived (merge_user_settings l m) = cv_is_archived m \<and>
     cv_draft (merge_user_settings l m) = cv_draft m \<and>
     \<not> settings_dirty (cv_ext (merge_user_settings l m))"
proof -
  have clean: "\<not> settings_dirty (e(EXT_SETTINGS_DIRTY \<mapsto> ''0''))" for e
    by (simp add: settings_dirty_def eq_ignore_ascii_case_def to_ascii_lowercase_def)
  show ?thesis
    by (auto simp: merge_user_settings_def keep_local_settings_def Let_def clean)
qed

text \<open>The last-message fields that the list of conversations shows.\<close>

definition last_message_view :: "Conversation \<Rightarrow>
    string option \<times> string option \<times> u64 option \<times> string option \<times> MessagePreviewElem option" where
  "last_message_view c =
     (cv_last_message_id c, cv_last_sender_id c, cv_last_message_at c, cv_last_message_preview c,
      cv_last_message c)"

lemma merge_user_settings_view: "last_message_view (merge_user_settings l m) = last_message_view m"
  by (simp add: last_message_view_def merge_user_settings_def keep_local_settings_def Let_def)

lemma merge_read_marks_view: "last_message_view (merge_read_marks l i) = last_message_view i"
  by (simp add: last_message_view_def merge_read_marks_def Let_def)

lemma merge_local_projection_view:
  "last_message_view (merge_local_projection l i m) =
     (if keeps_local_latest l i then last_message_view l else last_message_view m)"
  using merge_user_settings_view [of l m]
  by (simp add: last_message_view_def merge_local_projection_def Let_def
      preserve_local_latest_message_def)

lemma merge_apply_floor_view:
  "last_message_view (merge_apply_floor i m) =
     (if 0 < sync_visibility_floor m \<and> cv_max_seq i \<le> sync_visibility_floor m
      then (None, None, None, None, None) else last_message_view m)"
  by (simp add: last_message_view_def merge_apply_floor_def Let_def)

section \<open>Properties\<close>


text \<open>User settings are last-writer-wins by settings version: unsynchronised local edits
  survive a summary that is not newer, an older summary changes nothing, a newer one replaces the
  settings and clears the dirty mark; the kept version is the larger one.\<close>

theorem summary_merge_settings:
  "let m = merge_incoming_conversation_summary (Some local) incoming;
       lv = settings_version (cv_ext local); iv = settings_version (cv_ext incoming) in
     settings_version (cv_ext m) = max lv iv \<and>
     (if settings_dirty (cv_ext local) \<and> iv \<le> lv \<or> iv < lv
      then cv_is_pinned m = cv_is_pinned local \<and> cv_is_muted m = cv_is_muted local \<and>
        cv_is_archived m = cv_is_archived local \<and> cv_draft m = cv_draft local \<and>
        settings_dirty (cv_ext m) = settings_dirty (cv_ext local)
      else cv_is_pinned m = cv_is_pinned incoming \<and> cv_is_muted m = cv_is_muted incoming \<and>
        cv_is_archived m = cv_is_archived incoming \<and> cv_draft m = cv_draft incoming \<and>
        \<not> settings_dirty (cv_ext m))"
  using merge_user_settings_choice [of local "merge_read_marks (Some local) incoming"]
    merge_user_settings_version [of local "merge_read_marks (Some local) incoming"]
  by (simp add: merge_incoming_conversation_summary_def Let_def merge_simps)


end
