(* ===== verification/Message_Fsm.thy ===== *)
theory Message_Fsm
  imports Prelude
begin

text \<open>
  The two state machines of \<open>src/kernel/fsm\<close>: the life of a message (\<open>message_state.rs\<close>) and of
  a synchronisation (\<open>sync_state.rs\<close>). A refused transition is the left summand of the result.
\<close>

section \<open>Definitions\<close>

datatype MessageState =
    MsPending | MsSending | MsSent | MsDelivered | MsRead | MsFailed | MsRecalled | MsDeleted

datatype MessageStateEvent =
    EvEnqueued | EvSendStarted | EvSendAckReceived | EvDelivered | EvRead | EvSendFailed
  | EvRecalled | EvDeleted

datatype message_error = InvalidMessageTransition MessageState MessageStateEvent

fun message_transition :: "MessageState \<Rightarrow> MessageStateEvent \<Rightarrow> message_error + MessageState" where
  "message_transition MsPending EvSendStarted = Inr MsSending"
| "message_transition MsSending EvSendAckReceived = Inr MsSent"
| "message_transition MsSending EvSendFailed = Inr MsFailed"
| "message_transition MsSent EvDelivered = Inr MsDelivered"
| "message_transition MsSent EvRead = Inr MsRead"
| "message_transition MsDelivered EvRead = Inr MsRead"
| "message_transition MsSent EvRecalled = Inr MsRecalled"
| "message_transition MsDelivered EvRecalled = Inr MsRecalled"
| "message_transition MsRead EvRecalled = Inr MsRecalled"
| "message_transition MsSent EvDeleted = Inr MsDeleted"
| "message_transition MsDelivered EvDeleted = Inr MsDeleted"
| "message_transition MsRead EvDeleted = Inr MsDeleted"
| "message_transition MsRecalled EvDeleted = Inr MsDeleted"
| "message_transition MsPending EvEnqueued = Inr MsPending"
| "message_transition s e = Inl (InvalidMessageTransition s e)"

definition message_is_terminal :: "MessageState \<Rightarrow> bool" where
  "message_is_terminal s \<longleftrightarrow> s = MsFailed \<or> s = MsRecalled \<or> s = MsDeleted"

definition from_local_state :: "bool \<Rightarrow> bool \<Rightarrow> bool \<Rightarrow> MessageState" where
  "from_local_state sending failed is_local =
     (if failed then MsFailed else if sending then MsSending
      else if is_local then MsPending else MsSent)"

fun to_local_state_flags :: "MessageState \<Rightarrow> bool \<times> bool \<times> bool" where
  "to_local_state_flags MsPending = (False, False, True)"
| "to_local_state_flags MsSending = (True, False, True)"
| "to_local_state_flags MsSent = (False, False, False)"
| "to_local_state_flags MsDelivered = (False, False, False)"
| "to_local_state_flags MsRead = (False, False, False)"
| "to_local_state_flags MsFailed = (False, True, True)"
| "to_local_state_flags MsRecalled = (False, False, False)"
| "to_local_state_flags MsDeleted = (False, False, False)"

datatype SyncState = SyIdle | SySyncing | SyCatchingUp | SyError

datatype SyncTransition = TrSyncRequested | TrDataReceived | TrBatchDone | TrSyncDone | TrSyncFailed | TrReset

datatype sync_error = InvalidSyncTransition SyncState SyncTransition

fun sync_transition :: "SyncState \<Rightarrow> SyncTransition \<Rightarrow> sync_error + SyncState" where
  "sync_transition SyIdle TrSyncRequested = Inr SySyncing"
| "sync_transition SySyncing TrDataReceived = Inr SyCatchingUp"
| "sync_transition SySyncing TrBatchDone = Inr SyIdle"
| "sync_transition SySyncing TrSyncDone = Inr SyIdle"
| "sync_transition SySyncing TrSyncFailed = Inr SyError"
| "sync_transition SyCatchingUp TrDataReceived = Inr SyCatchingUp"
| "sync_transition SyCatchingUp TrBatchDone = Inr SySyncing"
| "sync_transition SyCatchingUp TrSyncDone = Inr SyIdle"
| "sync_transition SyCatchingUp TrSyncFailed = Inr SyError"
| "sync_transition SyError TrReset = Inr SySyncing"
| "sync_transition SyError TrSyncRequested = Inr SySyncing"
| "sync_transition SyIdle TrReset = Inr SyIdle"
| "sync_transition s e = Inl (InvalidSyncTransition s e)"

section \<open>Runs\<close>

text \<open>A run of accepted events.\<close>

inductive message_run :: "MessageState \<Rightarrow> MessageStateEvent list \<Rightarrow> MessageState \<Rightarrow> bool" where
  stop: "message_run s [] s"
| step: "message_transition s e = Inr s' \<Longrightarrow> message_run s' es s'' \<Longrightarrow> message_run s (e # es) s''"

inductive_simps message_run_Nil: "message_run s [] s'"
inductive_simps message_run_Cons: "message_run s (e # es) s'"
fun_cases message_transitionE: "message_transition s e = Inr s'"

lemmas message_run_simps = message_run_Nil message_run_Cons

text \<open>How far along its life a message is; every accepted event but the first enqueue moves up.\<close>

fun message_rank :: "MessageState \<Rightarrow> nat" where
  "message_rank MsPending = 0"
| "message_rank MsSending = 1"
| "message_rank MsSent = 2"
| "message_rank MsDelivered = 3"
| "message_rank MsRead = 4"
| "message_rank MsRecalled = 5"
| "message_rank MsFailed = 6"
| "message_rank MsDeleted = 6"

lemma message_transition_rank:
  "message_transition s e = Inr s' \<Longrightarrow>
     message_rank s < message_rank s' \<or> s = MsPending \<and> s' = MsPending \<and> e = EvEnqueued"
  by (elim message_transitionE) simp_all

lemma message_run_rank: "message_run s es s' \<Longrightarrow> message_rank s \<le> message_rank s'"
  by (induction rule: message_run.induct) (auto dest: message_transition_rank)

lemma message_run_final:
  assumes "message_run s es s'" "s = MsFailed \<or> s = MsDeleted"
  shows "es = [] \<and> s' = s"
  using assms by (induction rule: message_run.induct) (auto elim!: message_transitionE)

lemma message_run_needs_ack:
  "message_run s es s' \<Longrightarrow> s \<in> {MsPending, MsSending} \<Longrightarrow> s' \<notin> {MsPending, MsSending, MsFailed} \<Longrightarrow>
     EvSendAckReceived \<in> set es"
proof (induction rule: message_run.induct)
  case (step s e s' es s'')
  show ?case
  proof (cases "s' = MsFailed")
    case True
    then show ?thesis using message_run_final step by blast
  next
    case False
    then show ?thesis using step by (auto elim!: message_transitionE)
  qed
qed simp

lemma message_run_recalled:
  assumes "message_run MsRecalled es s'"
  shows "es = [] \<and> s' = MsRecalled \<or> es = [EvDeleted] \<and> s' = MsDeleted"
proof (cases es)
  case (Cons e es')
  then have "e = EvDeleted" "message_run MsDeleted es' s'"
    using assms by (auto simp: message_run_simps elim: message_transitionE)
  then show ?thesis using message_run_final Cons by blast
qed (use assms in \<open>simp add: message_run_simps\<close>)

subsection \<open>Synchronisation\<close>

inductive sync_run :: "SyncState \<Rightarrow> SyncTransition list \<Rightarrow> SyncState \<Rightarrow> bool" where
  sdone: "sync_run s [] s"
| sstep: "sync_transition s e = Inr s' \<Longrightarrow> sync_run s' es s'' \<Longrightarrow> sync_run s (e # es) s''"

fun_cases sync_transitionE: "sync_transition s e = Inr s'"

text \<open>The shortest way back to idle from each state.\<close>

fun sync_exit :: "SyncState \<Rightarrow> SyncTransition list" where
  "sync_exit SyIdle = []"
| "sync_exit SySyncing = [TrSyncDone]"
| "sync_exit SyCatchingUp = [TrSyncDone]"
| "sync_exit SyError = [TrReset, TrSyncDone]"

lemma sync_exit_run: "sync_run s (sync_exit s) SyIdle"
  by (cases s) (auto intro!: sync_run.intros)

lemma sync_error_entry:
  "sync_transition s e = Inr SyError \<Longrightarrow> e = TrSyncFailed \<and> (s = SySyncing \<or> s = SyCatchingUp)"
  by (elim sync_transitionE) simp_all

lemma from_local_state_flags:
  "(case to_local_state_flags s of (sending, failed, is_local) \<Rightarrow> from_local_state sending failed is_local)
     = (if s \<in> {MsPending, MsSending, MsFailed} then s else MsSent)"
  by (cases s) (simp_all add: from_local_state_def)

section \<open>Properties\<close>

text \<open>C32. Over any run of accepted events a message never goes back in its life, is shown as sent
  or later only after the acknowledgement was received, a failed or deleted message accepts
  nothing more, and a recalled message accepts only its deletion.\<close>

theorem message_life_sound:
  assumes "message_run s es s'"
  shows "message_rank s \<le> message_rank s' \<and>
    (s \<in> {MsPending, MsSending} \<and> s' \<notin> {MsPending, MsSending, MsFailed} \<longrightarrow> EvSendAckReceived \<in> set es) \<and>
    (s = MsFailed \<or> s = MsDeleted \<longrightarrow> es = [] \<and> s' = s) \<and>
    (s = MsRecalled \<longrightarrow> es = [] \<and> s' = MsRecalled \<or> es = [EvDeleted] \<and> s' = MsDeleted)"
  using message_run_rank [OF assms] message_run_needs_ack [OF assms] message_run_final [OF assms]
    message_run_recalled assms by blast

theorem message_life_sound_witness:
  "message_run MsPending [EvEnqueued, EvSendStarted, EvSendAckReceived, EvDelivered, EvRead] MsRead \<and>
   message_rank MsPending \<le> message_rank MsRead"
proof -
  have run: "message_run MsPending [EvEnqueued, EvSendStarted, EvSendAckReceived, EvDelivered, EvRead] MsRead"
    by (simp add: message_run_simps)
  then show ?thesis using message_life_sound [OF run] by simp
qed

text \<open>The states that \<open>is_terminal\<close> calls final are not all final: a recalled message still
  accepts its deletion, while failed and deleted messages accept nothing.\<close>

theorem terminal_states_exact:
  "message_is_terminal MsRecalled \<and> message_transition MsRecalled EvDeleted = Inr MsDeleted \<and>
   message_transition MsFailed e = Inl (InvalidMessageTransition MsFailed e) \<and>
   message_transition MsDeleted e = Inl (InvalidMessageTransition MsDeleted e)"
  by (cases e) (simp_all add: message_is_terminal_def)

end
