(* ===== verification/Dedupe.thy ===== *)
theory Dedupe
  imports Text
begin

text \<open>
  The two windows that drop events and messages already seen
  (\<open>src/application/services/event_deduper.rs\<close> and \<open>message_deduper.rs\<close>): a queue of the most
  recent keys and the set of its members. Their common contract is the locale
  \<open>dedupe_window\<close>, interpreted on both.
\<close>

section \<open>Definitions\<close>

subsection \<open>The window shared by both\<close>

record 'k DedupeState =
  ds_order :: "'k list"
  ds_seen :: "'k set"

definition DedupeState_with_capacity :: "'k DedupeState" where
  "DedupeState_with_capacity = \<lparr>ds_order = [], ds_seen = {}\<rparr>"

text \<open>The eviction loop: while the queue is longer than the capacity, drop its front.\<close>

fun evict_loop :: "nat \<Rightarrow> 'k list \<Rightarrow> 'k set \<Rightarrow> 'k list \<times> 'k set" where
  "evict_loop capacity [] seen = ([], seen)"
| "evict_loop capacity (removed # order) seen =
     (if Suc (length order) > capacity then evict_loop capacity order (seen - {removed})
      else (removed # order, seen))"

definition window_record :: "nat \<Rightarrow> 'k DedupeState \<Rightarrow> 'k \<Rightarrow> 'k DedupeState \<times> bool" where
  "window_record capacity st key =
     (if key \<in> ds_seen st then (st, False)
      else
        let (order, seen) = evict_loop capacity (ds_order st @ [key]) (insert key (ds_seen st))
        in (\<lparr>ds_order = order, ds_seen = seen\<rparr>, True))"

subsection \<open>Events\<close>

text \<open>The fields of a protocol event that its key is built from.\<close>

record event_fields =
  ev_event_id :: string
  ev_conversation_id :: string
  ev_type :: int
  ev_conversation_seq :: u64
  ev_request_id :: "string option"

datatype EventDedupeKey =
    EkEventId string
  | EkSeq string int u64
  | EkRequestId string int string

definition EVENT_DEDUPE_CAPACITY :: nat where
  "EVENT_DEDUPE_CAPACITY = 4096"

record EventDeduper =
  ed_capacity :: nat
  ed_state :: "EventDedupeKey DedupeState"

definition EventDeduper_new :: "nat option \<Rightarrow> EventDeduper" where
  "EventDeduper_new capacity =
     \<lparr>ed_capacity = max (case capacity of Some c \<Rightarrow> c | None \<Rightarrow> EVENT_DEDUPE_CAPACITY) 1,
      ed_state = DedupeState_with_capacity\<rparr>"

definition dedupe_key_for_event :: "event_fields \<Rightarrow> EventDedupeKey option" where
  "dedupe_key_for_event event =
     (if trim (ev_event_id event) \<noteq> [] then Some (EkEventId (ev_event_id event))
      else if ev_conversation_seq event > 0 then
        Some (EkSeq (ev_conversation_id event) (ev_type event) (ev_conversation_seq event))
      else
        (case ev_request_id event of
           Some request_id \<Rightarrow>
             if trim request_id \<noteq> []
             then Some (EkRequestId (ev_conversation_id event) (ev_type event) request_id) else None
         | None \<Rightarrow> None))"

definition EventDeduper_record_if_new :: "EventDeduper \<Rightarrow> event_fields \<Rightarrow> EventDeduper \<times> bool" where
  "EventDeduper_record_if_new d event =
     (case dedupe_key_for_event event of
        None \<Rightarrow> (d, True)
      | Some key \<Rightarrow>
          let (st, fresh) = window_record (ed_capacity d) (ed_state d) key
          in (d\<lparr>ed_state := st\<rparr>, fresh))"

definition EventDeduper_forget_keys :: "EventDeduper \<Rightarrow> EventDedupeKey list \<Rightarrow> EventDeduper" where
  "EventDeduper_forget_keys d ks =
     (if ks = [] then d
      else d\<lparr>ed_state :=
        \<lparr>ds_order = filter (\<lambda>stored. stored \<notin> set ks) (ds_order (ed_state d)),
         ds_seen = fold (\<lambda>k seen. seen - {k}) ks (ds_seen (ed_state d))\<rparr>\<rparr>)"

definition EventDeduper_forget :: "EventDeduper \<Rightarrow> event_fields \<Rightarrow> EventDeduper" where
  "EventDeduper_forget d event =
     (case dedupe_key_for_event event of
        None \<Rightarrow> d
      | Some key \<Rightarrow> EventDeduper_forget_keys d [key])"

subsection \<open>Messages\<close>

text \<open>The fields of a message that its key is built from.\<close>

record message_fields =
  mf_server_id :: string
  mf_client_msg_id :: string
  mf_conversation_id :: string
  mf_sender_id :: string
  mf_conversation_seq :: u64

datatype MessageDedupeKey =
    MkServerId string
  | MkClientMsgId string
  | MkConversationSeq string string u64

definition MESSAGE_DEDUPE_CAPACITY :: nat where
  "MESSAGE_DEDUPE_CAPACITY = 8192"

record MessageDeduper =
  md_capacity :: nat
  md_state :: "MessageDedupeKey DedupeState"

definition MessageDeduper_new :: "nat option \<Rightarrow> MessageDeduper" where
  "MessageDeduper_new capacity =
     \<lparr>md_capacity = max (case capacity of Some c \<Rightarrow> c | None \<Rightarrow> MESSAGE_DEDUPE_CAPACITY) 1,
      md_state = DedupeState_with_capacity\<rparr>"

definition dedupe_key_for_message :: "message_fields \<Rightarrow> MessageDedupeKey option" where
  "dedupe_key_for_message message =
     (if trim (mf_server_id message) \<noteq> [] then Some (MkServerId (mf_server_id message))
      else if trim (mf_client_msg_id message) \<noteq> [] then Some (MkClientMsgId (mf_client_msg_id message))
      else if trim (mf_conversation_id message) \<noteq> [] \<and> mf_conversation_seq message > 0 then
        Some (MkConversationSeq (mf_conversation_id message) (mf_sender_id message)
                (mf_conversation_seq message))
      else None)"

definition MessageDeduper_record_if_new :: "MessageDeduper \<Rightarrow> message_fields \<Rightarrow> MessageDeduper \<times> bool" where
  "MessageDeduper_record_if_new d message =
     (case dedupe_key_for_message message of
        None \<Rightarrow> (d, True)
      | Some key \<Rightarrow>
          let (st, fresh) = window_record (md_capacity d) (md_state d) key
          in (d\<lparr>md_state := st\<rparr>, fresh))"

section \<open>The window\<close>

definition window_ok :: "nat \<Rightarrow> 'k DedupeState \<Rightarrow> bool" where
  "window_ok capacity st \<longleftrightarrow>
     distinct (ds_order st) \<and> ds_seen st = set (ds_order st) \<and> length (ds_order st) \<le> capacity"

lemma evict_loop_eq:
  "distinct order \<Longrightarrow> evict_loop capacity order (set order) =
     (let kept = drop (length order - capacity) order in (kept, set kept))"
proof (induction capacity order "set order" rule: evict_loop.induct)
  case (2 capacity removed order)
  then have "insert removed (set order) - {removed} = set order" by auto
  with 2 show ?case by (auto simp: Let_def Suc_diff_le)
qed (simp add: Let_def)

lemma window_record_fresh:
  assumes "window_ok capacity st" "k \<notin> set (ds_order st)"
  shows "window_record capacity st k =
    (let kept = drop (Suc (length (ds_order st)) - capacity) (ds_order st @ [k])
     in (\<lparr>ds_order = kept, ds_seen = set kept\<rparr>, True))"
proof -
  have "distinct (ds_order st @ [k])" "insert k (ds_seen st) = set (ds_order st @ [k])"
    using assms by (auto simp: window_ok_def)
  with assms evict_loop_eq [of "ds_order st @ [k]" capacity] show ?thesis
    by (simp add: window_record_def window_ok_def Let_def del: drop_append)
qed

lemma window_record_ok: "window_ok capacity st \<Longrightarrow> window_ok capacity (fst (window_record capacity st k))"
proof (cases "k \<in> set (ds_order st)")
  case False
  assume ok: "window_ok capacity st"
  then have "distinct (ds_order st @ [k])" using False by (simp add: window_ok_def)
  then show ?thesis
    using ok unfolding window_record_fresh [OF ok False] by (simp add: window_ok_def Let_def del: drop_append)
qed (simp add: window_record_def window_ok_def)

lemma window_record_seen:
  "window_ok capacity st \<Longrightarrow> k \<in> set (ds_order st) \<Longrightarrow> window_record capacity st k = (st, False)"
  by (simp add: window_record_def window_ok_def)

section \<open>The contract of a deduper\<close>

text \<open>Feeding a list of items; the answers in order.\<close>

fun feed :: "('d \<Rightarrow> 'e \<Rightarrow> 'd \<times> bool) \<Rightarrow> 'd \<Rightarrow> 'e list \<Rightarrow> 'd \<times> bool list" where
  "feed step d [] = (d, [])"
| "feed step d (e # es) =
     (let (d', a) = step d e; (d'', as) = feed step d' es in (d'', a # as))"

lemma feed_Cons [simp]:
  "fst (feed step d (e # es)) = fst (feed step (fst (step d e)) es)"
  "snd (feed step d (e # es)) = snd (step d e) # snd (feed step (fst (step d e)) es)"
  by (simp_all add: Let_def case_prod_beta)

declare feed.simps(2) [simp del]

text \<open>How many of the items were keyed and taken as new.\<close>

fun fresh_count :: "('e \<Rightarrow> 'k option) \<Rightarrow> 'e list \<Rightarrow> bool list \<Rightarrow> nat" where
  "fresh_count key_of (e # es) (a # as) =
     (if a \<and> key_of e \<noteq> None then 1 else 0) + fresh_count key_of es as"
| "fresh_count key_of _ _ = 0"

locale dedupe_window =
  fixes key_of :: "'e \<Rightarrow> 'k option"
    and capacity :: "'d \<Rightarrow> nat"
    and order :: "'d \<Rightarrow> 'k list"
    and record_new :: "'d \<Rightarrow> 'e \<Rightarrow> 'd \<times> bool"
    and invar :: "'d \<Rightarrow> bool"
  assumes invar_record: "invar d \<Longrightarrow> invar (fst (record_new d e))"
    and capacity_record: "capacity (fst (record_new d e)) = capacity d"
    and capacity_pos: "invar d \<Longrightarrow> 0 < capacity d"
    and keyless: "key_of e = None \<Longrightarrow> record_new d e = (d, True)"
    and duplicate: "invar d \<Longrightarrow> key_of e = Some k \<Longrightarrow> k \<in> set (order d) \<Longrightarrow> record_new d e = (d, False)"
    and fresh: "invar d \<Longrightarrow> key_of e = Some k \<Longrightarrow> k \<notin> set (order d) \<Longrightarrow>
      snd (record_new d e) \<and>
      order (fst (record_new d e)) = drop (Suc (length (order d)) - capacity d) (order d @ [k])"
begin

lemma invar_feed: "invar d \<Longrightarrow> invar (fst (feed record_new d es))"
  by (induction es arbitrary: d) (simp_all add: invar_record)

lemma capacity_feed: "capacity (fst (feed record_new d es)) = capacity d"
  by (induction es arbitrary: d) (simp_all add: capacity_record)

text \<open>A key with \<open>post\<close> newer keys behind it survives while fewer keys than the capacity follow.\<close>

lemma drop_keeps:
  assumes "xs = pre @ k # post" "length post < c"
  shows "\<exists>pre'. drop (length xs - c) xs = pre' @ k # post"
proof -
  have "length xs - c \<le> length pre" using assms by simp
  then show ?thesis using assms(1) by (intro exI [of _ "drop (length xs - c) pre"]) simp
qed

lemma feed_keeps:
  "invar d \<Longrightarrow> order d = pre @ k # post \<Longrightarrow>
     length post + fresh_count key_of es (snd (feed record_new d es)) < capacity d \<Longrightarrow>
     k \<in> set (order (fst (feed record_new d es)))"
proof (induction es arbitrary: d pre post)
  case (Cons e es)
  let ?d = "fst (record_new d e)"
  have inv: "invar ?d" and cap: "capacity ?d = capacity d"
    using Cons.prems by (simp_all add: invar_record capacity_record)
  consider (same) "?d = d"
    | (new) k' where "key_of e = Some k'" "k' \<notin> set (order d)"
    using keyless [of e d] duplicate [OF Cons.prems(1), of e] by (cases "key_of e") fastforce+
  then show ?case
  proof cases
    case same
    then show ?thesis using Cons by simp
  next
    case new
    have step: "snd (record_new d e)"
      "order ?d = drop (length (order d @ [k']) - capacity d) (order d @ [k'])"
      using fresh [OF Cons.prems(1) new] by simp_all
    have eq: "order d @ [k'] = pre @ k # (post @ [k'])" using Cons.prems(2) by simp
    have count: "length (post @ [k']) + fresh_count key_of es (snd (feed record_new ?d es)) < capacity ?d"
      using Cons.prems(3) step(1) new(1) cap by simp
    then have "length (post @ [k']) < capacity d" using cap by simp
    from drop_keeps [OF eq this] obtain pre' where "order ?d = pre' @ k # (post @ [k'])"
      using step(2) by metis
    from Cons.IH [OF inv this count] show ?thesis by simp
  qed
qed simp

lemma remembered:
  assumes "invar d" "key_of e = Some k" "snd (record_new d e)"
    and "fresh_count key_of es (snd (feed record_new (fst (record_new d e)) es)) < capacity d"
  shows "\<not> snd (record_new (fst (feed record_new (fst (record_new d e)) es)) e)"
proof -
  let ?d = "fst (record_new d e)"
  have inv: "invar ?d" using assms(1) by (rule invar_record)
  have cap: "capacity ?d = capacity d" by (rule capacity_record)
  have "k \<notin> set (order d)" using duplicate [OF assms(1,2)] assms(3) by auto
  then have "order ?d = drop (length (order d @ [k]) - capacity d) (order d @ [k])"
    using fresh [OF assms(1,2)] by simp
  then obtain pre where "order ?d = pre @ k # []"
    using drop_keeps [of "order d @ [k]" "order d" k "[]" "capacity d"] capacity_pos [OF assms(1)]
    by auto
  then have "k \<in> set (order (fst (feed record_new ?d es)))"
    using feed_keeps [OF inv, of pre k "[]" es] cap assms(4) by simp
  then show ?thesis using duplicate [OF invar_feed [OF inv] assms(2)] by simp
qed

end

section \<open>Both dedupers meet the contract\<close>

definition event_deduper_ok :: "EventDeduper \<Rightarrow> bool" where
  "event_deduper_ok d \<longleftrightarrow> 0 < ed_capacity d \<and> window_ok (ed_capacity d) (ed_state d)"

definition message_deduper_ok :: "MessageDeduper \<Rightarrow> bool" where
  "message_deduper_ok d \<longleftrightarrow> 0 < md_capacity d \<and> window_ok (md_capacity d) (md_state d)"

lemma window_ok_empty: "window_ok c DedupeState_with_capacity"
  by (simp add: window_ok_def DedupeState_with_capacity_def)

lemma event_deduper_new_ok: "event_deduper_ok (EventDeduper_new c)"
  by (simp add: event_deduper_ok_def EventDeduper_new_def window_ok_empty)

lemma message_deduper_new_ok: "message_deduper_ok (MessageDeduper_new c)"
  by (simp add: message_deduper_ok_def MessageDeduper_new_def window_ok_empty)

interpretation event_window: dedupe_window dedupe_key_for_event ed_capacity
  "\<lambda>d. ds_order (ed_state d)" EventDeduper_record_if_new event_deduper_ok
proof unfold_locales
  fix d e k
  show "event_deduper_ok d \<Longrightarrow> event_deduper_ok (fst (EventDeduper_record_if_new d e))"
    using window_record_ok [of "ed_capacity d" "ed_state d"]
    by (auto simp: EventDeduper_record_if_new_def event_deduper_ok_def case_prod_beta Let_def
        split: option.split)
  show "ed_capacity (fst (EventDeduper_record_if_new d e)) = ed_capacity d"
    by (simp add: EventDeduper_record_if_new_def case_prod_beta Let_def split: option.split)
qed (auto simp: EventDeduper_record_if_new_def event_deduper_ok_def window_record_seen
    window_record_fresh Let_def)

interpretation message_window: dedupe_window dedupe_key_for_message md_capacity
  "\<lambda>d. ds_order (md_state d)" MessageDeduper_record_if_new message_deduper_ok
proof unfold_locales
  fix d e k
  show "message_deduper_ok d \<Longrightarrow> message_deduper_ok (fst (MessageDeduper_record_if_new d e))"
    using window_record_ok [of "md_capacity d" "md_state d"]
    by (auto simp: MessageDeduper_record_if_new_def message_deduper_ok_def case_prod_beta Let_def
        split: option.split)
  show "md_capacity (fst (MessageDeduper_record_if_new d e)) = md_capacity d"
    by (simp add: MessageDeduper_record_if_new_def case_prod_beta Let_def split: option.split)
qed (auto simp: MessageDeduper_record_if_new_def message_deduper_ok_def window_record_seen
    window_record_fresh Let_def)

subsection \<open>Forgetting\<close>

lemma fold_remove: "fold (\<lambda>k seen. seen - {k}) ks s = s - set ks"
  by (induction ks arbitrary: s) auto

lemma forget_keys_ok: "event_deduper_ok d \<Longrightarrow> event_deduper_ok (EventDeduper_forget_keys d ks)"
  by (auto simp: event_deduper_ok_def window_ok_def EventDeduper_forget_keys_def fold_remove
      intro: le_trans [OF length_filter_le])

lemma forget_keys_order:
  "set (ds_order (ed_state (EventDeduper_forget_keys d ks))) = set (ds_order (ed_state d)) - set ks"
  by (auto simp: EventDeduper_forget_keys_def)

lemma forgotten_is_fresh:
  assumes "event_deduper_ok d" "dedupe_key_for_event e = Some k" "k \<in> set ks"
  shows "snd (EventDeduper_record_if_new (EventDeduper_forget_keys d ks) e)"
  using event_window.fresh [OF forget_keys_ok [OF assms(1)] assms(2), of ks] assms(3)
  by (simp add: forget_keys_order)

section \<open>Properties\<close>



text \<open>The same window contract for messages: a message taken as new is refused when it comes
  again while fewer new keyed messages than the capacity were taken in between.\<close>

theorem message_dedupe_window:
  assumes "message_deduper_ok d" "dedupe_key_for_message m = Some k"
    and "MessageDeduper_record_if_new d m = (d1, True)"
    and "feed MessageDeduper_record_if_new d1 ms = (d2, answers)"
    and "fresh_count dedupe_key_for_message ms answers < md_capacity d"
  shows "\<not> snd (MessageDeduper_record_if_new d2 m)"
proof -
  have "d1 = fst (MessageDeduper_record_if_new d m)" "snd (MessageDeduper_record_if_new d m)"
    "d2 = fst (feed MessageDeduper_record_if_new d1 ms)"
    "answers = snd (feed MessageDeduper_record_if_new d1 ms)"
    using assms(3,4) by simp_all
  then show ?thesis using message_window.remembered [OF assms(1,2), of ms] assms(5) by simp
qed

theorem message_dedupe_window_witness:
  "\<not> snd (MessageDeduper_record_if_new
     (fst (MessageDeduper_record_if_new (MessageDeduper_new None)
        \<lparr>mf_server_id = ''s1'', mf_client_msg_id = [], mf_conversation_id = [], mf_sender_id = [],
         mf_conversation_seq = 0\<rparr>))
     \<lparr>mf_server_id = ''s1'', mf_client_msg_id = [], mf_conversation_id = [], mf_sender_id = [],
      mf_conversation_seq = 0\<rparr>)"
proof -
  let ?m = "\<lparr>mf_server_id = ''s1'', mf_client_msg_id = [], mf_conversation_id = [], mf_sender_id = [],
      mf_conversation_seq = 0\<rparr>"
  let ?d1 = "fst (MessageDeduper_record_if_new (MessageDeduper_new None) ?m)"
  have key: "dedupe_key_for_message ?m = Some (MkServerId ''s1'')" by code_simp
  have rec: "MessageDeduper_record_if_new (MessageDeduper_new None) ?m = (?d1, True)"
    using message_window.fresh [OF message_deduper_new_ok key, of None]
    by (simp add: MessageDeduper_new_def DedupeState_with_capacity_def prod_eq_iff)
  show ?thesis
    using message_dedupe_window [OF message_deduper_new_ok key rec, of "[]" ?d1 "[]"]
    by (simp add: MessageDeduper_new_def)
qed

end
