(* ===== verification/Seq_Repair.thy ===== *)
theory Seq_Repair
  imports Text "HOL-Library.AList"
begin

text \<open>
  Detection and repair of gaps in a conversation's sequence numbers: the functions at the end of
  \<open>src/runtime/dispatcher/mod.rs\<close> and \<open>repair_message_seq_after_persist\<close> of
  \<open>src/runtime/dispatcher/seq_repair.rs\<close>. The map of repair states, whose order of iteration the
  pruning can observe, is an association list. The results of store reads are arguments.
\<close>

section \<open>Definitions\<close>

subsection \<open>Gaps\<close>

text \<open>\<open>sort_unstable\<close> followed by \<open>dedup\<close>.\<close>

definition sort_dedup :: "u64 list \<Rightarrow> u64 list" where
  "sort_dedup xs = remdups_adj (sort xs)"

definition operation_seq :: "u64 \<Rightarrow> u64 option" where
  "operation_seq conversation_seq = (if conversation_seq > 0 then Some conversation_seq else None)"

fun contiguous_loop :: "u64 \<Rightarrow> u64 list \<Rightarrow> u64" where
  "contiguous_loop cursor [] = cursor"
| "contiguous_loop cursor (seq # rest) =
     (if seq = cursor + 1 then contiguous_loop seq rest
      else if seq > cursor + 1 then cursor
      else contiguous_loop cursor rest)"

definition max_contiguous_seq :: "u64 \<Rightarrow> u64 list \<Rightarrow> u64" where
  "max_contiguous_seq known_seq seqs =
     contiguous_loop known_seq (sort_dedup (filter (\<lambda>seq. seq > known_seq) seqs))"

definition first_gap_after :: "u64 \<Rightarrow> u64 list \<Rightarrow> u64 option" where
  "first_gap_after known_seq seqs =
     (let contiguous = max_contiguous_seq known_seq seqs in
      if list_ex (\<lambda>seq. seq > contiguous + 1) seqs then Some contiguous else None)"

text \<open>The fields of a message that the regression check reads: its sender and sequence number.\<close>

definition detect_outgoing_seq_regressions :: "(string \<times> u64) list \<Rightarrow> string \<Rightarrow> u64 \<Rightarrow> u64 list" where
  "detect_outgoing_seq_regressions incoming current_user_id observed_high_water =
     (if trim current_user_id = [] \<or> observed_high_water = 0 then []
      else sort_dedup (map snd
        (filter (\<lambda>(sender_id, seq). sender_id = current_user_id \<and> seq > 0 \<and> seq \<le> observed_high_water)
          incoming)))"

fun window_gap :: "u64 list \<Rightarrow> u64 option" where
  "window_gap (a # b # rest) = (if b > a + 1 then Some a else window_gap (b # rest))"
| "window_gap _ = None"

definition first_internal_gap_after :: "u64 list \<Rightarrow> u64 option" where
  "first_internal_gap_after seqs = window_gap (sort_dedup (filter (\<lambda>seq. seq > 0) seqs))"

definition first_internal_gap_after_from :: "u64 \<Rightarrow> u64 list \<Rightarrow> u64 option" where
  "first_internal_gap_after_from base_seq seqs =
     first_internal_gap_after (sort_dedup (filter (\<lambda>seq. seq \<ge> base_seq) seqs))"

text \<open>The two \<open>match\<close> expressions of \<open>seq_repair_gap_after\<close>.\<close>

fun recent_gap_of :: "u64 option \<Rightarrow> u64 option \<Rightarrow> u64 option" where
  "recent_gap_of (Some internal) (Some tail) = Some (max internal tail)"
| "recent_gap_of (Some internal) None = Some internal"
| "recent_gap_of None (Some tail) = Some tail"
| "recent_gap_of None None = None"

fun repair_gap_of :: "u64 option \<Rightarrow> u64 option \<Rightarrow> u64 option" where
  "repair_gap_of (Some p) (Some recent) = (if recent > p then Some recent else Some p)"
| "repair_gap_of (Some p) None = Some p"
| "repair_gap_of None (Some recent) = Some recent"
| "repair_gap_of None None = None"

definition seq_repair_gap_after :: "u64 \<Rightarrow> u64 \<Rightarrow> u64 list \<Rightarrow> u64 option" where
  "seq_repair_gap_after cursor_seq local_before_seq seqs =
     (let prefix_gap = first_gap_after cursor_seq seqs;
          recent_floor = max cursor_seq local_before_seq;
          recent_internal_gap = first_internal_gap_after_from recent_floor seqs;
          recent_tail_gap = (if recent_floor > 0 then first_gap_after recent_floor seqs else None)
      in repair_gap_of prefix_gap (recent_gap_of recent_internal_gap recent_tail_gap))"

subsection \<open>Back-off and the table of repairs\<close>

definition SEQ_REPAIR_BASE_BACKOFF_MS :: u64 where "SEQ_REPAIR_BASE_BACKOFF_MS = 1000"
definition SEQ_REPAIR_MAX_BACKOFF_MS :: u64 where "SEQ_REPAIR_MAX_BACKOFF_MS = 60000"
definition SEQ_REPAIR_IDLE_TTL_MS :: u64 where "SEQ_REPAIR_IDLE_TTL_MS = 10 * 60 * 1000"
definition SEQ_REPAIR_MAX_TRACKED_CONVERSATIONS :: nat where "SEQ_REPAIR_MAX_TRACKED_CONVERSATIONS = 2048"

definition seq_repair_backoff_ms :: "u32 \<Rightarrow> u64" where
  "seq_repair_backoff_ms attempt =
     (let shift = min (sat_sub attempt 1) 6 in
      min (sat_mul SEQ_REPAIR_BASE_BACKOFF_MS (push_bit (unat shift) 1)) SEQ_REPAIR_MAX_BACKOFF_MS)"

record SeqRepairState =
  rs_in_flight :: bool
  rs_last_gap_after :: u64
  rs_last_progress_seq :: u64
  rs_attempts :: u32
  rs_next_attempt_at_ms :: u64
  rs_updated_at_ms :: u64

type_synonym repair_table = "(string \<times> SeqRepairState) list"

definition SeqRepairState_default :: SeqRepairState where
  "SeqRepairState_default =
     \<lparr>rs_in_flight = False, rs_last_gap_after = 0, rs_last_progress_seq = 0, rs_attempts = 0,
      rs_next_attempt_at_ms = 0, rs_updated_at_ms = 0\<rparr>"

definition prune_seq_repair_state :: "repair_table \<Rightarrow> u64 \<Rightarrow> repair_table" where
  "prune_seq_repair_state states now_ms =
     (let states = filter (\<lambda>(_, state).
            rs_in_flight state \<or>
            sat_add (rs_updated_at_ms state) SEQ_REPAIR_IDLE_TTL_MS > now_ms \<or>
            rs_next_attempt_at_ms state > now_ms) states
      in
      if length states \<le> SEQ_REPAIR_MAX_TRACKED_CONVERSATIONS then states
      else
        let idle_entries = map (\<lambda>(i, state). (i, rs_updated_at_ms state))
              (filter (\<lambda>(_, state). \<not> rs_in_flight state) states);
            idle_entries = sort_key snd idle_entries;
            excess = length states - SEQ_REPAIR_MAX_TRACKED_CONVERSATIONS
        in fold (\<lambda>(i, _) st. AList.delete i st) (take excess idle_entries) states)"

subsection \<open>One conversation of \<open>repair_message_seq_after_persist\<close>\<close>

text \<open>\<open>read_tail\<close> is the store's page before a sequence number (\<open>None\<close> for a failed read).\<close>

definition local_tail_seqs_before_incoming :: "(u64 \<Rightarrow> nat \<Rightarrow> u64 list option) \<Rightarrow> u64 \<Rightarrow> u64 list" where
  "local_tail_seqs_before_incoming read_tail min_incoming_seq =
     (if min_incoming_seq \<le> 1 then []
      else
        (case read_tail min_incoming_seq 100 of
           Some seqs \<Rightarrow> sort_dedup (filter (\<lambda>seq. seq > 0) seqs)
         | None \<Rightarrow> []))"

text \<open>The window of known sequence numbers; \<open>applied above upto\<close> are the applied operation events.\<close>

definition continuity_window ::
  "(u64 \<Rightarrow> nat \<Rightarrow> u64 list option) \<Rightarrow> (u64 \<Rightarrow> u64 \<Rightarrow> u64 list) \<Rightarrow> u64 \<Rightarrow> u64 list \<Rightarrow> u64 list \<times> u64" where
  "continuity_window read_tail applied cursor_seq seqs =
     (let min_incoming_seq = (case seqs of [] \<Rightarrow> 0 | s # _ \<Rightarrow> s);
          local_tail_seqs = local_tail_seqs_before_incoming read_tail min_incoming_seq;
          local_before_seq = (if local_tail_seqs = [] then 0 else last local_tail_seqs);
          upto = (if seqs = [] then - 1 else last seqs)
      in (sort_dedup (local_tail_seqs @ seqs @ applied cursor_seq upto), local_before_seq))"

datatype repair_outcome =
    GapClosed
  | NoRunner
  | TableFull
  | AlreadyInFlight
  | BackingOff
  | RepairStarted u64

text \<open>
  The part under the lock of the table, once a gap was found: the new table and what was decided.
\<close>

definition schedule_repair ::
  "u64 \<Rightarrow> string \<Rightarrow> u64 \<Rightarrow> u64 \<Rightarrow> repair_table \<Rightarrow> repair_table \<times> repair_outcome" where
  "schedule_repair now conversation_id contiguous_seq first_gap table0 =
     (let table = prune_seq_repair_state table0 now in
      if map_of table conversation_id = None \<and> length table \<ge> SEQ_REPAIR_MAX_TRACKED_CONVERSATIONS
      then (table, TableFull)
      else
        let state = (case map_of table conversation_id of
                       Some s \<Rightarrow> s | None \<Rightarrow> SeqRepairState_default);
            state = state\<lparr>rs_updated_at_ms := now\<rparr>;
            has_progress = contiguous_seq > rs_last_progress_seq state
        in
        if rs_in_flight state then (AList.update conversation_id state table, AlreadyInFlight)
        else if rs_last_gap_after state = first_gap \<and> \<not> has_progress \<and> now < rs_next_attempt_at_ms state
        then (AList.update conversation_id state table, BackingOff)
        else
          let state = (if rs_last_gap_after state \<noteq> first_gap \<or> has_progress
                       then state\<lparr>rs_attempts := 0\<rparr> else state);
              attempt = sat_add (rs_attempts state) 1;
              state = state\<lparr>rs_in_flight := True, rs_last_gap_after := first_gap,
                rs_last_progress_seq := max (rs_last_progress_seq state) contiguous_seq,
                rs_attempts := attempt,
                rs_next_attempt_at_ms := now + seq_repair_backoff_ms attempt\<rparr>
          in (AList.update conversation_id state table, RepairStarted first_gap))"

record repair_result =
  rr_saved_cursor :: "u64 option"
  rr_table :: repair_table
  rr_outcome :: repair_outcome

definition repair_conversation ::
  "bool \<Rightarrow> u64 \<Rightarrow> (u64 \<Rightarrow> nat \<Rightarrow> u64 list option) \<Rightarrow> (u64 \<Rightarrow> u64 \<Rightarrow> u64 list) \<Rightarrow> u64 \<Rightarrow> string \<Rightarrow> u64 list
   \<Rightarrow> repair_table \<Rightarrow> repair_result" where
  "repair_conversation has_sync now read_tail applied cursor_seq conversation_id seqs0 table =
     (let seqs = sort_dedup seqs0;
          (window, local_before_seq) = continuity_window read_tail applied cursor_seq seqs;
          contiguous_seq = max_contiguous_seq cursor_seq window;
          saved = (if contiguous_seq > cursor_seq then Some contiguous_seq else None)
      in case seq_repair_gap_after cursor_seq local_before_seq window of
           Some first_gap \<Rightarrow>
             if has_sync then
               (let (table', outcome) =
                  schedule_repair now conversation_id contiguous_seq first_gap table
                in \<lparr>rr_saved_cursor = saved, rr_table = table', rr_outcome = outcome\<rparr>)
             else \<lparr>rr_saved_cursor = saved, rr_table = table, rr_outcome = NoRunner\<rparr>
         | None \<Rightarrow>
             \<lparr>rr_saved_cursor = saved, rr_table = AList.delete conversation_id table,
              rr_outcome = GapClosed\<rparr>)"

text \<open>The grouping of a batch by conversation; messages without a conversation or a number are
  skipped.\<close>

definition group_by_conversation :: "(string \<times> u64) list \<Rightarrow> (string \<times> u64 list) list" where
  "group_by_conversation messages =
     fold (\<lambda>(i, seq) groups.
        if trim i = [] \<or> seq = 0 then groups
        else AList.update i ((case map_of groups i of Some s \<Rightarrow> s | None \<Rightarrow> []) @ [seq]) groups)
       messages []"

text \<open>
  The whole pass over a stored batch: the new table of repairs and the result for every conversation
  whose cursor could be read.  \<open>read_cursor\<close> is the cursor store of the user (\<open>None\<close> for a failed
  read, \<open>Some None\<close> for no row); the regression warning of the pass only reports.
\<close>

definition repair_message_seq_after_persist ::
  "bool \<Rightarrow> u64 \<Rightarrow> string \<Rightarrow> (string \<Rightarrow> u64 option option) \<Rightarrow> (string \<Rightarrow> u64 \<Rightarrow> nat \<Rightarrow> u64 list option)
   \<Rightarrow> (string \<Rightarrow> u64 \<Rightarrow> u64 \<Rightarrow> u64 list) \<Rightarrow> (string \<times> u64) list \<Rightarrow> repair_table
   \<Rightarrow> repair_table \<times> (string \<times> repair_result) list" where
  "repair_message_seq_after_persist has_sync now user_id read_cursor read_tail applied messages table =
     (if trim user_id = [] then (table, [])
      else
        fold (\<lambda>(i, seqs) (table, results).
            (case read_cursor i of
               None \<Rightarrow> (table, results)
             | Some cursor \<Rightarrow>
                 let r = repair_conversation has_sync now (read_tail i) (applied i)
                           (case cursor of Some c \<Rightarrow> c | None \<Rightarrow> 0) i seqs table
                 in (rr_table r, results @ [(i, r)])))
          (group_by_conversation messages) (table, []))"

text \<open>The end of the background request.\<close>

definition repair_finished :: "bool \<Rightarrow> u64 \<Rightarrow> string \<Rightarrow> repair_table \<Rightarrow> repair_table" where
  "repair_finished ok now conversation_id table =
     (if ok then AList.delete conversation_id table
      else
        (case map_of table conversation_id of
           Some state \<Rightarrow>
             AList.update conversation_id (state\<lparr>rs_in_flight := False, rs_updated_at_ms := now\<rparr>) table
         | None \<Rightarrow> table))"

section \<open>Lemmas\<close>

subsection \<open>Sorted, distinct lists\<close>

lemma sorted_wrt_remdups_adj: "sorted xs \<Longrightarrow> sorted_wrt (<) (remdups_adj (xs :: 'a::linorder list))"
proof (induction xs rule: remdups_adj.induct)
  case (3 x y xs)
  show ?case
  proof (cases "x = y")
    case False
    then have "sorted_wrt (<) (remdups_adj (y # xs))" "\<forall>z\<in>set (y # xs). x < z"
      using 3 by auto
    then show ?thesis using False by simp
  qed (use 3 in simp)
qed simp_all

lemma sort_dedup_strict: "sorted_wrt (<) (sort_dedup xs)"
  by (simp add: sort_dedup_def sorted_wrt_remdups_adj)

lemma set_sort_dedup [simp]: "set (sort_dedup xs) = set xs"
  by (simp add: sort_dedup_def)

subsection \<open>Contiguity\<close>

lemma contiguous_loop_correct:
  assumes "sorted_wrt (<) xs" "\<forall>x\<in>set xs. cursor < x"
  shows "cursor \<le> contiguous_loop cursor xs \<and>
    (\<forall>s. cursor < s \<and> s \<le> contiguous_loop cursor xs \<longrightarrow> s \<in> set xs) \<and>
    (contiguous_loop cursor xs = - 1 \<or> contiguous_loop cursor xs + 1 \<notin> set xs)"
  using assms
proof (induction xs arbitrary: cursor)
  case (Cons x xs)
  have less: "cursor < x" using Cons.prems by simp
  have max: "cursor \<noteq> - 1" using less by (rule less_not_max)
  show ?case
  proof (cases "x = cursor + 1")
    case True
    let ?m = "contiguous_loop x xs"
    have eq: "contiguous_loop cursor (x # xs) = ?m" using True by simp
    have IH: "x \<le> ?m" "\<forall>s. x < s \<and> s \<le> ?m \<longrightarrow> s \<in> set xs" "?m = - 1 \<or> ?m + 1 \<notin> set xs"
      using Cons.IH [of x] Cons.prems(1) by simp_all
    have "s = x \<or> x < s" if "cursor < s" for s
      using that less_iff_succ_le [OF max, of s] True by (auto simp: order_le_less)
    then have "\<forall>s. cursor < s \<and> s \<le> ?m \<longrightarrow> s \<in> set (x # xs)" using IH(2) by auto
    moreover have "?m + 1 \<noteq> x" if "?m \<noteq> - 1" using less_succ [OF that] IH(1) by auto
    ultimately show ?thesis unfolding eq using IH(1,3) less by auto
  next
    case False
    then have big: "cursor + 1 < x"
      using less less_iff_succ_le [OF max, of x] by (auto simp: order_le_less)
    then have eq: "contiguous_loop cursor (x # xs) = cursor" using False by simp
    have "cursor + 1 \<notin> set (x # xs)" using big Cons.prems(1) by auto
    then show ?thesis unfolding eq by auto
  qed
qed auto

lemma max_contiguous_spec:
  fixes known :: u64 and seqs :: "u64 list"
  defines "m \<equiv> max_contiguous_seq known seqs"
  shows "known \<le> m"
    and "\<forall>s. known < s \<and> s \<le> m \<longrightarrow> s \<in> set seqs"
    and "m \<noteq> - 1 \<Longrightarrow> m + 1 \<notin> set seqs"
proof -
  let ?xs = "sort_dedup (filter (\<lambda>s. s > known) seqs)"
  have "\<forall>x\<in>set ?xs. known < x" by simp
  from contiguous_loop_correct [OF sort_dedup_strict this]
  have c: "known \<le> m" "\<forall>s. known < s \<and> s \<le> m \<longrightarrow> s \<in> set ?xs" "m = - 1 \<or> m + 1 \<notin> set ?xs"
    unfolding m_def max_contiguous_seq_def by blast+
  show "known \<le> m" by (rule c(1))
  show "\<forall>s. known < s \<and> s \<le> m \<longrightarrow> s \<in> set seqs" using c(2) by simp
  show "m + 1 \<notin> set seqs" if "m \<noteq> - 1"
  proof -
    have "known < m + 1" using c(1) less_succ [OF that] by (rule order_le_less_trans)
    then show ?thesis using c(3) that by simp
  qed
qed

lemma max_contiguous_greatest:
  assumes "\<forall>s. known < s \<and> s \<le> n \<longrightarrow> s \<in> set seqs"
  shows "n \<le> max_contiguous_seq known seqs"
proof (rule ccontr)
  let ?m = "max_contiguous_seq known seqs"
  assume "\<not> n \<le> ?m"
  then have less: "?m < n" by (rule not_le_imp_less)
  then have max: "?m \<noteq> - 1" by (rule less_not_max)
  have "known < ?m + 1"
    using max_contiguous_spec(1) less_succ [OF max] by (rule order_le_less_trans)
  moreover have "?m + 1 \<le> n" using less unfolding less_iff_succ_le [OF max] .
  ultimately show False using assms max_contiguous_spec(3) [OF max] by blast
qed

lemma max_contiguous_not_max:
  assumes "known \<noteq> - 1" "- 1 \<notin> set seqs"
  shows "max_contiguous_seq known seqs \<noteq> - 1"
proof
  assume m: "max_contiguous_seq known seqs = - 1"
  have "known < - 1" using assms(1) by (simp add: word_order.not_eq_extremum [symmetric])
  then have "- 1 \<in> set seqs" using max_contiguous_spec(2) [of known seqs] m by simp
  with assms(2) show False by simp
qed

text \<open>A real gap after \<open>g\<close>: the next number is missing and a later one is known.\<close>

definition gap_after :: "u64 list \<Rightarrow> u64 \<Rightarrow> bool" where
  "gap_after seqs g \<longleftrightarrow> g + 1 \<notin> set seqs \<and> list_ex (\<lambda>s. g + 1 < s) seqs"

lemma first_gap_after_eq:
  "first_gap_after known seqs =
     (if list_ex (\<lambda>s. s > max_contiguous_seq known seqs + 1) seqs
      then Some (max_contiguous_seq known seqs) else None)"
  by (simp only: first_gap_after_def Let_def)

lemma first_gap_after_Some:
  assumes "known \<noteq> - 1" "- 1 \<notin> set seqs" "first_gap_after known seqs = Some g"
  shows "known \<le> g \<and> gap_after seqs g"
proof -
  have g: "max_contiguous_seq known seqs = g" "list_ex (\<lambda>s. g + 1 < s) seqs"
    using assms(3) unfolding first_gap_after_eq by (metis option.distinct(1) option.inject)+
  have "g \<noteq> - 1" using max_contiguous_not_max [OF assms(1,2)] g(1) by blast
  then show ?thesis
    using max_contiguous_spec [of known seqs] g unfolding gap_after_def by blast
qed

lemma first_gap_after_None:
  assumes "known \<noteq> - 1" "- 1 \<notin> set seqs" "first_gap_after known seqs = None" "s \<in> set seqs"
  shows "s \<le> max_contiguous_seq known seqs"
proof -
  let ?m = "max_contiguous_seq known seqs"
  have m: "?m \<noteq> - 1" using max_contiguous_not_max [OF assms(1,2)] .
  have "\<not> list_ex (\<lambda>s. ?m + 1 < s) seqs"
    using assms(3) unfolding first_gap_after_eq by (metis option.distinct(1))
  then have "\<not> ?m + 1 < s" using assms(4) unfolding list_ex_iff by blast
  moreover have "s \<noteq> ?m + 1" using max_contiguous_spec(3) [OF m] assms(4) by blast
  ultimately have "\<not> ?m + 1 \<le> s" by (metis order_le_less)
  then show ?thesis unfolding less_iff_succ_le [OF m, symmetric] by (rule leI)
qed

lemma window_gap_Some:
  assumes "sorted_wrt (<) xs" "- 1 \<notin> set xs" "window_gap xs = Some g"
  shows "g \<in> set xs \<and> gap_after xs g"
  using assms
proof (induction xs rule: window_gap.induct)
  case (1 a b rest)
  show ?case
  proof (cases "a + 1 < b")
    case True
    then have g: "g = a" using 1(4) by simp
    have "a \<noteq> - 1" using 1(3) by (metis list.set_intros(1))
    then have "a < a + 1" by (rule less_succ)
    moreover have "\<forall>y\<in>set (b # rest). a + 1 < y"
      using 1(2) True by (simp, meson order_less_trans)
    ultimately show ?thesis
      unfolding g gap_after_def by (simp add: less_imp_neq) (metis order_less_irrefl)
  next
    case False
    then have g: "g \<in> set (b # rest)" "gap_after (b # rest) g" using 1 by simp_all
    have "a < g" using g(1) 1(2) by simp (metis order_less_trans)
    moreover have "g \<noteq> - 1" using g(1) 1(3) by (metis list.set_intros(2))
    ultimately have "a < g + 1" using less_succ [of g] by (meson order_less_trans)
    then have "g + 1 \<noteq> a" by (metis order_less_irrefl)
    with g show ?thesis by (simp add: gap_after_def)
  qed
qed simp_all

lemma internal_gap_Some:
  assumes "- 1 \<notin> set seqs" "first_internal_gap_after_from base seqs = Some g"
  shows "base \<le> g \<and> gap_after seqs g"
proof -
  let ?ys = "filter (\<lambda>s. 0 < s) (sort_dedup (filter (\<lambda>s. base \<le> s) seqs))"
  have g: "g \<in> set (sort_dedup ?ys)" "gap_after (sort_dedup ?ys) g"
    using window_gap_Some [OF sort_dedup_strict, of ?ys g] assms
    by (simp_all add: first_internal_gap_after_from_def first_internal_gap_after_def)
  then have "base \<le> g" "g \<noteq> - 1" using assms(1) by auto
  then have "base \<le> g + 1" "0 < g + 1" using less_succ [of g] by (auto intro: order_le_less_trans)
  then show ?thesis using g(2) \<open>base \<le> g\<close> by (auto simp: gap_after_def list_ex_iff)
qed

lemma pred_optionI: "(\<And>h. x = Some h \<Longrightarrow> P h) \<Longrightarrow> pred_option P x"
  by (cases x) simp_all

text \<open>Whatever holds of every candidate holds of the chosen one.\<close>

lemma gap_choice:
  assumes "pred_option P p" "pred_option P i" "pred_option P t"
  shows "pred_option P (repair_gap_of p (recent_gap_of i t))"
  using assms by (cases p; cases i; cases t) (simp_all add: max_def)

lemma seq_repair_gap_Some:
  assumes "cursor \<noteq> - 1" "local_before \<noteq> - 1" "- 1 \<notin> set seqs"
    and "seq_repair_gap_after cursor local_before seqs = Some g"
  shows "cursor \<le> g \<and> gap_after seqs g"
proof -
  let ?floor = "max cursor local_before"
  have floor: "?floor \<noteq> - 1" using assms(1,2) by (simp add: max_def)
  have above: "cursor \<le> h \<and> Q" if "?floor \<le> h \<and> Q" for h Q using that by simp
  have p: "cursor \<le> h \<and> gap_after seqs h" if "first_gap_after cursor seqs = Some h" for h
    by (rule first_gap_after_Some [OF assms(1,3) that])
  have i: "cursor \<le> h \<and> gap_after seqs h" if "first_internal_gap_after_from ?floor seqs = Some h" for h
    by (rule above [OF internal_gap_Some [OF assms(3) that]])
  have t: "cursor \<le> h \<and> gap_after seqs h" if "first_gap_after ?floor seqs = Some h" for h
    by (rule above [OF first_gap_after_Some [OF floor assms(3) that]])
  let ?P = "\<lambda>h. cursor \<le> h \<and> gap_after seqs h"
  have "pred_option ?P (first_gap_after cursor seqs)" by (rule pred_optionI [OF p])
  moreover have "pred_option ?P (first_internal_gap_after_from ?floor seqs)" by (rule pred_optionI [OF i])
  moreover have "pred_option ?P (if ?floor > 0 then first_gap_after ?floor seqs else None)"
    by (rule pred_optionI) (metis option.distinct(1) t)
  ultimately have "pred_option ?P (seq_repair_gap_after cursor local_before seqs)"
    unfolding seq_repair_gap_after_def Let_def by (rule gap_choice)
  then show ?thesis by (simp add: assms(4))
qed

lemma seq_repair_gap_None:
  assumes "cursor \<noteq> - 1" "- 1 \<notin> set seqs" "seq_repair_gap_after cursor local_before seqs = None"
    and "s \<in> set seqs"
  shows "s \<le> max_contiguous_seq cursor seqs"
proof -
  have "p = None" if "repair_gap_of p q = None" for p q using that by (cases p; cases q) (auto split: if_splits)
  then have "first_gap_after cursor seqs = None"
    using assms(3) unfolding seq_repair_gap_after_def Let_def by blast
  then show ?thesis using first_gap_after_None assms by blast
qed

subsection \<open>Back-off\<close>

lemma backoff_cases:
  "seq_repair_backoff_ms attempt =
     of_nat (min (1000 * 2 ^ min (unat attempt - 1) 6) 60000)"
proof -
  have le: "min (unat attempt - 1) 6 \<le> 6" by simp
  let ?n = "min (unat attempt - 1) 6"
  have shift: "unat (min (sat_sub attempt 1) 6) = ?n"
    by (simp add: unat_min_word sat_simps)
  have "?n \<in> {0, 1, 2, 3, 4, 5, 6}" using le by (simp add: min_def) linarith
  then show ?thesis
    unfolding seq_repair_backoff_ms_def Let_def shift SEQ_REPAIR_BASE_BACKOFF_MS_def
      SEQ_REPAIR_MAX_BACKOFF_MS_def
    by (elim insertE emptyE; hypsubst?; simp add: sat_mul_def push_bit_eq_mult)
qed

lemma unat_backoff: "unat (seq_repair_backoff_ms attempt) = min (1000 * 2 ^ min (unat attempt - 1) 6) 60000"
proof -
  have "min (1000 * 2 ^ min (unat attempt - 1) 6) 60000 < (2 :: nat) ^ LENGTH(64)"
    by (rule order_le_less_trans [of _ 60000]) simp_all
  then show ?thesis unfolding backoff_cases by (simp add: unat_of_nat)
qed

lemma backoff_mono: "a \<le> b \<Longrightarrow> seq_repair_backoff_ms a \<le> seq_repair_backoff_ms b"
proof -
  assume "a \<le> b"
  then have "unat a \<le> unat b" by (simp add: word_le_nat_alt)
  then have "(2 :: nat) ^ min (unat a - 1) 6 \<le> 2 ^ min (unat b - 1) 6"
    by (intro power_increasing) auto
  then show ?thesis unfolding word_le_nat_alt unat_backoff by (intro min.mono mult_le_mono) simp_all
qed

subsection \<open>The table of repairs\<close>

lemma map_of_fold_delete:
  "map_of (fold (\<lambda>(i, _) st. AList.delete i st) es st) k =
     (if k \<in> fst ` set es then None else map_of st k)"
proof (induction es arbitrary: st)
  case (Cons e es)
  then show ?case by (cases e) (auto simp: delete_conv')
qed simp

lemma prune_keeps_in_flight:
  assumes "distinct (map fst table)" "map_of table k = Some st" "rs_in_flight st"
  shows "map_of (prune_seq_repair_state table now) k = Some st"
proof -
  define kept where "kept = filter (\<lambda>(_, state). rs_in_flight state \<or>
      sat_add (rs_updated_at_ms state) SEQ_REPAIR_IDLE_TTL_MS > now \<or>
      rs_next_attempt_at_ms state > now) table"
  have in_kept: "map_of kept k = Some st"
    unfolding kept_def by (rule map_of_filter_in [OF assms(2)]) (simp add: assms(3))
  have "distinct (map fst kept)" using assms(1) by (simp add: kept_def distinct_map_filter)
  then have uniq: "st' = st" if "(k, st') \<in> set kept" for st'
    using that in_kept by (simp add: map_of_eq_Some_iff)
  define idle where "idle = sort_key snd (map (\<lambda>(i, state). (i, rs_updated_at_ms state))
      (filter (\<lambda>(_, state). \<not> rs_in_flight state) kept))"
  have "k \<notin> fst ` set idle" using uniq assms(3) by (auto simp: idle_def)
  then have "k \<notin> fst ` set (take n idle)" for n using set_take_subset by fastforce
  with in_kept show ?thesis
    unfolding prune_seq_repair_state_def Let_def kept_def [symmetric] idle_def [symmetric]
    by (simp add: map_of_fold_delete)
qed

lemma schedule_in_flight:
  assumes "distinct (map fst table)" "map_of table k = Some st" "rs_in_flight st"
  shows "snd (schedule_repair now k contiguous gap table) = AlreadyInFlight"
  using prune_keeps_in_flight [OF assms] assms(3) by (simp add: schedule_repair_def Let_def)

lemma distinct_fold_delete:
  "distinct (map fst st) \<Longrightarrow> distinct (map fst (fold (\<lambda>(i, _) st. AList.delete i st) es st))"
  by (induction es arbitrary: st) (auto simp: distinct_delete)

lemma distinct_prune: "distinct (map fst table) \<Longrightarrow> distinct (map fst (prune_seq_repair_state table now))"
  by (simp add: prune_seq_repair_state_def Let_def distinct_fold_delete distinct_map_filter)

lemma distinct_schedule:
  "distinct (map fst table) \<Longrightarrow> distinct (map fst (fst (schedule_repair now k contiguous gap table)))"
  by (simp add: schedule_repair_def Let_def distinct_prune distinct_update)

lemma distinct_repair_conversation:
  assumes "distinct (map fst table)"
  shows "distinct (map fst (rr_table (repair_conversation has_sync now read_tail applied cursor k seqs table)))"
  using assms distinct_schedule [OF assms]
  by (auto simp: repair_conversation_def Let_def distinct_delete split: prod.splits option.splits)
    (metis fst_conv)

lemma distinct_repair_pass:
  assumes "distinct (map fst table)"
  shows "distinct (map fst (fst (repair_message_seq_after_persist has_sync now user_id read_cursor
     read_tail applied messages table)))"
proof -
  let ?step = "\<lambda>(i, seqs) (table, results).
      (case read_cursor i of
         None \<Rightarrow> (table, results)
       | Some cursor \<Rightarrow>
           let r = repair_conversation has_sync now (read_tail i) (applied i)
                     (case cursor of Some c \<Rightarrow> c | None \<Rightarrow> 0) i seqs table
           in (rr_table r, results @ [(i, r)]))"
  have "distinct (map fst (fst (fold ?step groups (table, results))))" if "distinct (map fst table)"
    for groups results table
    using that
  proof (induction groups arbitrary: table results)
    case (Cons g gs)
    then show ?case
      by (cases g) (auto simp: Let_def distinct_repair_conversation split: option.split)
  qed simp
  with assms show ?thesis by (simp add: repair_message_seq_after_persist_def)
qed

lemma distinct_repair_finished:
  "distinct (map fst table) \<Longrightarrow> distinct (map fst (repair_finished ok now k table))"
  by (auto simp: repair_finished_def distinct_delete distinct_update split: option.split)

text \<open>The tables the dispatcher can be in: stored batches and finished requests in any order.\<close>

inductive repair_reachable :: "repair_table \<Rightarrow> bool" where
  start: "repair_reachable []"
| stored: "repair_reachable table \<Longrightarrow>
    repair_reachable (fst (repair_message_seq_after_persist has_sync now user_id read_cursor
      read_tail applied messages table))"
| finished: "repair_reachable table \<Longrightarrow> repair_reachable (repair_finished ok now k table)"

lemma repair_reachable_distinct: "repair_reachable table \<Longrightarrow> distinct (map fst table)"
  by (induction rule: repair_reachable.induct) (simp_all add: distinct_repair_pass distinct_repair_finished)

lemma schedule_started:
  assumes "schedule_repair now k contiguous gap table = (table', RepairStarted g)"
  shows "g = gap \<and> (\<exists>st. map_of table' k = Some st \<and> rs_in_flight st \<and> rs_last_gap_after st = gap \<and>
    rs_next_attempt_at_ms st = now + seq_repair_backoff_ms (rs_attempts st))"
  using assms
  by (auto simp: schedule_repair_def Let_def update_conv' split: if_splits)

subsection \<open>One conversation\<close>

lemma continuity_window_set:
  assumes "continuity_window read_tail applied cursor seqs = (window, before)"
  shows "set window = set (local_tail_seqs_before_incoming read_tail (case seqs of [] \<Rightarrow> 0 | s # _ \<Rightarrow> s))
    \<union> set seqs \<union> set (applied cursor (if seqs = [] then - 1 else last seqs))"
  using assms by (auto simp: continuity_window_def Let_def)

lemma repair_saved:
  assumes "rr_saved_cursor (repair_conversation has_sync now read_tail applied cursor k seqs table) = Some c"
    and "continuity_window read_tail applied cursor (sort_dedup seqs) = (window, before)"
  shows "c = max_contiguous_seq cursor window \<and> cursor < c"
  using assms
  by (auto simp: repair_conversation_def Let_def split: option.splits if_splits prod.splits)

lemma repair_not_saved:
  assumes "rr_saved_cursor (repair_conversation has_sync now read_tail applied cursor k seqs table) = None"
    and "continuity_window read_tail applied cursor (sort_dedup seqs) = (window, before)"
  shows "max_contiguous_seq cursor window = cursor"
  using assms max_contiguous_spec(1) [of cursor window]
  by (auto simp: repair_conversation_def Let_def split: option.splits if_splits prod.splits)

lemma repair_outcome_started:
  assumes "rr_outcome (repair_conversation has_sync now read_tail applied cursor k seqs table) = RepairStarted g"
    and "continuity_window read_tail applied cursor (sort_dedup seqs) = (window, before)"
  shows "seq_repair_gap_after cursor before window = Some g"
  using assms schedule_started
  by (fastforce simp: repair_conversation_def Let_def split: option.splits if_splits prod.splits)

lemma repair_outcome_closed:
  assumes "rr_outcome (repair_conversation has_sync now read_tail applied cursor k seqs table) = GapClosed"
    and "continuity_window read_tail applied cursor (sort_dedup seqs) = (window, before)"
  shows "seq_repair_gap_after cursor before window = None"
  using assms
  by (auto simp: repair_conversation_def Let_def schedule_repair_def
      split: option.splits if_splits prod.splits)

text \<open>A batch with 6 and 8 above the cursor 5, evaluated.\<close>

lemma repair_example:
  "repair_conversation True 1000 (\<lambda>_ _. Some [5]) (\<lambda>_ _. []) 5 ''c'' [8, 6] [] =
     \<lparr>rr_saved_cursor = Some 6,
      rr_table = [(''c'', \<lparr>rs_in_flight = True, rs_last_gap_after = 6, rs_last_progress_seq = 6, rs_attempts = 1,
        rs_next_attempt_at_ms = 2000, rs_updated_at_ms = 1000\<rparr>)],
      rr_outcome = RepairStarted 6\<rparr>"
  by (simp add: repair_conversation_def continuity_window_def local_tail_seqs_before_incoming_def
      sort_dedup_def Let_def max_contiguous_seq_def seq_repair_gap_after_def first_gap_after_def
      first_internal_gap_after_from_def first_internal_gap_after_def schedule_repair_def
      prune_seq_repair_state_def SeqRepairState_default_def SEQ_REPAIR_MAX_TRACKED_CONVERSATIONS_def
      seq_repair_backoff_ms_def SEQ_REPAIR_BASE_BACKOFF_MS_def SEQ_REPAIR_MAX_BACKOFF_MS_def sat_add_def sat_sub_def sat_mul_def word_le_def word_less_def)

section \<open>Properties\<close>

text \<open>\<open>max_contiguous_seq\<close> is the greatest number up to which every sequence number after the
  known one is present.\<close>

theorem max_contiguous_exact:
  "known \<le> max_contiguous_seq known seqs \<and>
   (\<forall>s. known < s \<and> s \<le> max_contiguous_seq known seqs \<longrightarrow> s \<in> set seqs) \<and>
   (\<forall>n. (\<forall>s. known < s \<and> s \<le> n \<longrightarrow> s \<in> set seqs) \<longrightarrow> n \<le> max_contiguous_seq known seqs)"
  using max_contiguous_spec [of known seqs] max_contiguous_greatest [of known _ seqs] by blast

theorem max_contiguous_exact_witness:
  "max_contiguous_seq 4 [9, 6, 5, 2, 5] = 6 \<and> 6 \<in> set [9, 6, 5, 2, 5 :: u64]"
proof -
  have m: "max_contiguous_seq 4 [9, 6, 5, 2, 5] = 6" by code_simp
  have "(4 :: u64) < 6 \<and> (6 :: u64) \<le> 6" by code_simp
  then show ?thesis using max_contiguous_exact [of 4 "[9, 6, 5, 2, 5]"] m by metis
qed

text \<open>C13. After a batch is stored, the cursor of a conversation only moves forward and only over
  sequence numbers that are stored, incoming or applied events; a repair request is issued only
  for a real hole at or above the cursor (the next number is unknown and a later one is known);
  and when no repair is wanted every known number is covered up to the contiguous mark.\<close>

theorem seq_repair_sound:
  assumes "continuity_window read_tail applied cursor (sort_dedup seqs) = (window, before)"
    and "cursor \<noteq> - 1" "before \<noteq> - 1" "- 1 \<notin> set window"
    and "r = repair_conversation has_sync now read_tail applied cursor conversation seqs table"
  shows "(case rr_saved_cursor r of
       Some c \<Rightarrow> cursor < c \<and> (\<forall>s. cursor < s \<and> s \<le> c \<longrightarrow> s \<in> set window)
     | None \<Rightarrow> max_contiguous_seq cursor window = cursor) \<and>
    (case rr_outcome r of
       RepairStarted g \<Rightarrow> cursor \<le> g \<and> gap_after window g
     | GapClosed \<Rightarrow> (\<forall>s\<in>set window. s \<le> max_contiguous_seq cursor window)
     | _ \<Rightarrow> True)"
proof (rule conjI)
  show "case rr_saved_cursor r of
       Some c \<Rightarrow> cursor < c \<and> (\<forall>s. cursor < s \<and> s \<le> c \<longrightarrow> s \<in> set window)
     | None \<Rightarrow> max_contiguous_seq cursor window = cursor"
  proof (cases "rr_saved_cursor r")
    case None
    then show ?thesis using repair_not_saved [OF _ assms(1)] unfolding assms(5) by simp
  next
    case (Some c)
    then have "c = max_contiguous_seq cursor window \<and> cursor < c"
      using repair_saved [OF _ assms(1)] unfolding assms(5) by simp
    then show ?thesis unfolding Some option.case using max_contiguous_spec(2) [of cursor window] by blast
  qed
next
  show "case rr_outcome r of
       RepairStarted g \<Rightarrow> cursor \<le> g \<and> gap_after window g
     | GapClosed \<Rightarrow> (\<forall>s\<in>set window. s \<le> max_contiguous_seq cursor window)
     | _ \<Rightarrow> True"
  proof (cases "rr_outcome r")
    case (RepairStarted g)
    then have "seq_repair_gap_after cursor before window = Some g"
      using repair_outcome_started [OF _ assms(1)] unfolding assms(5) by simp
    then show ?thesis using RepairStarted seq_repair_gap_Some [OF assms(2-4)] by simp
  next
    case GapClosed
    then have "seq_repair_gap_after cursor before window = None"
      using repair_outcome_closed [OF _ assms(1)] unfolding assms(5) by simp
    then show ?thesis using GapClosed seq_repair_gap_None [OF assms(2,4)] by simp
  qed simp_all
qed

text \<open>Number 7 is missing: the cursor advances over 6 and a repair after 6 starts.\<close>

theorem seq_repair_sound_witness:
  "gap_after [5, 6, 8] 6 \<and>
   rr_saved_cursor (repair_conversation True 1000 (\<lambda>_ _. Some [5]) (\<lambda>_ _. []) 5 ''c'' [8, 6] []) = Some 6"
proof -
  let ?r = "repair_conversation True 1000 (\<lambda>_ _. Some [5]) (\<lambda>_ _. []) 5 ''c'' [8, 6] []"
  have w: "continuity_window (\<lambda>_ _. Some [5]) (\<lambda>_ _. []) 5 (sort_dedup [8, 6]) = ([5, 6, 8], 5)"
    by (simp add: continuity_window_def local_tail_seqs_before_incoming_def sort_dedup_def Let_def word_le_def)
  have h: "(5 :: u64) \<noteq> - 1" "- 1 \<notin> set [5, 6, 8 :: u64]" by code_simp+
  have r: "rr_outcome ?r = RepairStarted 6" "rr_saved_cursor ?r = Some 6" by (simp_all add: repair_example)
  show ?thesis using seq_repair_sound [OF w h(1) h(1) h(2) refl [of ?r]] r by simp
qed



end
