(* ===== verification/Compare.thy ===== *)
theory Compare
  imports Prelude "HOL-Library.List_Lexorder" "HOL-Library.Char_ord" "HOL-Library.Multiset"
begin

text \<open>
  Orderings of the standard library: \<open>cmp::Ordering\<close>, \<open>Ord::cmp\<close>, \<open>then_with\<close>, \<open>slice::sort_by\<close>
  (stable) and \<open>Iterator::position\<close>.  Strings compare byte by byte, as \<open>str\<close> does.

  The locale \<open>comparison_on\<close> is what \<open>sort_by\<close> asks of its comparison on the elements of the
  slice: it gives that the result is sorted.  Rust leaves the order unspecified (and may panic)
  when the comparison breaks these laws; \<open>sort_by\<close> below is then only some permutation.
\<close>

section \<open>Definitions\<close>

datatype Ordering = OLess | OEqual | OGreater

fun reverse_ordering :: "Ordering \<Rightarrow> Ordering" where
  "reverse_ordering OLess = OGreater"
| "reverse_ordering OEqual = OEqual"
| "reverse_ordering OGreater = OLess"

fun then_with :: "Ordering \<Rightarrow> Ordering \<Rightarrow> Ordering" where
  "then_with OEqual o' = o'"
| "then_with o1 o' = o1"

definition cmp :: "'a::linorder \<Rightarrow> 'a \<Rightarrow> Ordering" where
  "cmp a b = (if a < b then OLess else if a = b then OEqual else OGreater)"

fun insort_by :: "('a \<Rightarrow> 'a \<Rightarrow> Ordering) \<Rightarrow> 'a \<Rightarrow> 'a list \<Rightarrow> 'a list" where
  "insort_by c x [] = [x]"
| "insort_by c x (y # ys) = (if c x y = OGreater then y # insort_by c x ys else x # y # ys)"

definition sort_by :: "('a \<Rightarrow> 'a \<Rightarrow> Ordering) \<Rightarrow> 'a list \<Rightarrow> 'a list" where
  "sort_by c xs = foldr (insort_by c) xs []"

definition sorted_by :: "('a \<Rightarrow> 'a \<Rightarrow> Ordering) \<Rightarrow> 'a list \<Rightarrow> bool" where
  "sorted_by c xs \<longleftrightarrow> sorted_wrt (\<lambda>a b. c a b \<noteq> OGreater) xs"

text \<open>\<open>windows(2).all(|pair| \<dots>.is_le())\<close>.\<close>

fun adjacent_le :: "('a \<Rightarrow> 'a \<Rightarrow> Ordering) \<Rightarrow> 'a list \<Rightarrow> bool" where
  "adjacent_le c (a # b # xs) \<longleftrightarrow> c a b \<noteq> OGreater \<and> adjacent_le c (b # xs)"
| "adjacent_le c xs \<longleftrightarrow> True"

fun position :: "('a \<Rightarrow> bool) \<Rightarrow> 'a list \<Rightarrow> nat option" where
  "position P [] = None"
| "position P (x # xs) = (if P x then Some 0 else map_option Suc (position P xs))"

definition rposition :: "('a \<Rightarrow> bool) \<Rightarrow> 'a list \<Rightarrow> nat option" where
  "rposition P xs = map_option (\<lambda>i. length xs - 1 - i) (position P (rev xs))"

section \<open>Lemmas\<close>

lemma reverse_reverse [simp]: "reverse_ordering (reverse_ordering o1) = o1"
  by (cases o1) simp_all

lemma reverse_eq_iff [simp]:
  "reverse_ordering o1 = OEqual \<longleftrightarrow> o1 = OEqual"
  "reverse_ordering o1 = OLess \<longleftrightarrow> o1 = OGreater"
  "reverse_ordering o1 = OGreater \<longleftrightarrow> o1 = OLess"
  by (cases o1; simp)+

lemma reverse_then [simp]:
  "reverse_ordering (then_with o1 o2) = then_with (reverse_ordering o1) (reverse_ordering o2)"
  by (cases o1) simp_all

lemma cmp_simps [simp]:
  "cmp a a = OEqual"
  "cmp a b = OEqual \<longleftrightarrow> a = b"
  "cmp a b = OLess \<longleftrightarrow> a < b"
  "cmp a b = OGreater \<longleftrightarrow> b < a"
  by (auto simp: cmp_def)

lemma cmp_reverse: "cmp b a = reverse_ordering (cmp a b)"
  by (auto simp: cmp_def)

lemma then_with_neq_Greater:
  "then_with o1 o2 \<noteq> OGreater \<longleftrightarrow> o1 = OLess \<or> o1 = OEqual \<and> o2 \<noteq> OGreater"
  by (cases o1) simp_all

lemma mset_insort_by [simp]: "mset (insort_by c x xs) = add_mset x (mset xs)"
  by (induction xs) auto

lemma mset_sort_by [simp]: "mset (sort_by c xs) = mset xs"
  by (induction xs) (simp_all add: sort_by_def)

lemma set_sort_by [simp]: "set (sort_by c xs) = set xs"
  using mset_sort_by by (metis set_mset_mset)

lemma length_sort_by [simp]: "length (sort_by c xs) = length xs"
  using mset_sort_by by (metis size_mset)

lemma distinct_map_sort_by [simp]: "distinct (map f (sort_by c xs)) \<longleftrightarrow> distinct (map f xs)"
  by (metis mset_map mset_sort_by mset_eq_imp_distinct_iff)

lemma adjacent_le_Cons:
  "adjacent_le c (a # xs) \<longleftrightarrow> (case xs of [] \<Rightarrow> True | b # _ \<Rightarrow> c a b \<noteq> OGreater) \<and> adjacent_le c xs"
  by (cases xs) simp_all

lemma position_Some: "position P xs = Some i \<Longrightarrow> i < length xs \<and> P (xs ! i) \<and> (\<forall>j<i. \<not> P (xs ! j))"
proof (induction xs arbitrary: i)
  case (Cons x xs)
  show ?case
  proof (cases "P x")
    case False
    then obtain k where k: "position P xs = Some k" "i = Suc k" using Cons.prems by auto
    show ?thesis using Cons.IH [OF k(1)] False k(2) by (auto simp: nth_Cons split: nat.split)
  qed (use Cons in auto)
qed simp

lemma position_None: "position P xs = None \<longleftrightarrow> (\<forall>x\<in>set xs. \<not> P x)"
  by (induction xs) auto

lemma position_split:
  assumes "position P xs = Some i"
  shows "xs = take i xs @ xs ! i # drop (Suc i) xs" "\<forall>x\<in>set (take i xs). \<not> P x" "P (xs ! i)"
  using position_Some [OF assms] by (auto simp: id_take_nth_drop [symmetric] in_set_conv_nth)

lemma rposition_Some:
  assumes "rposition P xs = Some i"
  shows "i < length xs \<and> P (xs ! i) \<and> (\<forall>x\<in>set (drop (Suc i) xs). \<not> P x)"
proof -
  from assms obtain k where k: "position P (rev xs) = Some k" "i = length xs - 1 - k"
    by (auto simp: rposition_def)
  have p: "k < length xs" "P (rev xs ! k)" "\<forall>j<k. \<not> P (rev xs ! j)"
    using position_Some [OF k(1)] by auto
  have "\<not> P (xs ! j)" if "i < j" "j < length xs" for j
  proof -
    have "length xs - 1 - j < k" "length xs - 1 - j < length xs" "length xs - Suc (length xs - 1 - j) = j"
      using p(1) that k(2) by linarith+
    then show ?thesis using p(3) by (metis rev_nth)
  qed
  then have "\<forall>x\<in>set (drop (Suc i) xs). \<not> P x" by (auto simp: in_set_conv_nth)
  then show ?thesis using p(1,2) k(2) by (auto simp: rev_nth)
qed

lemma rposition_None: "rposition P xs = None \<longleftrightarrow> (\<forall>x\<in>set xs. \<not> P x)"
  by (simp add: rposition_def position_None)

subsection \<open>Comparisons that order a set of elements\<close>

locale comparison_on =
  fixes dom :: "'a set"
    and c :: "'a \<Rightarrow> 'a \<Rightarrow> Ordering"
  assumes swap: "a \<in> dom \<Longrightarrow> b \<in> dom \<Longrightarrow> c b a = reverse_ordering (c a b)"
    and trans: "x \<in> dom \<Longrightarrow> y \<in> dom \<Longrightarrow> z \<in> dom \<Longrightarrow>
      c x y \<noteq> OGreater \<Longrightarrow> c y z \<noteq> OGreater \<Longrightarrow> c x z \<noteq> OGreater"
begin

lemma equal_split:
  assumes "x \<in> dom" "y \<in> dom" "z \<in> dom" "c x y \<noteq> OGreater" "c y z \<noteq> OGreater" "c x z = OEqual"
  shows "c x y = OEqual" "c y z = OEqual"
proof -
  have zx: "c z x \<noteq> OGreater" using swap [OF assms(1,3)] assms(6) by simp
  have "c z y \<noteq> OGreater" using trans [OF assms(3,1,2) zx assms(4)] .
  then show "c y z = OEqual" using swap [OF assms(2,3)] assms(5) by (cases "c y z") auto
  have "c y x \<noteq> OGreater" using trans [OF assms(2,3,1) assms(5) zx] .
  then show "c x y = OEqual" using swap [OF assms(1,2)] assms(4) by (cases "c x y") auto
qed

lemma sorted_insort_by:
  assumes "set (x # xs) \<subseteq> dom" "sorted_by c xs"
  shows "sorted_by c (insort_by c x xs)"
  using assms
proof (induction xs)
  case (Cons y ys)
  show ?case
  proof (cases "c x y = OGreater")
    case True
    then have yx: "c y x \<noteq> OGreater" using swap [of x y] Cons.prems(1) by simp
    have "set (insort_by c x ys) = insert x (set ys)"
      using mset_insort_by [of c x ys] by (metis set_mset_add_mset_insert set_mset_mset)
    moreover have "sorted_by c (insort_by c x ys)"
      using Cons by (simp add: sorted_by_def)
    ultimately show ?thesis using True yx Cons.prems(2) by (auto simp: sorted_by_def)
  next
    case False
    then have "c x z \<noteq> OGreater" if "z \<in> set ys" for z
      using trans [of x y z] Cons.prems that by (auto simp: sorted_by_def)
    then show ?thesis using False Cons.prems by (simp add: sorted_by_def)
  qed
qed (simp add: sorted_by_def)

lemma sorted_sort_by: "set xs \<subseteq> dom \<Longrightarrow> sorted_by c (sort_by c xs)"
proof (induction xs)
  case (Cons x xs)
  then have "sorted_by c (sort_by c xs)" "set (x # sort_by c xs) \<subseteq> dom" by auto
  then show ?case using sorted_insort_by [of x "sort_by c xs"] by (simp add: sort_by_def)
qed (simp add: sort_by_def sorted_by_def)

lemma adjacent_le_sorted: "set xs \<subseteq> dom \<Longrightarrow> adjacent_le c xs \<longleftrightarrow> sorted_by c xs"
proof (induction xs)
  case (Cons x xs)
  show ?case
  proof (cases xs)
    case (Cons y ys)
    then show ?thesis using Cons.IH Cons.prems trans [of x y] unfolding sorted_by_def
      by (auto simp: adjacent_le_Cons)
  qed (simp add: sorted_by_def)
qed (simp add: sorted_by_def)

end

text \<open>Comparing by a key, and by one key after another.\<close>

lemma comparison_on_key: "comparison_on D (\<lambda>a b. cmp (f a) (f b))"
  by unfold_locales (auto simp: cmp_reverse [symmetric])

lemma comparison_on_then:
  assumes "comparison_on D c1" "comparison_on D c2"
  shows "comparison_on D (\<lambda>a b. then_with (c1 a b) (c2 a b))"
proof
  fix a b assume "a \<in> D" "b \<in> D"
  then have "c1 b a = reverse_ordering (c1 a b)" "c2 b a = reverse_ordering (c2 a b)"
    using comparison_on.swap [OF assms(1)] comparison_on.swap [OF assms(2)] by blast+
  then show "then_with (c1 b a) (c2 b a) = reverse_ordering (then_with (c1 a b) (c2 a b))"
    by (simp only: reverse_then)
next
  fix x y z assume d: "x \<in> D" "y \<in> D" "z \<in> D"
    and xy: "then_with (c1 x y) (c2 x y) \<noteq> OGreater" and yz: "then_with (c1 y z) (c2 y z) \<noteq> OGreater"
  have le1: "c1 x y \<noteq> OGreater" "c1 y z \<noteq> OGreater" using xy yz by (auto simp: then_with_neq_Greater)
  have xz: "c1 x z \<noteq> OGreater" by (rule comparison_on.trans [OF assms(1) d le1])
  show "then_with (c1 x z) (c2 x z) \<noteq> OGreater"
  proof (cases "c1 x z = OEqual")
    case True
    then have e: "c1 x y = OEqual" "c1 y z = OEqual"
      using comparison_on.equal_split [OF assms(1) d le1] by simp_all
    have le2: "c2 x y \<noteq> OGreater" "c2 y z \<noteq> OGreater"
      using xy yz unfolding e by simp_all
    show ?thesis using comparison_on.trans [OF assms(2) d le2] unfolding True by simp
  next
    case False
    then show ?thesis using xz by (cases "c1 x z") simp_all
  qed
qed

lemma comparison_on_cong:
  assumes "comparison_on D c1" "\<And>a b. a \<in> D \<Longrightarrow> b \<in> D \<Longrightarrow> c2 a b = c1 a b"
  shows "comparison_on D c2"
  using assms unfolding comparison_on_def by metis

text \<open>The comparison of \<open>Ord\<close> itself.\<close>

interpretation ord_cmp: comparison_on UNIV "cmp :: 'a::linorder \<Rightarrow> 'a \<Rightarrow> Ordering"
  using comparison_on_key [of UNIV "\<lambda>x. x"] .

end
