(* ===== verification/Message_Model.thy ===== *)
theory Message_Model
  imports Display_Name Compare
begin

text \<open>
  The message of the SDK (\<open>model/message.rs\<close>): its record, row keys, sort times, the timeline
  comparison, the attributes that never cross the wire, and the reaction projection.

  \<^item> The decoded content \<open>Elem\<close> is a type parameter; the sub-messages that are only carried
    (retention policy and state, push info) are their encoded bytes.
  \<^item> JSON printing and reading of reactions (\<open>serde_json\<close>) are parameters.
  \<^item> The lemmas show when the timeline comparison is an order (every row has a sequence number or
    waits for its acknowledgement) and that it is none in general, and that the reaction
    projection is a canonical form of a set of (emoji, user) pairs.
\<close>

section \<open>Definitions\<close>

subsection \<open>The message\<close>

record ReactionEntry =
  re_emoji :: string
  re_user_ids :: "string list"
  re_count :: u32

record MessageLocalState =
  ls_sending :: bool
  ls_failed :: bool
  ls_is_local :: bool
  ls_uploading :: bool
  ls_upload_progress :: u32
  ls_sort_ts :: u64

record 'e IMMessage =
  im_server_id :: string
  im_client_msg_id :: string
  im_conversation_id :: string
  im_conversation_type :: int
  im_channel_id :: string
  im_sender_id :: string
  im_source :: int
  im_conversation_seq :: u64
  im_created_at :: u64
  im_client_created_at :: u64
  im_message_type :: int
  im_content :: "'e option"
  im_encoded_content :: string
  im_text_preview :: string
  im_sender_name :: string
  im_sender_avatar :: string
  im_sender_display_name :: string
  im_sender :: DisplayName
  im_reply_to :: "string option"
  im_quote_preview :: "string option"
  im_thread_id :: "string option"
  im_status :: int
  im_is_read :: bool
  im_is_recalled :: bool
  im_is_edited :: bool
  im_retention_policy :: "string option"
  im_retention_state :: "string option"
  im_mention_users :: "string list"
  im_mention_all :: bool
  im_offline_push_info :: "string option"
  im_attributes :: "string \<rightharpoonup> string"
  im_extensions :: "string \<rightharpoonup> string"
  im_reactions :: "ReactionEntry list"
  im_version :: u64
  im_updated_at :: u64
  im_local_state :: MessageLocalState

subsection \<open>Attributes\<close>

text \<open>\<open>str::parse::<i32>\<close>.\<close>

definition parse_i32 :: "string \<Rightarrow> int option" where
  "parse_i32 s =
     (let (neg, ds) = (case s of [] \<Rightarrow> (False, [])
                       | c # cs \<Rightarrow> if c = CHR ''-'' then (True, cs)
                                  else if c = CHR ''+'' then (False, cs) else (False, s));
          v = (if neg then - int (digits_value ds) else int (digits_value ds))
      in if ds \<noteq> [] \<and> list_all is_digit ds \<and> - (2 ^ 31) \<le> v \<and> v < 2 ^ 31 then Some v else None)"

definition is_edited_from_attributes :: "(string \<rightharpoonup> string) \<Rightarrow> bool" where
  "is_edited_from_attributes attributes =
     (if attributes ''messageFsmState'' = Some ''EDITED'' then True
      else
        (case attributes ''currentEditVersion'' of
           Some v \<Rightarrow> (case parse_i32 (trim v) of Some n \<Rightarrow> n | None \<Rightarrow> 0) > 0
         | None \<Rightarrow> False))"

definition REACTIONS_JSON_KEY :: string where "REACTIONS_JSON_KEY = ''reactionsJson''"
definition PLUGIN_STATE_JSON_KEY :: string where "PLUGIN_STATE_JSON_KEY = ''pluginStateJson''"
definition PLUGIN_STATE_VERSION_KEY :: string where "PLUGIN_STATE_VERSION_KEY = ''pluginStateVersion''"
definition PLUGIN_STATE_BASED_ON_KEY :: string where "PLUGIN_STATE_BASED_ON_KEY = ''pluginStateBasedOnVersion''"
definition READ_SUMMARY_JSON_KEY :: string where "READ_SUMMARY_JSON_KEY = ''readSummaryJson''"
definition PLUGIN_CARD_UNBOUND_KEY :: string where "PLUGIN_CARD_UNBOUND_KEY = ''pluginCardUnbound''"
definition PLUGIN_SHARED_STATE_JSON_KEY :: string where "PLUGIN_SHARED_STATE_JSON_KEY = ''pluginSharedStateJson''"
definition PLUGIN_SHARED_STATE_VERSION_KEY :: string where
  "PLUGIN_SHARED_STATE_VERSION_KEY = ''pluginSharedStateVersion''"
definition PLUGIN_SHARED_ENTITY_KEY :: string where "PLUGIN_SHARED_ENTITY_KEY = ''pluginSharedEntity''"

definition strip_plugin_message_state :: "(string \<rightharpoonup> string) \<Rightarrow> string \<rightharpoonup> string" where
  "strip_plugin_message_state attributes =
     attributes(PLUGIN_STATE_JSON_KEY := None, PLUGIN_STATE_VERSION_KEY := None,
       PLUGIN_STATE_BASED_ON_KEY := None, READ_SUMMARY_JSON_KEY := None)"

definition strip_plugin_shared_state :: "(string \<rightharpoonup> string) \<Rightarrow> string \<rightharpoonup> string" where
  "strip_plugin_shared_state attributes =
     attributes(PLUGIN_SHARED_STATE_JSON_KEY := None, PLUGIN_SHARED_STATE_VERSION_KEY := None,
       PLUGIN_SHARED_ENTITY_KEY := None, PLUGIN_CARD_UNBOUND_KEY := None)"

text \<open>The attributes of \<open>to_proto\<close>.\<close>

definition wire_attributes :: "'e IMMessage \<Rightarrow> string \<rightharpoonup> string" where
  "wire_attributes m = strip_plugin_shared_state (strip_plugin_message_state (im_attributes m))"

definition plugin_card_unbound :: "'e IMMessage \<Rightarrow> bool" where
  "plugin_card_unbound m \<longleftrightarrow> im_attributes m PLUGIN_CARD_UNBOUND_KEY = Some ''true''"

definition plugin_shared_state_version :: "'e IMMessage \<Rightarrow> u64" where
  "plugin_shared_state_version m =
     (case im_attributes m PLUGIN_SHARED_STATE_JSON_KEY of
        None \<Rightarrow> 0
      | Some _ \<Rightarrow>
          (case im_attributes m PLUGIN_SHARED_STATE_VERSION_KEY of
             None \<Rightarrow> 0
           | Some version \<Rightarrow> (case parse_u64 version of Some v \<Rightarrow> v | None \<Rightarrow> 0)))"

subsection \<open>Sender names\<close>

definition snapshot_sender :: "(int \<Rightarrow> ProtoConversationType option) \<Rightarrow> 'e IMMessage \<Rightarrow> DisplayName" where
  "snapshot_sender try_from m =
     resolve_person_name (im_sender_id m)
       \<lparr>pn_alias = [], pn_member_nickname = [], pn_profile_name = [], pn_snapshot = im_sender_name m\<rparr>
       (Some (ConversationType_from_proto_int try_from (im_conversation_type m)))"

definition wire_sender :: "(int \<Rightarrow> ProtoConversationType option) \<Rightarrow> 'e IMMessage \<Rightarrow> DisplayName" where
  "wire_sender try_from m =
     (if im_sender m = DisplayName_default then snapshot_sender try_from m else im_sender m)"

subsection \<open>Keys and times of a row\<close>

definition timeline_sort_ts :: "'e IMMessage \<Rightarrow> u64" where
  "timeline_sort_ts m =
     (if im_conversation_seq m > 0 then
        (if im_created_at m > 0 then im_created_at m
         else if im_client_created_at m > 0 then im_client_created_at m
         else ls_sort_ts (im_local_state m))
      else max (max (ls_sort_ts (im_local_state m)) (im_created_at m)) (im_client_created_at m))"

definition timeline_key :: "'e IMMessage \<Rightarrow> string" where
  "timeline_key m =
     (if trim (im_server_id m) \<noteq> [] then ''server:'' @ im_server_id m
      else if trim (im_client_msg_id m) \<noteq> [] then ''client:'' @ im_client_msg_id m
      else if im_conversation_seq m > 0
      then ''seq:'' @ im_conversation_id m @ '':'' @ u64_to_string (im_conversation_seq m)
      else ''ts:'' @ im_conversation_id m @ '':'' @ u64_to_string (timeline_sort_ts m))"

definition row_key :: "'e IMMessage \<Rightarrow> string" where
  "row_key m =
     (if im_client_msg_id m \<noteq> [] then im_client_msg_id m
      else if im_server_id m \<noteq> [] then im_server_id m
      else ''seq:'' @ im_conversation_id m @ '':'' @ u64_to_string (im_conversation_seq m))"

definition display_time_ms :: "'e IMMessage \<Rightarrow> u64" where
  "display_time_ms m =
     (if im_conversation_seq m > 0 \<and> im_created_at m > 0 then im_created_at m
      else if ls_sort_ts (im_local_state m) > 0 then ls_sort_ts (im_local_state m)
      else max (im_created_at m) (im_client_created_at m))"

definition is_local_pending_for_timeline :: "'e IMMessage \<Rightarrow> bool" where
  "is_local_pending_for_timeline m \<longleftrightarrow>
     im_conversation_seq m = 0 \<and> ls_is_local (im_local_state m) \<and> \<not> ls_failed (im_local_state m) \<and>
     (ls_sending (im_local_state m) \<or> ls_uploading (im_local_state m))"

definition compare_for_timeline_asc :: "'e IMMessage \<Rightarrow> 'e IMMessage \<Rightarrow> Ordering" where
  "compare_for_timeline_asc left right =
     (let left_seq = im_conversation_seq left; right_seq = im_conversation_seq right in
      if left_seq > 0 \<and> right_seq > 0 then
        then_with (cmp left_seq right_seq)
          (then_with (cmp (timeline_sort_ts left) (timeline_sort_ts right))
            (cmp (timeline_key left) (timeline_key right)))
      else
        let left_pending = is_local_pending_for_timeline left;
            right_pending = is_local_pending_for_timeline right
        in
        if left_pending \<noteq> right_pending \<and> (left_seq > 0 \<or> right_seq > 0)
        then (if left_pending then OGreater else OLess)
        else
          then_with (cmp (timeline_sort_ts left) (timeline_sort_ts right))
            (then_with (cmp left_seq right_seq) (cmp (timeline_key left) (timeline_key right))))"

definition compare_for_latest_window_desc :: "'e IMMessage \<Rightarrow> 'e IMMessage \<Rightarrow> Ordering" where
  "compare_for_latest_window_desc left right = compare_for_timeline_asc right left"

subsection \<open>Reactions\<close>

definition parse_reactions_from_attributes ::
  "(string \<Rightarrow> ReactionEntry list option) \<Rightarrow> (string \<rightharpoonup> string) \<Rightarrow> ReactionEntry list" where
  "parse_reactions_from_attributes from_json attributes =
     (case attributes REACTIONS_JSON_KEY of
        Some v \<Rightarrow> if trim v \<noteq> [] then (case from_json v of Some r \<Rightarrow> r | None \<Rightarrow> []) else []
      | None \<Rightarrow> [])"

definition write_reactions_to_attributes ::
  "(ReactionEntry list \<Rightarrow> string option) \<Rightarrow> (string \<rightharpoonup> string) \<Rightarrow> ReactionEntry list \<Rightarrow> string \<rightharpoonup> string" where
  "write_reactions_to_attributes to_json attributes reactions =
     (if reactions = [] then attributes(REACTIONS_JSON_KEY := None)
      else (case to_json reactions of Some s \<Rightarrow> attributes(REACTIONS_JSON_KEY \<mapsto> s) | None \<Rightarrow> attributes))"

text \<open>The list part of \<open>apply_reaction_change\<close>, for a non-empty user and emoji and a known action.\<close>

definition change_reactions :: "string \<Rightarrow> string \<Rightarrow> bool \<Rightarrow> ReactionEntry list \<Rightarrow> ReactionEntry list" where
  "change_reactions user_id emoji is_remove reactions =
     sort_by (\<lambda>a b. cmp (re_emoji a) (re_emoji b))
      (case position (\<lambda>r. re_emoji r = emoji) reactions of
         Some i \<Rightarrow>
           (let r = reactions ! i;
                user_ids =
                  (if is_remove then filter (\<lambda>u. u \<noteq> user_id) (re_user_ids r)
                   else if user_id \<notin> set (re_user_ids r) then re_user_ids r @ [user_id]
                   else re_user_ids r)
            in
            if user_ids = [] then take i reactions @ drop (Suc i) reactions
            else reactions[i := r\<lparr>re_user_ids := sort user_ids, re_count := of_nat (length user_ids)\<rparr>])
       | None \<Rightarrow>
           if \<not> is_remove
           then reactions @ [\<lparr>re_emoji = emoji, re_user_ids = [user_id], re_count = 1\<rparr>]
           else reactions)"

text \<open>The values of \<open>ReactionAction\<close> that the documentation of \<open>apply_reaction_change\<close> names.\<close>

definition REACTION_ADD :: int where "REACTION_ADD = 1"
definition REACTION_REMOVE :: int where "REACTION_REMOVE = 2"

definition apply_reaction_change ::
  "(ReactionEntry list \<Rightarrow> string option) \<Rightarrow> string \<Rightarrow> string \<Rightarrow> int \<Rightarrow> 'e IMMessage \<Rightarrow> 'e IMMessage" where
  "apply_reaction_change to_json user_id emoji action m =
     (if user_id = [] \<or> emoji = [] then m
      else if action \<noteq> REACTION_ADD \<and> action \<noteq> REACTION_REMOVE then m
      else
        let reactions = change_reactions user_id emoji (action = REACTION_REMOVE) (im_reactions m)
        in m\<lparr>im_reactions := reactions,
             im_attributes := write_reactions_to_attributes to_json (im_attributes m) reactions\<rparr>)"

section \<open>Lemmas\<close>

subsection \<open>The timeline comparison\<close>

lemma compare_swap: "compare_for_timeline_asc b a = reverse_ordering (compare_for_timeline_asc a b)"
  by (auto simp: compare_for_timeline_asc_def Let_def cmp_reverse [symmetric])

lemma pending_unsequenced: "is_local_pending_for_timeline m \<Longrightarrow> im_conversation_seq m = 0"
  by (simp add: is_local_pending_for_timeline_def)

lemma sequenced_not_pending: "im_conversation_seq m \<noteq> 0 \<Longrightarrow> \<not> is_local_pending_for_timeline m"
  by (simp add: is_local_pending_for_timeline_def)

lemma cmp_less: "a < b \<Longrightarrow> cmp a b = OLess"
  by simp

text \<open>The rows on which the comparison orders: sequenced, or waiting for their acknowledgement.\<close>

definition orderly :: "'e IMMessage \<Rightarrow> bool" where
  "orderly m \<longleftrightarrow> im_conversation_seq m > 0 \<or> is_local_pending_for_timeline m"

lemma compare_orderly:
  assumes "orderly a" "orderly b"
  shows "compare_for_timeline_asc a b =
    then_with (cmp (is_local_pending_for_timeline a) (is_local_pending_for_timeline b))
      (then_with (cmp (im_conversation_seq a) (im_conversation_seq b))
        (then_with (cmp (timeline_sort_ts a) (timeline_sort_ts b)) (cmp (timeline_key a) (timeline_key b))))"
proof -
  have a: "im_conversation_seq a \<noteq> 0 \<and> \<not> is_local_pending_for_timeline a \<or>
      im_conversation_seq a = 0 \<and> is_local_pending_for_timeline a"
    using assms(1) pending_unsequenced [of a] by (auto simp: orderly_def)
  have b: "im_conversation_seq b \<noteq> 0 \<and> \<not> is_local_pending_for_timeline b \<or>
      im_conversation_seq b = 0 \<and> is_local_pending_for_timeline b"
    using assms(2) pending_unsequenced [of b] by (auto simp: orderly_def)
  have bools: "cmp True False = OGreater" "cmp False True = OLess" by (simp_all add: cmp_def)
  show ?thesis
    using a b unfolding compare_for_timeline_asc_def Let_def
    by (elim disjE conjE) (simp_all add: bools word_gt_0)
qed

interpretation timeline_order: comparison_on "{m. orderly m}" compare_for_timeline_asc
proof (rule comparison_on_cong)
  show "comparison_on {m. orderly m} (\<lambda>a b.
      then_with (cmp (is_local_pending_for_timeline a) (is_local_pending_for_timeline b))
        (then_with (cmp (im_conversation_seq a) (im_conversation_seq b))
          (then_with (cmp (timeline_sort_ts a) (timeline_sort_ts b)) (cmp (timeline_key a) (timeline_key b)))))"
    by (intro comparison_on_then comparison_on_key)
qed (simp add: compare_orderly)

lemma sorted_wrt_partition:
  assumes "sorted_wrt R xs" "\<And>a b. a \<in> set xs \<Longrightarrow> b \<in> set xs \<Longrightarrow> R a b \<Longrightarrow> Q b \<Longrightarrow> Q a"
  shows "xs = filter Q xs @ filter (\<lambda>x. \<not> Q x) xs"
  using assms
proof (induction xs)
  case (Cons x xs)
  have IH: "xs = filter Q xs @ filter (\<lambda>x. \<not> Q x) xs"
    using Cons.prems by (intro Cons.IH) (auto intro: Cons.prems(2))
  show ?case
  proof (cases "Q x")
    case False
    then have "\<forall>y\<in>set xs. \<not> Q y" using Cons.prems by (meson list.set_intros sorted_wrt.simps(2))
    then show ?thesis using False by (simp add: filter_empty_conv)
  qed (use IH in simp)
qed simp

subsection \<open>Attributes\<close>

lemmas plugin_key_defs = PLUGIN_STATE_JSON_KEY_def PLUGIN_STATE_VERSION_KEY_def PLUGIN_STATE_BASED_ON_KEY_def
  READ_SUMMARY_JSON_KEY_def PLUGIN_CARD_UNBOUND_KEY_def PLUGIN_SHARED_STATE_JSON_KEY_def
  PLUGIN_SHARED_STATE_VERSION_KEY_def PLUGIN_SHARED_ENTITY_KEY_def

lemma if_or: "(if P then x else if Q then x else y) = (if P \<or> Q then x else y)"
  by simp

lemma wire_attributes_exact:
  "wire_attributes m k =
     (if k \<in> {PLUGIN_STATE_JSON_KEY, PLUGIN_STATE_VERSION_KEY, PLUGIN_STATE_BASED_ON_KEY, READ_SUMMARY_JSON_KEY,
         PLUGIN_SHARED_STATE_JSON_KEY, PLUGIN_SHARED_STATE_VERSION_KEY, PLUGIN_SHARED_ENTITY_KEY,
         PLUGIN_CARD_UNBOUND_KEY} then None else im_attributes m k)"
  unfolding wire_attributes_def strip_plugin_message_state_def strip_plugin_shared_state_def
  by (simp only: fun_upd_apply if_or insert_iff empty_iff disj_ac simp_thms)

subsection \<open>Reactions\<close>

definition entry_ok :: "ReactionEntry \<Rightarrow> bool" where
  "entry_ok r \<longleftrightarrow> re_user_ids r \<noteq> [] \<and> sorted (re_user_ids r) \<and> distinct (re_user_ids r) \<and>
     re_count r = of_nat (length (re_user_ids r))"

definition reactions_ok :: "ReactionEntry list \<Rightarrow> bool" where
  "reactions_ok rs \<longleftrightarrow> sorted (map re_emoji rs) \<and> distinct (map re_emoji rs) \<and> (\<forall>r\<in>set rs. entry_ok r)"

text \<open>What a projection means: who reacted with what.\<close>

definition reaction_set :: "ReactionEntry list \<Rightarrow> (string \<times> string) set" where
  "reaction_set rs = {(re_emoji r, u) |r u. r \<in> set rs \<and> u \<in> set (re_user_ids r)}"

lemma sort_by_emoji_sorted: "sorted (map re_emoji (sort_by (\<lambda>a b. cmp (re_emoji a) (re_emoji b)) rs))"
proof -
  have "sorted_by (\<lambda>a b. cmp (re_emoji a) (re_emoji b)) (sort_by (\<lambda>a b. cmp (re_emoji a) (re_emoji b)) rs)"
    by (rule comparison_on.sorted_sort_by [OF comparison_on_key [of UNIV re_emoji]]) simp
  then show ?thesis by (simp add: sorted_by_def sorted_map not_less)
qed

lemma reactions_ok_sort:
  assumes "distinct (map re_emoji rs)" "\<forall>r\<in>set rs. entry_ok r"
  shows "reactions_ok (sort_by (\<lambda>a b. cmp (re_emoji a) (re_emoji b)) rs)"
  using assms sort_by_emoji_sorted by (simp add: reactions_ok_def)

lemma reaction_set_sort [simp]: "reaction_set (sort_by c rs) = reaction_set rs"
  by (simp add: reaction_set_def)

lemma reaction_set_simps [simp]:
  "reaction_set [] = {}"
  "reaction_set (r # rs) = {re_emoji r} \<times> set (re_user_ids r) \<union> reaction_set rs"
  "reaction_set (rs @ ss) = reaction_set rs \<union> reaction_set ss"
  by (auto simp: reaction_set_def)

lemma reaction_set_emoji: "e \<notin> re_emoji ` set rs \<Longrightarrow> (e, u) \<notin> reaction_set rs"
  by (auto simp: reaction_set_def)

lemma sort_eq_Nil [simp]: "sort xs = [] \<longleftrightarrow> xs = []"
  by (metis set_empty set_sort)

lemma change_reactions_ok:
  assumes "reactions_ok rs"
  shows "reactions_ok (change_reactions user emoji is_remove rs) \<and>
    reaction_set (change_reactions user emoji is_remove rs) =
      (if is_remove then reaction_set rs - {(emoji, user)} else insert (emoji, user) (reaction_set rs))"
proof (cases "position (\<lambda>r. re_emoji r = emoji) rs")
  case None
  then have new: "emoji \<notin> re_emoji ` set rs" by (auto simp: position_None)
  show ?thesis
  proof (cases is_remove)
    case True
    then show ?thesis using None assms reaction_set_emoji [OF new]
      by (simp add: change_reactions_def reactions_ok_sort reactions_ok_def [of rs])
  next
    case False
    then show ?thesis using None assms new
      by (auto simp: change_reactions_def entry_ok_def reactions_ok_def [of rs] intro!: reactions_ok_sort)
  qed
next
  case (Some i)
  let ?r = "rs ! i" and ?a = "take i rs" and ?b = "drop (Suc i) rs"
  have split: "rs = ?a @ ?r # ?b" "re_emoji ?r = emoji" "i < length rs"
    using position_split [OF Some] position_Some [OF Some] by auto
  define users where "users = (if is_remove then filter (\<lambda>u. u \<noteq> user) (re_user_ids ?r)
     else if user \<notin> set (re_user_ids ?r) then re_user_ids ?r @ [user] else re_user_ids ?r)"
  have ok: "distinct (map re_emoji (?a @ ?r # ?b))" "\<forall>r\<in>set (?a @ ?r # ?b). entry_ok r"
    using assms unfolding reactions_ok_def split(1) [symmetric] by blast+
  have emo: "emoji \<notin> re_emoji ` set ?a" "emoji \<notin> re_emoji ` set ?b"
    using ok(1) split(2) by auto
  have dist: "distinct users" using ok(2) by (auto simp: users_def entry_ok_def)
  have users: "set users = (if is_remove then set (re_user_ids ?r) - {user} else insert user (set (re_user_ids ?r)))"
    by (auto simp: users_def)
  have upd: "rs[i := x] = ?a @ x # ?b" for x using split(3) by (rule upd_conv_take_nth_drop)
  have change: "change_reactions user emoji is_remove rs =
      sort_by (\<lambda>a b. cmp (re_emoji a) (re_emoji b))
       (if users = [] then ?a @ ?b
        else ?a @ ?r\<lparr>re_user_ids := sort users, re_count := of_nat (length users)\<rparr> # ?b)"
    unfolding change_reactions_def Some option.case Let_def users_def [symmetric] upd ..
  have rset: "reaction_set rs = reaction_set ?a \<union> {emoji} \<times> set (re_user_ids ?r) \<union> reaction_set ?b"
    by (subst split(1)) (simp add: split(2) Un_assoc)
  have "reactions_ok (change_reactions user emoji is_remove rs)"
    unfolding change using ok dist by (intro reactions_ok_sort) (auto simp: entry_ok_def)
  moreover have "reaction_set (change_reactions user emoji is_remove rs) =
      reaction_set ?a \<union> {emoji} \<times> set users \<union> reaction_set ?b"
    unfolding change by (auto simp: split(2))
  ultimately show ?thesis using emo [THEN reaction_set_emoji, of user] unfolding rset users
    by auto
qed

text \<open>A well-formed projection is determined by what it means.\<close>

definition reactions_of :: "(string \<times> string) set \<Rightarrow> ReactionEntry list" where
  "reactions_of A = map (\<lambda>e. \<lparr>re_emoji = e, re_user_ids = sorted_list_of_set (A `` {e}),
     re_count = of_nat (card (A `` {e}))\<rparr>) (sorted_list_of_set (fst ` A))"

lemma reaction_set_image:
  assumes "distinct (map re_emoji rs)" "r \<in> set rs"
  shows "reaction_set rs `` {re_emoji r} = set (re_user_ids r)"
  using assms by (auto simp: reaction_set_def distinct_map dest: inj_onD)

lemma reactions_canonical:
  assumes "reactions_ok rs"
  shows "rs = reactions_of (reaction_set rs)"
proof -
  have emojis: "fst ` reaction_set rs = set (map re_emoji rs)"
  proof
    show "set (map re_emoji rs) \<subseteq> fst ` reaction_set rs"
    proof
      fix e assume "e \<in> set (map re_emoji rs)"
      then obtain r where r: "r \<in> set rs" "e = re_emoji r" by auto
      then obtain u where "u \<in> set (re_user_ids r)"
        using assms by (auto simp: reactions_ok_def entry_ok_def) (meson last_in_set)
      then show "e \<in> fst ` reaction_set rs" using r by (force simp: reaction_set_def)
    qed
  qed (auto simp: reaction_set_def)
  have list: "sorted_list_of_set (fst ` reaction_set rs) = map re_emoji rs"
    unfolding emojis using assms
    by (intro sorted_list_of_set.idem_if_sorted_distinct) (simp_all add: reactions_ok_def)
  have "\<lparr>re_emoji = re_emoji r, re_user_ids = sorted_list_of_set (reaction_set rs `` {re_emoji r}),
     re_count = of_nat (card (reaction_set rs `` {re_emoji r}))\<rparr> = r" if "r \<in> set rs" for r
    using assms that reaction_set_image [of rs r]
    by (simp add: reactions_ok_def entry_ok_def sorted_list_of_set.idem_if_sorted_distinct distinct_card)
  then show ?thesis unfolding reactions_of_def list by (simp add: map_idI)
qed

section \<open>Properties\<close>

text \<open>C33. Sorting rows that are sequenced or waiting for their acknowledgement puts the sequenced
  rows first, by sequence number, and the waiting rows after all of them, by their sort time.\<close>

theorem timeline_order_exact:
  assumes "\<forall>m\<in>set rows. orderly m"
  shows "(let sorted_rows = sort_by compare_for_timeline_asc rows in
    mset sorted_rows = mset rows \<and>
    sorted_rows = filter (\<lambda>m. im_conversation_seq m > 0) sorted_rows @ filter is_local_pending_for_timeline sorted_rows \<and>
    sorted (map im_conversation_seq (filter (\<lambda>m. im_conversation_seq m > 0) sorted_rows)) \<and>
    sorted (map timeline_sort_ts (filter is_local_pending_for_timeline sorted_rows)))"
proof -
  define out where "out = sort_by compare_for_timeline_asc rows"
  let ?le = "\<lambda>a b. compare_for_timeline_asc a b \<noteq> OGreater"
  have sorted: "sorted_wrt ?le out"
    using timeline_order.sorted_sort_by [of rows] assms by (auto simp: out_def sorted_by_def)
  have ord: "orderly m" if "m \<in> set out" for m using assms that by (simp add: out_def)
  have "out = filter (\<lambda>m. im_conversation_seq m > 0) out @ filter (\<lambda>m. \<not> im_conversation_seq m > 0) out"
    by (rule sorted_wrt_partition [OF sorted])
      (auto simp: compare_for_timeline_asc_def Let_def orderly_def pending_unsequenced sequenced_not_pending
        word_gt_0 dest!: ord)
  moreover have "filter (\<lambda>m. \<not> im_conversation_seq m > 0) out = filter is_local_pending_for_timeline out"
    by (rule filter_cong) (auto dest!: ord simp: orderly_def pending_unsequenced)
  moreover have "sorted (map im_conversation_seq (filter (\<lambda>m. im_conversation_seq m > 0) out))"
    unfolding sorted_map
    by (rule sorted_wrt_mono_rel [OF _ sorted_wrt_filter [OF sorted]])
      (auto simp: compare_for_timeline_asc_def Let_def then_with_neq_Greater)
  moreover have "sorted (map timeline_sort_ts (filter is_local_pending_for_timeline out))"
    unfolding sorted_map
    by (rule sorted_wrt_mono_rel [OF _ sorted_wrt_filter [OF sorted]])
      (auto simp: compare_for_timeline_asc_def Let_def then_with_neq_Greater pending_unsequenced)
  ultimately show ?thesis unfolding Let_def out_def [symmetric] by (simp add: out_def)
qed

text \<open>Rows for concrete instances: identifiers, sequence number, time and local state.\<close>

definition example_row :: "string \<Rightarrow> u64 \<Rightarrow> u64 \<Rightarrow> bool \<Rightarrow> bool \<Rightarrow> unit IMMessage" where
  "example_row i seq time sending failed =
     \<lparr>im_server_id = i, im_client_msg_id = i, im_conversation_id = ''c'', im_conversation_type = 1,
      im_channel_id = [], im_sender_id = ''u'', im_source = 0, im_conversation_seq = seq,
      im_created_at = time, im_client_created_at = time, im_message_type = 1, im_content = None,
      im_encoded_content = [], im_text_preview = [], im_sender_name = [], im_sender_avatar = [],
      im_sender_display_name = [], im_sender = DisplayName_default, im_reply_to = None,
      im_quote_preview = None, im_thread_id = None, im_status = 0, im_is_read = False,
      im_is_recalled = False, im_is_edited = False, im_retention_policy = None,
      im_retention_state = None, im_mention_users = [], im_mention_all = False,
      im_offline_push_info = None, im_attributes = (\<lambda>_. None), im_extensions = (\<lambda>_. None),
      im_reactions = [], im_version = 0, im_updated_at = 0,
      im_local_state = \<lparr>ls_sending = sending, ls_failed = failed, ls_is_local = sending \<or> failed,
        ls_uploading = False, ls_upload_progress = 0, ls_sort_ts = time\<rparr>\<rparr>"

theorem timeline_order_exact_witness:
  "map im_server_id (sort_by compare_for_timeline_asc
     [example_row ''p'' 0 5 True False, example_row ''b'' 8 9 False False, example_row ''a'' 7 9 False False])
   = [''a'', ''b'', ''p'']"
proof -
  let ?rows = "[example_row ''p'' 0 5 True False, example_row ''b'' 8 9 False False, example_row ''a'' 7 9 False False]"
  have "\<forall>m\<in>set ?rows. orderly m" by (simp add: orderly_def example_row_def is_local_pending_for_timeline_def)
  note * = timeline_order_exact [OF this]
  have "sort_by compare_for_timeline_asc ?rows =
      [example_row ''a'' 7 9 False False, example_row ''b'' 8 9 False False, example_row ''p'' 0 5 True False]"
    using * by (simp add: sort_by_def compare_for_timeline_asc_def cmp_def example_row_def
        is_local_pending_for_timeline_def)
  then show ?thesis by (simp add: example_row_def)
qed

text \<open>C39. The comparison is antisymmetric but not transitive: a local row that is no longer waiting
  (a failed send) is placed by time, so between two sequenced rows whose times disagree with their
  numbers it closes a cycle.\<close>

theorem timeline_compare_cycle:
  assumes "0 < im_conversation_seq a" "im_conversation_seq a < im_conversation_seq b"
    and "im_conversation_seq f = 0" "\<not> is_local_pending_for_timeline f"
    and "timeline_sort_ts b < timeline_sort_ts f" "timeline_sort_ts f < timeline_sort_ts a"
  shows "compare_for_timeline_asc a b = OLess \<and> compare_for_timeline_asc b f = OLess \<and>
    compare_for_timeline_asc f a = OLess"
proof -
  have "0 < im_conversation_seq b" using assms(1,2) by (rule less_trans)
  moreover have "\<not> is_local_pending_for_timeline a" "\<not> is_local_pending_for_timeline b"
    using pending_unsequenced [of a] pending_unsequenced [of b] assms(1,2) by auto
  ultimately show ?thesis using assms
    by (simp add: compare_for_timeline_asc_def Let_def cmp_less)
qed

theorem timeline_compare_cycle_witness:
  "compare_for_timeline_asc (example_row ''a'' 1 100 False False) (example_row ''b'' 2 50 False False) = OLess \<and>
   compare_for_timeline_asc (example_row ''b'' 2 50 False False) (example_row ''f'' 0 75 False True) = OLess \<and>
   compare_for_timeline_asc (example_row ''f'' 0 75 False True) (example_row ''a'' 1 100 False False) = OLess"
  by (rule timeline_compare_cycle)
    (simp_all add: example_row_def is_local_pending_for_timeline_def timeline_sort_ts_def)

text \<open>C34. The reaction projection implements a set of (emoji, user) pairs: an accepted change adds or
  removes exactly its pair, keeps the projection well formed (sorted, without duplicates, with
  exact counts, no empty entry), and the stored attribute reads back as the projection.  Changes to
  different pairs commute.\<close>

theorem reactions_refine_set:
  assumes "reactions_ok (im_reactions m)" "user \<noteq> []" "emoji \<noteq> []"
    and "action = REACTION_ADD \<or> action = REACTION_REMOVE"
    and "to_json (im_reactions (apply_reaction_change to_json user emoji action m)) = Some s"
    and "trim s \<noteq> []"
    and "from_json s = Some (im_reactions (apply_reaction_change to_json user emoji action m))"
    and "user' \<noteq> []" "emoji' \<noteq> []" "action' = REACTION_ADD \<or> action' = REACTION_REMOVE"
    and "(emoji, user) \<noteq> (emoji', user')"
  shows "(let m1 = apply_reaction_change to_json user emoji action m in
    reactions_ok (im_reactions m1) \<and>
    reaction_set (im_reactions m1) =
      (if action = REACTION_ADD then insert (emoji, user) (reaction_set (im_reactions m))
       else reaction_set (im_reactions m) - {(emoji, user)}) \<and>
    parse_reactions_from_attributes from_json (im_attributes m1) = im_reactions m1 \<and>
    im_reactions (apply_reaction_change to_json user' emoji' action' m1) =
      im_reactions (apply_reaction_change to_json user emoji action
        (apply_reaction_change to_json user' emoji' action' m)))"
proof -
  let ?rs = "im_reactions m" and ?A = "reaction_set (im_reactions m)"
  let ?ch = "\<lambda>u e a rs. change_reactions u e (a = REACTION_REMOVE) rs"
  have ne: "REACTION_ADD \<noteq> REACTION_REMOVE" by (simp add: REACTION_ADD_def REACTION_REMOVE_def)
  have react: "im_reactions (apply_reaction_change to_json u e a x) = ?ch u e a (im_reactions x)"
    if "u \<noteq> []" "e \<noteq> []" "a = REACTION_ADD \<or> a = REACTION_REMOVE" for u e a and x :: "'a IMMessage"
    using that by (auto simp: apply_reaction_change_def Let_def)
  have attr: "im_attributes (apply_reaction_change to_json user emoji action m) =
      write_reactions_to_attributes to_json (im_attributes m) (?ch user emoji action ?rs)"
    using assms(2-4) by (auto simp: apply_reaction_change_def Let_def)
  have read: "parse_reactions_from_attributes from_json
      (write_reactions_to_attributes to_json (im_attributes m) (?ch user emoji action ?rs)) = ?ch user emoji action ?rs"
    using assms(5-7) unfolding react [OF assms(2-4)]
    by (simp add: parse_reactions_from_attributes_def write_reactions_to_attributes_def)
  have set: "reactions_ok (?ch u e a rs)"
    "reaction_set (?ch u e a rs) =
       (if a = REACTION_REMOVE then reaction_set rs - {(e, u)} else insert (e, u) (reaction_set rs))"
    if "reactions_ok rs" for u e a rs
    using change_reactions_ok [OF that] by blast+
  let ?l = "?ch user' emoji' action' (?ch user emoji action ?rs)"
  let ?r = "?ch user emoji action (?ch user' emoji' action' ?rs)"
  note ok1 = set(1) [OF assms(1)]
  have "reaction_set ?l = reaction_set ?r"
    unfolding set(2) [OF ok1] set(2) [OF assms(1)] using assms(11) by auto
  then have "?l = ?r"
    using reactions_canonical [OF set(1) [OF ok1]] by metis
  then show ?thesis
    unfolding Let_def react [OF assms(2-4)] react [OF assms(8-10)] attr read
    using set [OF assms(1), of user emoji action] assms(4) ne by auto
qed

theorem reactions_refine_set_witness:
  "(let m1 = apply_reaction_change (\<lambda>_. Some ''j'') ''u'' ''+1'' REACTION_ADD (example_row ''a'' 7 9 False False) in
    reaction_set (im_reactions m1) = {(''+1'', ''u'')} \<and>
    im_reactions m1 = [\<lparr>re_emoji = ''+1'', re_user_ids = [''u''], re_count = 1\<rparr>])"
proof -
  let ?m = "example_row ''a'' 7 9 False False" and ?j = "\<lambda>_ :: ReactionEntry list. Some ''j''"
  let ?m1 = "apply_reaction_change ?j ''u'' ''+1'' REACTION_ADD ?m"
  let ?rs = "[\<lparr>re_emoji = ''+1'', re_user_ids = [''u''], re_count = 1\<rparr>]"
  have rs: "im_reactions ?m1 = ?rs"
    by (simp add: apply_reaction_change_def example_row_def change_reactions_def sort_by_def
        REACTION_ADD_def REACTION_REMOVE_def Let_def)
  have ok: "reactions_ok (im_reactions ?m)" and empty: "im_reactions ?m = []"
    by (simp_all add: reactions_ok_def example_row_def)
  have t: "trim ''j'' \<noteq> []" by code_simp
  have "reaction_set (im_reactions ?m1) = {(''+1'', ''u'')}"
    using reactions_refine_set [OF ok, of "''u''" "''+1''" REACTION_ADD ?j "''j''" "\<lambda>_. Some ?rs" "''v''" "''+1''" REACTION_ADD]
      rs t empty by (simp add: Let_def)
  then show ?thesis using rs by (simp add: Let_def)
qed

end
