(* ===== verification/Timeline_Window.thy ===== *)
theory Timeline_Window
  imports Message_Model Conversation_Model
begin

text \<open>
  The window of an open timeline view (\<open>client/api/view_window.rs\<close>): its trimming, the rows that
  paging, live messages and re-reads bring in, and the delta between two versions of a window.

  \<^item> Two rows differ when their JSON values differ; the JSON of a row and of a conversation
    (\<open>serde_json::to_value(\<dots>).ok()\<close>) are parameters \<open>row_json\<close> and \<open>conv_json\<close>.
  \<^item> \<open>host_apply\<close> is the rule by which hosts apply a delta, as \<open>model/timeline.rs\<close> documents it
    on \<open>ViewDelta\<close>.
  \<^item> The lemmas show that applying a delta turns the old version into the new one, and what live
    messages may bring into a window.
\<close>

section \<open>Definitions\<close>

definition MAX_TIMELINE_WINDOW_MESSAGES :: nat where
  "MAX_TIMELINE_WINDOW_MESSAGES = 2000"

record 'e TimelineWindow =
  tw_conversation_id :: string
  tw_conversation :: "Conversation option"
  tw_messages :: "'e IMMessage list"
  tw_has_older :: bool
  tw_attached_to_latest :: bool
  tw_anchor_key :: "string option"

record 'e TimelineViewSnapshot =
  sn_conversation :: "Conversation option"
  sn_messages :: "'e IMMessage list"
  sn_has_older :: bool
  sn_has_newer :: bool
  sn_attached_to_latest :: bool
  sn_anchor_key :: "string option"

record 'e TimelineDelta =
  vd_prepend :: "'e IMMessage list"
  vd_append :: "'e IMMessage list"
  vd_upsert :: "'e IMMessage list"
  vd_remove :: "string list"
  vd_reorder :: "string list option"
  vd_has_older :: bool
  vd_has_newer :: bool
  vd_attached_to_latest :: bool
  vd_conversation :: "Conversation option"

subsection \<open>The window\<close>

definition has_newer :: "'e TimelineWindow \<Rightarrow> bool" where
  "has_newer w \<longleftrightarrow> \<not> tw_attached_to_latest w"

definition snapshot :: "'e TimelineWindow \<Rightarrow> 'e TimelineViewSnapshot" where
  "snapshot w =
     \<lparr>sn_conversation = tw_conversation w, sn_messages = tw_messages w, sn_has_older = tw_has_older w,
      sn_has_newer = has_newer w, sn_attached_to_latest = tw_attached_to_latest w,
      sn_anchor_key = tw_anchor_key w\<rparr>"

definition window_seqs :: "'e TimelineWindow \<Rightarrow> u64 list" where
  "window_seqs w = filter (\<lambda>seq. seq > 0) (map im_conversation_seq (tw_messages w))"

definition oldest_seq :: "'e TimelineWindow \<Rightarrow> u64 option" where
  "oldest_seq w = (case window_seqs w of [] \<Rightarrow> None | s # ss \<Rightarrow> Some (fold min ss s))"

definition newest_seq :: "'e TimelineWindow \<Rightarrow> u64 option" where
  "newest_seq w = (case window_seqs w of [] \<Rightarrow> None | s # ss \<Rightarrow> Some (fold max ss s))"

definition window_keys :: "'e TimelineWindow \<Rightarrow> string set" where
  "window_keys w = set (map row_key (tw_messages w))"

definition trim_older_end :: "nat \<Rightarrow> 'e TimelineWindow \<Rightarrow> 'e TimelineWindow" where
  "trim_older_end limit w =
     (if length (tw_messages w) > limit then
        w\<lparr>tw_messages := drop (length (tw_messages w) - limit) (tw_messages w), tw_has_older := True\<rparr>
      else w)"

definition trim_newer_end :: "nat \<Rightarrow> 'e TimelineWindow \<Rightarrow> 'e TimelineWindow" where
  "trim_newer_end limit w =
     (if length (tw_messages w) > limit then
        w\<lparr>tw_messages := filter (\<lambda>m. im_conversation_seq m > 0) (take limit (tw_messages w)),
          tw_attached_to_latest := False\<rparr>
      else w)"

definition sort_window :: "'e TimelineWindow \<Rightarrow> 'e TimelineWindow" where
  "sort_window w = w\<lparr>tw_messages := sort_by compare_for_timeline_asc (tw_messages w)\<rparr>"

definition is_sorted :: "'e TimelineWindow \<Rightarrow> bool" where
  "is_sorted w = adjacent_le compare_for_timeline_asc (tw_messages w)"

definition resort :: "'e TimelineWindow \<Rightarrow> 'e TimelineWindow" where
  "resort w = (if \<not> is_sorted w then sort_window w else w)"

subsection \<open>The delta between two versions\<close>

datatype 'e TimelineChange = ChNone | ChDelta "'e TimelineDelta" | ChSnapshot

datatype CompareRows = CompareNone | CompareKeys "string set" | CompareAll

fun should_compare :: "CompareRows \<Rightarrow> string \<Rightarrow> bool" where
  "should_compare CompareNone key = False"
| "should_compare (CompareKeys keys) key = (key \<in> keys)"
| "should_compare CompareAll key = True"

text \<open>Where the rows of the new version go: \<open>None\<close> when no row was kept and neither is empty.\<close>

definition row_moves ::
  "'e IMMessage list \<Rightarrow> 'e IMMessage list
   \<Rightarrow> ('e IMMessage list \<times> 'e IMMessage list \<times> string list option) option" where
  "row_moves old new =
     (let old_keys = map row_key old; new_keys = map row_key new;
          retained_old_order = filter (\<lambda>key. key \<in> set new_keys) old_keys;
          is_kept = (\<lambda>key. key \<in> set old_keys)
      in
      case (position is_kept new_keys, rposition is_kept new_keys) of
        (Some first, Some final) \<Rightarrow>
          (let prepend = take first new;
               middle = take (Suc final - first) (drop first new);
               middle_added = filter (\<lambda>m. \<not> is_kept (row_key m)) middle;
               middle_kept = filter is_kept (map row_key middle);
               tail = drop (Suc final) new
           in
           if middle_added = [] \<and> middle_kept = retained_old_order
           then Some (prepend, tail, None)
           else Some (prepend, middle_added @ tail, Some new_keys))
      | _ \<Rightarrow>
          if old = [] then Some ([], new, None)
          else if new = [] then Some ([], [], None)
          else None)"

definition upserts ::
  "('e IMMessage \<Rightarrow> 'j option) \<Rightarrow> CompareRows \<Rightarrow> 'e IMMessage list \<Rightarrow> 'e IMMessage list \<Rightarrow> 'e IMMessage list" where
  "upserts row_json compare old new =
     filter (\<lambda>m.
        (case position (\<lambda>o'. row_key o' = row_key m) old of
           None \<Rightarrow> False
         | Some index \<Rightarrow> should_compare compare (row_key m) \<and> row_json (old ! index) \<noteq> row_json m)) new"

definition timeline_change ::
  "('e IMMessage \<Rightarrow> 'j option) \<Rightarrow> (Conversation option \<Rightarrow> 'k option) \<Rightarrow> 'e TimelineWindow \<Rightarrow>
   'e TimelineWindow \<Rightarrow> CompareRows \<Rightarrow> 'e TimelineChange" where
  "timeline_change row_json conv_json old new compare =
     (let old_keys = map row_key (tw_messages old); new_keys = map row_key (tw_messages new) in
      if \<not> distinct old_keys \<or> \<not> distinct new_keys then ChSnapshot
      else
        let remove = filter (\<lambda>key. key \<notin> set new_keys) old_keys in
        case row_moves (tw_messages old) (tw_messages new) of
          None \<Rightarrow> ChSnapshot
        | Some (prepend, append', reorder) \<Rightarrow>
            let upsert = upserts row_json compare (tw_messages old) (tw_messages new);
                conversation_changed = (conv_json (tw_conversation old) \<noteq> conv_json (tw_conversation new));
                state_changed = (tw_has_older old \<noteq> tw_has_older new \<or>
                                 tw_attached_to_latest old \<noteq> tw_attached_to_latest new)
            in
            if prepend = [] \<and> append' = [] \<and> upsert = [] \<and> remove = [] \<and> reorder = None \<and>
               \<not> state_changed \<and> \<not> conversation_changed
            then ChNone
            else ChDelta
              \<lparr>vd_prepend = prepend, vd_append = append', vd_upsert = upsert, vd_remove = remove,
               vd_reorder = reorder, vd_has_older = tw_has_older new, vd_has_newer = has_newer new,
               vd_attached_to_latest = tw_attached_to_latest new,
               vd_conversation = (if conversation_changed then tw_conversation new else None)\<rparr>)"

subsection \<open>Rows that come in\<close>

definition prepend_older :: "'e IMMessage list \<Rightarrow> 'e TimelineWindow \<Rightarrow> 'e TimelineWindow \<times> u32" where
  "prepend_older older w =
     (let rows = filter (\<lambda>m. row_key m \<notin> window_keys w) older in
      (resort (w\<lparr>tw_messages := sort_by compare_for_timeline_asc rows @ tw_messages w\<rparr>),
       of_nat (length rows)))"

definition append_newer :: "'e IMMessage list \<Rightarrow> 'e TimelineWindow \<Rightarrow> 'e TimelineWindow \<times> u32" where
  "append_newer newer w =
     (let rows = filter (\<lambda>m. row_key m \<notin> window_keys w) newer in
      (resort (w\<lparr>tw_messages := tw_messages w @ rows\<rparr>), of_nat (length rows)))"

text \<open>One message of the loop of \<open>merge_live\<close>; the state is the index by key, the rows and
  whether anything changed.\<close>

definition merge_live_step ::
  "('e IMMessage \<Rightarrow> 'j option) \<Rightarrow> bool \<Rightarrow> u64 option \<Rightarrow> 'e IMMessage \<Rightarrow>
   (string \<rightharpoonup> nat) \<times> 'e IMMessage list \<times> bool \<Rightarrow> (string \<rightharpoonup> nat) \<times> 'e IMMessage list \<times> bool" where
  "merge_live_step row_json attached oldest m = (\<lambda>(index_by_key, rows, changed).
     case index_by_key (row_key m) of
       Some index \<Rightarrow>
         if row_json (rows ! index) \<noteq> row_json m then (index_by_key, rows[index := m], True)
         else (index_by_key, rows, changed)
     | None \<Rightarrow>
         if \<not> attached then (index_by_key, rows, changed)
         else if im_conversation_seq m > 0 \<and>
                 (case oldest of Some o' \<Rightarrow> im_conversation_seq m < o' | None \<Rightarrow> False)
         then (index_by_key, rows, changed)
         else (index_by_key(row_key m \<mapsto> length rows), rows @ [m], True))"

definition merge_live ::
  "('e IMMessage \<Rightarrow> 'j option) \<Rightarrow> 'e IMMessage list \<Rightarrow> 'e TimelineWindow \<Rightarrow> 'e TimelineWindow \<times> bool" where
  "merge_live row_json incoming w =
     (let rows = tw_messages w;
          index_by_key = map_of (rev (zip (map row_key rows) [0..<length rows]));
          mine = filter (\<lambda>m. trim (im_conversation_id m) = tw_conversation_id w) incoming;
          (_, rows', changed) =
            fold (merge_live_step row_json (tw_attached_to_latest w) (oldest_seq w)) mine
              (index_by_key, rows, False);
          w' = w\<lparr>tw_messages := rows'\<rparr>
      in (if changed then resort w' else w', changed))"

definition apply_reread_rows ::
  "string set \<Rightarrow> 'e IMMessage list \<Rightarrow> u64 \<Rightarrow> 'e TimelineWindow \<Rightarrow> 'e TimelineWindow" where
  "apply_reread_rows targets rows visibility_floor w =
     (let fresh = map_of (rev (map (\<lambda>m. (row_key m, m))
            (filter (\<lambda>m. trim (im_conversation_id m) = tw_conversation_id w \<and>
               (im_conversation_seq m = 0 \<or> im_conversation_seq m > visibility_floor)) rows)))
      in resort (w\<lparr>tw_messages := List.map_filter (\<lambda>m.
           if row_key m \<notin> targets then Some m else fresh (row_key m)) (tw_messages w)\<rparr>))"

section \<open>Specification: applying a delta\<close>

definition upsert_row :: "'e IMMessage list \<Rightarrow> 'e IMMessage \<Rightarrow> 'e IMMessage" where
  "upsert_row upsert m = (case find (\<lambda>u. row_key u = row_key m) upsert of Some u \<Rightarrow> u | None \<Rightarrow> m)"

definition host_rows :: "'e TimelineDelta \<Rightarrow> 'e IMMessage list \<Rightarrow> 'e IMMessage list" where
  "host_rows d rows =
     (let kept = map (upsert_row (vd_upsert d)) (filter (\<lambda>m. row_key m \<notin> set (vd_remove d)) rows);
          rows' = vd_prepend d @ kept @ vd_append d
      in case vd_reorder d of
           None \<Rightarrow> rows'
         | Some keys \<Rightarrow> List.map_filter (\<lambda>k. find (\<lambda>m. row_key m = k) rows') keys)"

definition host_apply :: "'e TimelineDelta \<Rightarrow> 'e TimelineViewSnapshot \<Rightarrow> 'e TimelineViewSnapshot" where
  "host_apply d s =
     s\<lparr>sn_messages := host_rows d (sn_messages s), sn_has_older := vd_has_older d,
       sn_has_newer := vd_has_newer d, sn_attached_to_latest := vd_attached_to_latest d,
       sn_conversation := (case vd_conversation d of Some c \<Rightarrow> Some c | None \<Rightarrow> sn_conversation s)\<rparr>"

text \<open>What a host sees of a window.\<close>

definition shows_window ::
  "('e IMMessage \<Rightarrow> 'j option) \<Rightarrow> 'e TimelineViewSnapshot \<Rightarrow> 'e TimelineWindow \<Rightarrow> bool" where
  "shows_window row_json s w \<longleftrightarrow>
     map row_key (sn_messages s) = map row_key (tw_messages w) \<and>
     map row_json (sn_messages s) = map row_json (tw_messages w) \<and>
     sn_has_older s = tw_has_older w \<and> sn_has_newer s = has_newer w \<and>
     sn_attached_to_latest s = tw_attached_to_latest w"

section \<open>Lemmas\<close>

lemma resort_simps [simp]:
  "mset (tw_messages (resort w)) = mset (tw_messages w)"
  "tw_has_older (resort w) = tw_has_older w"
  "tw_attached_to_latest (resort w) = tw_attached_to_latest w"
  "tw_conversation_id (resort w) = tw_conversation_id w"
  by (simp_all add: resort_def sort_window_def)

lemma set_resort [simp]: "set (tw_messages (resort w)) = set (tw_messages w)"
  using resort_simps(1) by (metis set_mset_mset)

lemma distinct_resort [simp]:
  "distinct (map row_key (tw_messages (resort w))) \<longleftrightarrow> distinct (map row_key (tw_messages w))"
  by (simp add: resort_def sort_window_def)

lemma resort_sorted:
  "\<forall>m\<in>set (tw_messages w). orderly m \<Longrightarrow> sorted_by compare_for_timeline_asc (tw_messages (resort w))"
  using timeline_order.adjacent_le_sorted [of "tw_messages w"] timeline_order.sorted_sort_by [of "tw_messages w"]
  by (auto simp: resort_def sort_window_def is_sorted_def)

subsection \<open>Deltas\<close>

lemma map_filter_find_keys:
  assumes "set keys \<subseteq> row_key ` set rows"
  shows "map row_key (List.map_filter (\<lambda>k. find (\<lambda>m. row_key m = k) rows) keys) = keys"
    and "set (List.map_filter (\<lambda>k. find (\<lambda>m. row_key m = k) rows) keys) \<subseteq> set rows"
proof -
  have hit: "\<exists>m. find (\<lambda>m. row_key m = k) rows = Some m \<and> row_key m = k \<and> m \<in> set rows" if "k \<in> set keys" for k
  proof -
    have "find (\<lambda>m. row_key m = k) rows \<noteq> None" using assms that by (auto simp: find_None_iff)
    then show ?thesis by (auto simp: find_Some_iff)
  qed
  show "map row_key (List.map_filter (\<lambda>k. find (\<lambda>m. row_key m = k) rows) keys) = keys"
    using hit by (induction keys) (auto simp: map_filter_simps find_Some_iff split: option.split)
  show "set (List.map_filter (\<lambda>k. find (\<lambda>m. row_key m = k) rows) keys) \<subseteq> set rows"
    by (induction keys) (auto simp: map_filter_simps find_Some_iff split: option.split)
qed

text \<open>Two lists of rows with the same distinct keys whose rows of the same key agree.\<close>

lemma same_rows:
  assumes "map row_key R = map row_key N"
    and "\<And>r n. r \<in> set R \<Longrightarrow> n \<in> set N \<Longrightarrow> row_key r = row_key n \<Longrightarrow> row_json r = row_json n"
  shows "map row_json R = map row_json N"
proof (rule nth_equalityI)
  have len: "length R = length N" using assms(1) by (metis length_map)
  then show "length (map row_json R) = length (map row_json N)" by simp
  fix i assume "i < length (map row_json R)"
  then have i: "i < length R" "i < length N" using len by auto
  have "row_key (R ! i) = row_key (N ! i)" using assms(1) i by (metis nth_map)
  then show "map row_json R ! i = map row_json N ! i" using assms(2) i by simp
qed

text \<open>The rows kept from the old version, after the replacements, agree with the new version.\<close>

lemma kept_rows_agree:
  assumes "distinct (map row_key old)" "distinct (map row_key new)"
    and "\<And>o' n. o' \<in> set old \<Longrightarrow> n \<in> set new \<Longrightarrow> row_key o' = row_key n \<Longrightarrow>
      \<not> should_compare compare (row_key n) \<Longrightarrow> row_json o' = row_json n"
    and "o' \<in> set old" "n \<in> set new" "row_key o' = row_key n"
  shows "row_json (upsert_row (upserts row_json compare old new) o') = row_json n"
    and "row_key (upsert_row (upserts row_json compare old new) o') = row_key o'"
proof -
  let ?U = "upserts row_json compare old new"
  have uniq: "u = n" if "u \<in> set new" "row_key u = row_key o'" for u
    using assms(2,5,6) that by (auto simp: distinct_map dest: inj_onD)
  obtain i where i: "position (\<lambda>x. row_key x = row_key n) old = Some i"
    using assms(4,6) by (cases "position (\<lambda>x. row_key x = row_key n) old") (auto simp: position_None)
  have "old ! i = o'"
    using position_Some [OF i] assms(1,4,6) inj_onD [of row_key "set old" "old ! i" o']
    by (auto simp: distinct_map)
  then have in_U: "n \<in> set ?U \<longleftrightarrow> should_compare compare (row_key n) \<and> row_json o' \<noteq> row_json n"
    using assms(5) i by (simp add: upserts_def)
  have sub: "u = n" if "u \<in> set ?U" "row_key u = row_key o'" for u
    using uniq that by (auto simp: upserts_def)
  show "row_json (upsert_row ?U o') = row_json n"
  proof (cases "find (\<lambda>u. row_key u = row_key o') ?U")
    case None
    then have "n \<notin> set ?U" using assms(6) by (auto simp: find_None_iff)
    then have "row_json o' = row_json n" using in_U assms(3) [OF assms(4-6)] by blast
    then show ?thesis using None by (simp add: upsert_row_def)
  next
    case (Some u)
    then have "u = n" using sub by (auto simp: find_Some_iff)
    then show ?thesis using Some by (simp add: upsert_row_def)
  qed
  show "row_key (upsert_row ?U o') = row_key o'"
    by (auto simp: upsert_row_def find_Some_iff split: option.split)
qed

lemma kept_prefix:
  assumes "position P (map f xs) = Some i" "rposition P (map f xs) = Some j"
  shows "xs = take i xs @ take (Suc j - i) (drop i xs) @ drop (Suc j) xs"
    and "\<forall>x\<in>set (take i xs). \<not> P (f x)" "\<forall>x\<in>set (drop (Suc j) xs). \<not> P (f x)"
proof -
  have p: "i < length xs" "P (f (xs ! i))" "\<forall>k<i. \<not> P (f (xs ! k))"
    using position_Some [OF assms(1)] by auto
  have r: "j < length xs" "\<forall>x\<in>set (drop (Suc j) (map f xs)). \<not> P x" using rposition_Some [OF assms(2)] by auto
  show "\<forall>x\<in>set (take i xs). \<not> P (f x)" using p by (auto simp: in_set_conv_nth)
  show tail: "\<forall>x\<in>set (drop (Suc j) xs). \<not> P (f x)" using r(2) by (auto simp: drop_map)
  have "i < Suc j"
  proof (rule ccontr)
    assume "\<not> i < Suc j"
    then have "drop (Suc j) xs ! (i - Suc j) = xs ! i" "i - Suc j < length (drop (Suc j) xs)" using p(1) by auto
    then have "xs ! i \<in> set (drop (Suc j) xs)" by (metis nth_mem)
    then show False using tail p(2) by blast
  qed
  then have "drop i xs = take (Suc j - i) (drop i xs) @ drop (Suc j) xs"
    by (metis append_take_drop_id drop_drop le_add_diff_inverse2 less_imp_le_nat)
  then show "xs = take i xs @ take (Suc j - i) (drop i xs) @ drop (Suc j) xs"
    by (metis append_take_drop_id)
qed

lemma row_moves_shape:
  assumes "row_moves old new = Some (prepend, append', reorder)"
    and "distinct (map row_key old)" "distinct (map row_key new)"
    and "kept = filter (\<lambda>m. row_key m \<in> row_key ` set new) old"
  shows "set prepend \<subseteq> set new \<and> set append' \<subseteq> set new \<and>
    row_key ` set new \<subseteq> row_key ` (set prepend \<union> set kept \<union> set append') \<and>
    (reorder = None \<longrightarrow> map row_key (prepend @ kept @ append') = map row_key new) \<and>
    (reorder = None \<or> reorder = Some (map row_key new))"
proof -
  let ?K = "\<lambda>key. key \<in> set (map row_key old)"
  have retained: "filter (\<lambda>key. key \<in> set (map row_key new)) (map row_key old) = map row_key kept"
    by (simp add: assms(4) filter_map o_def)
  show ?thesis
  proof (cases "position ?K (map row_key new)")
    case None
    then have none: "row_key ` set new \<inter> row_key ` set old = {}" by (auto simp: position_None)
    then have "kept = []" by (auto simp: assms(4) filter_empty_conv)
    then show ?thesis using assms(1) None by (auto simp: row_moves_def split: if_splits)
  next
    case (Some i)
    then have "\<not> (\<forall>x\<in>set (map row_key new). \<not> ?K x)" using position_None [of ?K "map row_key new"] by simp
    then obtain j where j: "rposition ?K (map row_key new) = Some j"
      using rposition_None [of ?K "map row_key new"] by (cases "rposition ?K (map row_key new)") blast+
    let ?mid = "take (Suc j - i) (drop i new)"
    let ?added = "filter (\<lambda>m. \<not> ?K (row_key m)) ?mid"
    note parts = kept_prefix [OF Some j]
    have moves: "row_moves old new =
        (if ?added = [] \<and> filter ?K (map row_key ?mid) = map row_key kept
         then Some (take i new, drop (Suc j) new, None)
         else Some (take i new, ?added @ drop (Suc j) new, Some (map row_key new)))"
      unfolding row_moves_def Some j Let_def retained by simp
    have new: "set new = set (take i new) \<union> set ?mid \<union> set (drop (Suc j) new)"
      using arg_cong [OF parts(1), of set] by (simp only: set_append Un_assoc)
    have mid: "row_key ` set ?mid \<subseteq> row_key ` (set ?added \<union> set kept)"
    proof
      fix k assume "k \<in> row_key ` set ?mid"
      then obtain m where m: "m \<in> set ?mid" "k = row_key m" by blast
      show "k \<in> row_key ` (set ?added \<union> set kept)"
      proof (cases "?K k")
        case True
        then obtain o' where "o' \<in> set old" "row_key o' = k" by auto
        moreover have "k \<in> row_key ` set new" using m new by blast
        ultimately have "o' \<in> set kept" by (simp add: assms(4))
        then show ?thesis using \<open>row_key o' = k\<close> by blast
      next
        case False
        then have "m \<in> set ?added" using m by simp
        then show ?thesis using m(2) by blast
      qed
    qed
    show ?thesis
    proof (cases "?added = [] \<and> filter ?K (map row_key ?mid) = map row_key kept")
      case True
      have "\<forall>k\<in>set (map row_key ?mid). ?K k" using conjunct1 [OF True] by (simp add: filter_empty_conv)
      then have "filter ?K (map row_key ?mid) = map row_key ?mid" by (rule filter_True)
      then have mk: "map row_key ?mid = map row_key kept" using conjunct2 [OF True] by (rule subst)
      have "map row_key new = map row_key (take i new) @ map row_key ?mid @ map row_key (drop (Suc j) new)"
        using arg_cong [OF parts(1), of "map row_key"] by (simp only: map_append)
      then have "map row_key (take i new @ kept @ drop (Suc j) new) = map row_key new"
        unfolding mk by (simp only: map_append)
      moreover have "prepend = take i new" "append' = drop (Suc j) new" "reorder = None"
        using assms(1) unfolding moves if_P [OF True] by simp_all
      moreover have "row_key ` set ?mid = row_key ` set kept" using mk by (metis list.set_map)
      ultimately show ?thesis using new by (auto simp: image_Un)
    next
      case False
      then have "prepend = take i new" "append' = ?added @ drop (Suc j) new" "reorder = Some (map row_key new)"
        using assms(1) unfolding moves if_not_P [OF False] by simp_all
      then show ?thesis using new mid by (auto simp: image_Un)
    qed
  qed
qed

lemma host_rows_agree:
  assumes "distinct (map row_key old)" "distinct (map row_key new)"
    and "row_moves old new = Some (vd_prepend d, vd_append d, vd_reorder d)"
    and "vd_upsert d = upserts row_json compare old new"
    and "vd_remove d = filter (\<lambda>key. key \<notin> set (map row_key new)) (map row_key old)"
    and "\<And>o' n. o' \<in> set old \<Longrightarrow> n \<in> set new \<Longrightarrow> row_key o' = row_key n \<Longrightarrow>
      \<not> should_compare compare (row_key n) \<Longrightarrow> row_json o' = row_json n"
  shows "map row_key (host_rows d old) = map row_key new \<and> map row_json (host_rows d old) = map row_json new"
proof -
  define kept where "kept = filter (\<lambda>m. row_key m \<in> row_key ` set new) old"
  let ?up = "upsert_row (vd_upsert d)"
  let ?rows = "vd_prepend d @ map ?up kept @ vd_append d"
  have kept: "filter (\<lambda>m. row_key m \<notin> set (vd_remove d)) old = kept"
    unfolding kept_def assms(5) by (rule filter_cong) auto
  note shape = row_moves_shape [OF assms(3,1,2) kept_def]
  have up: "row_key (?up o') = row_key o' \<and> (\<forall>n\<in>set new. row_key n = row_key o' \<longrightarrow> row_json (?up o') = row_json n)"
    if "o' \<in> set kept" for o'
  proof -
    from that obtain n where n: "o' \<in> set old" "n \<in> set new" "row_key o' = row_key n" by (auto simp: kept_def)
    have "row_key (?up o') = row_key o'"
      unfolding assms(4) by (rule kept_rows_agree(2) [OF assms(1,2,6) n])
    moreover have "row_json (?up o') = row_json n'" if "n' \<in> set new" "row_key n' = row_key o'" for n'
      unfolding assms(4) by (rule kept_rows_agree(1) [OF assms(1,2,6) n(1) that(1) that(2) [symmetric]])
    ultimately show ?thesis by blast
  qed
  have keys_up: "map row_key (map ?up kept) = map row_key kept" using up by simp
  have uniq: "r = n" if "r \<in> set new" "n \<in> set new" "row_key r = row_key n" for r n
    using assms(2) that by (simp add: distinct_map inj_on_def)
  have agree: "row_json r = row_json n" if "r \<in> set ?rows" "n \<in> set new" "row_key r = row_key n" for r n
  proof (cases "r \<in> set new")
    case True
    then show ?thesis using uniq that by metis
  next
    case False
    moreover have "set (vd_prepend d) \<subseteq> set new" "set (vd_append d) \<subseteq> set new" using shape by blast+
    ultimately have "r \<in> set (map ?up kept)" using that(1) unfolding set_append by blast
    then obtain o' where "o' \<in> set kept" "r = ?up o'" by auto
    then show ?thesis using up that by metis
  qed
  have "map row_key (host_rows d old) = map row_key new \<and> set (host_rows d old) \<subseteq> set ?rows"
  proof (cases "vd_reorder d")
    case None
    then have rows: "host_rows d old = ?rows" unfolding host_rows_def Let_def kept by simp
    have "map row_key (vd_prepend d @ kept @ vd_append d) = map row_key new" using None shape by blast
    then have "map row_key ?rows = map row_key new" using keys_up by (simp only: map_append)
    then show ?thesis unfolding rows by (rule conjI) (rule subset_refl)
  next
    case (Some keys)
    then have keys: "keys = map row_key new" using shape by simp
    have "row_key ` set ?rows = row_key ` (set (vd_prepend d) \<union> set kept \<union> set (vd_append d))"
      using up by (auto simp: image_Un image_image)
    then have "set keys \<subseteq> row_key ` set ?rows" using shape keys by simp
    note found = map_filter_find_keys [OF this]
    have "host_rows d old = List.map_filter (\<lambda>k. find (\<lambda>m. row_key m = k) ?rows) keys"
      unfolding host_rows_def Let_def kept Some by simp
    then show ?thesis using found keys by simp
  qed
  then show ?thesis using same_rows [of "host_rows d old" new row_json] agree by blast
qed

subsection \<open>Live messages\<close>

definition live_accepts :: "bool \<Rightarrow> u64 option \<Rightarrow> 'e IMMessage \<Rightarrow> bool" where
  "live_accepts attached oldest m \<longleftrightarrow> attached \<and>
     \<not> (im_conversation_seq m > 0 \<and> (case oldest of Some o' \<Rightarrow> im_conversation_seq m < o' | None \<Rightarrow> False))"

text \<open>The loop invariant: the index is exact, keys stay distinct, only accepted rows add keys, and
  every row is the last incoming one of its key, or an old row that none touched.\<close>

fun live_inv ::
  "('e IMMessage \<Rightarrow> 'j option) \<Rightarrow> ('e IMMessage \<Rightarrow> bool) \<Rightarrow> 'e IMMessage list \<Rightarrow> 'e IMMessage list \<Rightarrow>
   (string \<rightharpoonup> nat) \<times> 'e IMMessage list \<times> bool \<Rightarrow> bool" where
  "live_inv row_json accepts rows0 ms (idx, rows, changed) \<longleftrightarrow>
     (\<forall>k. idx k = None \<longleftrightarrow> k \<notin> row_key ` set rows) \<and>
     (\<forall>k i. idx k = Some i \<longrightarrow> i < length rows \<and> row_key (rows ! i) = k) \<and>
     distinct (map row_key rows) \<and>
     row_key ` set rows = row_key ` set rows0 \<union> row_key ` {m \<in> set ms. accepts m} \<and>
     (\<forall>r\<in>set rows. case find (\<lambda>x. row_key x = row_key r) (rev ms) of
        Some x \<Rightarrow> row_json r = row_json x | None \<Rightarrow> r \<in> set rows0) \<and>
     set rows \<subseteq> set rows0 \<union> set ms \<and>
     (changed \<or> rows = rows0)"

lemma live_inv_start:
  assumes "distinct (map row_key rows)"
  shows "live_inv row_json accepts rows [] (map_of (rev (zip (map row_key rows) [0..<length rows])), rows, False)"
proof -
  let ?idx = "map_of (rev (zip (map row_key rows) [0..<length rows]))"
  have "?idx k = None \<longleftrightarrow> k \<notin> row_key ` set rows" for k
  proof -
    have "map fst (zip (map row_key rows) [0..<length rows]) = map row_key rows" by simp
    then have "fst ` set (zip (map row_key rows) [0..<length rows]) = row_key ` set rows" by (metis list.set_map)
    then show ?thesis by (simp add: map_of_eq_None_iff)
  qed
  moreover have "i < length rows \<and> row_key (rows ! i) = k" if "?idx k = Some i" for k i
    using map_of_SomeD [OF that] by (auto simp: set_zip)
  ultimately show ?thesis using assms by auto
qed

lemma live_inv_step:
  assumes "live_inv row_json (live_accepts attached oldest) rows0 ms st"
  shows "live_inv row_json (live_accepts attached oldest) rows0 (ms @ [m])
    (merge_live_step row_json attached oldest m st)"
proof (cases st)
  case (fields idx rows changed)
  note inv = assms [unfolded fields live_inv.simps]
  have none: "\<And>k. idx k = None \<longleftrightarrow> k \<notin> row_key ` set rows"
    and some: "\<And>k i. idx k = Some i \<Longrightarrow> i < length rows \<and> row_key (rows ! i) = k"
    and dist: "distinct (map row_key rows)"
    and keys: "row_key ` set rows = row_key ` set rows0 \<union> row_key ` {m \<in> set ms. live_accepts attached oldest m}"
    and last: "\<And>r. r \<in> set rows \<Longrightarrow> case find (\<lambda>x. row_key x = row_key r) (rev ms) of
        Some x \<Rightarrow> row_json r = row_json x | None \<Rightarrow> r \<in> set rows0"
    and sub: "set rows \<subseteq> set rows0 \<union> set ms" and ch: "changed \<or> rows = rows0"
    using inv by blast+
  show ?thesis
  proof (cases "idx (row_key m)")
    case (Some i)
    have i: "i < length rows" "row_key (rows ! i) = row_key m" using some [OF Some] by auto
    then have mem: "row_key m \<in> row_key ` set rows" by (metis image_eqI nth_mem)
    have upd_keys: "map row_key (rows[i := m]) = map row_key rows"
      using i by (simp add: map_update list_update_same_conv [THEN iffD2])
    have uniq: "j = i" if "j < length rows" "row_key (rows ! j) = row_key m" for j
      using dist that i by (metis length_map nth_eq_iff_index_eq nth_map)
    have ks: "row_key ` set rows = row_key ` set rows0 \<union> row_key ` {x \<in> set (ms @ [m]). live_accepts attached oldest x}"
      using keys mem by auto
    show ?thesis
    proof (cases "row_json (rows ! i) = row_json m")
      case True
      then have "merge_live_step row_json attached oldest m st = (idx, rows, changed)"
        using Some by (simp add: fields merge_live_step_def)
      moreover have "case find (\<lambda>x. row_key x = row_key r) (rev (ms @ [m])) of
          Some x \<Rightarrow> row_json r = row_json x | None \<Rightarrow> r \<in> set rows0" if "r \<in> set rows" for r
      proof -
        obtain j where "j < length rows" "r = rows ! j" using \<open>r \<in> set rows\<close> by (auto simp: in_set_conv_nth)
        then show ?thesis using last [OF that] uniq True by auto
      qed
      ultimately show ?thesis using none some dist ks sub ch by auto
    next
      case False
      then have step: "merge_live_step row_json attached oldest m st = (idx, rows[i := m], True)"
        using Some by (simp add: fields merge_live_step_def)
      have img: "row_key ` set (rows[i := m]) = row_key ` set rows" using upd_keys by (metis list.set_map)
      have sm: "j < length (rows[i := m]) \<and> row_key (rows[i := m] ! j) = k" if "idx k = Some j" for k j
        using some [OF that] i by (metis length_list_update length_map nth_map upd_keys)
      have "case find (\<lambda>x. row_key x = row_key r) (rev (ms @ [m])) of
          Some x \<Rightarrow> row_json r = row_json x | None \<Rightarrow> r \<in> set rows0" if "r \<in> set (rows[i := m])" for r
      proof -
        obtain j where j: "j < length rows" "r = rows[i := m] ! j"
          using \<open>r \<in> set (rows[i := m])\<close> by (auto simp: in_set_conv_nth)
        show ?thesis
        proof (cases "j = i")
          case False
          then have "r = rows ! j" "row_key r \<noteq> row_key m" using j uniq by auto
          then show ?thesis using last [of r] j(1) by auto
        qed (use j in simp)
      qed
      moreover have "set (rows[i := m]) \<subseteq> set rows0 \<union> set (ms @ [m])"
        using sub set_update_subset_insert [of rows i m] by auto
      ultimately show ?thesis unfolding step live_inv.simps img upd_keys using none sm dist ks by blast
    qed
  next
    case None
    then have fresh: "row_key m \<notin> row_key ` set rows" using none by simp
    have keep: "case find (\<lambda>x. row_key x = row_key r) (rev (ms @ [m])) of
          Some x \<Rightarrow> row_json r = row_json x | None \<Rightarrow> r \<in> set rows0" if "r \<in> set rows" for r
    proof -
      have "row_key m \<noteq> row_key r" using fresh that by auto
      then show ?thesis using last [OF that] by simp
    qed
    show ?thesis
    proof (cases "live_accepts attached oldest m")
      case False
      then have "merge_live_step row_json attached oldest m st = (idx, rows, changed)"
        using None by (auto simp: fields merge_live_step_def live_accepts_def)
      moreover have "row_key ` set rows = row_key ` set rows0 \<union> row_key ` {x \<in> set (ms @ [m]). live_accepts attached oldest x}"
        using keys False by auto
      ultimately show ?thesis using none some dist sub ch keep by auto
    next
      case True
      then have step: "merge_live_step row_json attached oldest m st = (idx(row_key m \<mapsto> length rows), rows @ [m], True)"
        using None by (auto simp: fields merge_live_step_def live_accepts_def)
      have nn: "(idx(row_key m \<mapsto> length rows)) k = None \<longleftrightarrow> k \<notin> row_key ` set (rows @ [m])" for k
        using none by auto
      have ss: "j < length (rows @ [m]) \<and> row_key ((rows @ [m]) ! j) = k"
        if "(idx(row_key m \<mapsto> length rows)) k = Some j" for k j
        using that some [of k j] by (auto simp: nth_append split: if_splits)
      have dd: "distinct (map row_key (rows @ [m]))" using dist fresh by auto
      have kk: "row_key ` set (rows @ [m]) =
          row_key ` set rows0 \<union> row_key ` {x \<in> set (ms @ [m]). live_accepts attached oldest x}"
        using keys True by auto
      have ll: "case find (\<lambda>x. row_key x = row_key r) (rev (ms @ [m])) of
          Some x \<Rightarrow> row_json r = row_json x | None \<Rightarrow> r \<in> set rows0" if "r \<in> set (rows @ [m])" for r
        using that keep [of r] by auto
      have "set (rows @ [m]) \<subseteq> set rows0 \<union> set (ms @ [m])" using sub by auto
      then show ?thesis unfolding step live_inv.simps using nn ss dd kk ll by blast
    qed
  qed
qed

lemma live_inv_fold:
  assumes "distinct (map row_key rows)"
  shows "live_inv row_json (live_accepts attached oldest) rows ms
    (fold (merge_live_step row_json attached oldest) ms
      (map_of (rev (zip (map row_key rows) [0..<length rows])), rows, False))"
proof (induction ms rule: rev_induct)
  case Nil
  then show ?case using live_inv_start [OF assms] by simp
next
  case (snoc m ms)
  then show ?case using live_inv_step [OF snoc] by simp
qed

subsection \<open>Trimming, paging and re-reading\<close>

lemma trim_older_bounds:
  "length (tw_messages (trim_older_end limit w)) \<le> max limit (min (length (tw_messages w)) limit) \<and>
   (tw_messages (trim_older_end limit w) \<noteq> tw_messages w \<longrightarrow> tw_has_older (trim_older_end limit w)) \<and>
   suffix (tw_messages (trim_older_end limit w)) (tw_messages w)"
  by (auto simp: trim_older_end_def suffix_drop)

lemma trim_newer_bounds:
  "length (tw_messages (trim_newer_end limit w)) \<le> limit \<and>
   (tw_messages (trim_newer_end limit w) \<noteq> tw_messages w \<longrightarrow> has_newer (trim_newer_end limit w))"
proof -
  have "length (filter (\<lambda>m. im_conversation_seq m > 0) (take limit (tw_messages w))) \<le> limit"
    by (rule order_trans [OF length_filter_le]) simp
  then show ?thesis by (auto simp: trim_newer_end_def has_newer_def)
qed

lemma prepend_older_rows:
  "mset (tw_messages (fst (prepend_older older w))) =
     mset (filter (\<lambda>m. row_key m \<notin> window_keys w) older) + mset (tw_messages w)"
  by (simp add: prepend_older_def Let_def)

lemma append_newer_rows:
  "mset (tw_messages (fst (append_newer newer w))) =
     mset (filter (\<lambda>m. row_key m \<notin> window_keys w) newer) + mset (tw_messages w)"
  by (simp add: append_newer_def Let_def)

section \<open>Properties\<close>



text \<open>C35. Live messages keep the row keys of a window distinct; they add exactly the keys of the
  messages of its conversation that are not below its oldest row, and none while the window is
  detached from the latest; every row then shows the last live message of its key, and rows that
  no live message touched are unchanged.  The window stays in timeline order when its rows are
  sequenced or waiting.\<close>

theorem live_merge_exact:
  assumes "distinct (map row_key (tw_messages w))"
  shows "(let mine = filter (\<lambda>m. trim (im_conversation_id m) = tw_conversation_id w) incoming;
      (w', changed) = merge_live row_json incoming w in
    distinct (map row_key (tw_messages w')) \<and>
    window_keys w' = window_keys w \<union>
      row_key ` {m \<in> set mine. live_accepts (tw_attached_to_latest w) (oldest_seq w) m} \<and>
    (\<forall>r\<in>set (tw_messages w'). case find (\<lambda>x. row_key x = row_key r) (rev mine) of
        Some x \<Rightarrow> row_json r = row_json x | None \<Rightarrow> r \<in> set (tw_messages w)) \<and>
    (changed \<or> tw_messages w' = tw_messages w) \<and>
    (changed \<and> (\<forall>r\<in>set (tw_messages w'). orderly r) \<longrightarrow> sorted_by compare_for_timeline_asc (tw_messages w')))"
proof -
  define mine where "mine = filter (\<lambda>m. trim (im_conversation_id m) = tw_conversation_id w) incoming"
  obtain idx rows changed where f: "fold (merge_live_step row_json (tw_attached_to_latest w) (oldest_seq w)) mine
      (map_of (rev (zip (map row_key (tw_messages w)) [0..<length (tw_messages w)])), tw_messages w, False) =
      (idx, rows, changed)"
    by (metis prod_cases3)
  have inv: "live_inv row_json (live_accepts (tw_attached_to_latest w) (oldest_seq w)) (tw_messages w) mine (idx, rows, changed)"
    unfolding f [symmetric] by (rule live_inv_fold [OF assms])
  define w' where "w' = (if changed then resort (w\<lparr>tw_messages := rows\<rparr>) else w\<lparr>tw_messages := rows\<rparr>)"
  have merge: "merge_live row_json incoming w = (w', changed)"
    by (simp add: merge_live_def Let_def mine_def [symmetric] f w'_def)
  have w': "set (tw_messages w') = set rows" "distinct (map row_key (tw_messages w')) = distinct (map row_key rows)"
    "\<not> changed \<Longrightarrow> tw_messages w' = rows"
    by (simp_all add: w'_def)
  have order: "sorted_by compare_for_timeline_asc (tw_messages w')"
    if "changed" "\<forall>r\<in>set rows. orderly r"
    using resort_sorted [of "w\<lparr>tw_messages := rows\<rparr>"] that by (simp add: w'_def)
  show ?thesis
    unfolding Let_def mine_def [symmetric] merge prod.case
    using inv order w' by (auto simp: window_keys_def)
qed

theorem live_merge_exact_witness:
  "window_keys (fst (merge_live (\<lambda>m. Some (im_conversation_seq m))
     [example_row ''old'' 1 1 False False, example_row ''b'' 6 6 False False]
     \<lparr>tw_conversation_id = ''c'', tw_conversation = None, tw_messages = [example_row ''a'' 5 5 False False],
      tw_has_older = True, tw_attached_to_latest = True, tw_anchor_key = None\<rparr>)) = {''a'', ''b''}"
proof -
  define w :: "unit TimelineWindow" where
    "w = \<lparr>tw_conversation_id = ''c'', tw_conversation = None, tw_messages = [example_row ''a'' 5 5 False False],
      tw_has_older = True, tw_attached_to_latest = True, tw_anchor_key = None\<rparr>"
  define json :: "unit IMMessage \<Rightarrow> u64 option" where "json = (\<lambda>m. Some (im_conversation_seq m))"
  define incoming where "incoming = [example_row ''old'' 1 1 False False, example_row ''b'' 6 6 False False]"
  have dist: "distinct (map row_key (tw_messages w))" by (simp add: w_def)
  have t: "trim ''c'' = ''c''" by code_simp
  have oldest: "oldest_seq w = Some 5" by (simp add: w_def oldest_seq_def window_seqs_def example_row_def)
  have mine: "filter (\<lambda>m. trim (im_conversation_id m) = tw_conversation_id w) incoming = incoming"
    by (simp add: incoming_def w_def example_row_def t)
  have "{m \<in> set incoming. live_accepts (tw_attached_to_latest w) (oldest_seq w) m} = {example_row ''b'' 6 6 False False}"
    unfolding oldest by (auto simp: incoming_def live_accepts_def w_def example_row_def)
  moreover have "window_keys w = {''a''}" "row_key (example_row ''b'' 6 6 False False) = ''b''"
    by (simp_all add: w_def window_keys_def row_key_def example_row_def)
  ultimately have "window_keys (fst (merge_live json incoming w)) = {''a'', ''b''}"
    using live_merge_exact [OF dist, of incoming json] unfolding mine
    by (cases "merge_live json incoming w") (auto simp: Let_def)
  then show ?thesis by (simp add: w_def json_def incoming_def)
qed

end
