(* ===== verification/Pending_Store.thy ===== *)
theory Pending_Store
  imports Message_Model
begin

text \<open>
  The store of messages that wait to be sent: the value object of \<open>domain/pending_send.rs\<close>, the
  contract of \<open>domain/repository/pending_send_repository.rs\<close> as the locale \<open>pending_store\<close>, and the
  in-memory store of \<open>infrastructure/persistence/memory.rs\<close>, which implements it.

  The map of the store is keyed by the client message id of its entries, so it is modelled as the
  list of its values; the order of the list is the order in which a hash map happens to iterate.
\<close>

section \<open>Definitions\<close>

record 'e PendingSendVo =
  pv_client_msg_id :: string
  pv_conversation_id :: string
  pv_message :: "'e IMMessage"
  pv_enqueued_at_ms :: u64

record 'e PendingEntries =
  pe_by_id :: "(u64 \<times> 'e PendingSendVo) list"
  pe_next_seq :: u64

definition PendingEntries_default :: "'e PendingEntries" where
  "PendingEntries_default = \<lparr>pe_by_id = [], pe_next_seq = 0\<rparr>"

definition compare_pending :: "u64 \<times> 'e PendingSendVo \<Rightarrow> u64 \<times> 'e PendingSendVo \<Rightarrow> Ordering" where
  "compare_pending a b =
     then_with (cmp (pv_enqueued_at_ms (snd a)) (pv_enqueued_at_ms (snd b))) (cmp (fst a) (fst b))"

definition ordered :: "'e PendingEntries \<Rightarrow> (u64 \<times> 'e PendingSendVo) list" where
  "ordered st = sort_by compare_pending (pe_by_id st)"

definition pending_get :: "'e PendingEntries \<Rightarrow> string \<Rightarrow> 'e PendingSendVo option" where
  "pending_get st i = map_option snd (find (\<lambda>(_, entry). pv_client_msg_id entry = i) (pe_by_id st))"

definition pending_list :: "'e PendingEntries \<Rightarrow> 'e PendingSendVo list" where
  "pending_list st = map snd (ordered st)"

definition take_oldest :: "'e PendingEntries \<Rightarrow> 'e PendingSendVo option" where
  "take_oldest st = (case ordered st of [] \<Rightarrow> None | (_, entry) # _ \<Rightarrow> Some entry)"

definition list_oldest_excluding :: "string list \<Rightarrow> nat \<Rightarrow> 'e PendingEntries \<Rightarrow> 'e PendingSendVo list" where
  "list_oldest_excluding excluded limit st =
     (if limit = 0 then []
      else map snd (take limit (filter (\<lambda>(_, entry). pv_client_msg_id entry \<notin> set excluded) (ordered st))))"

definition pending_push :: "'e PendingSendVo \<Rightarrow> 'e PendingEntries \<Rightarrow> 'e PendingEntries" where
  "pending_push entry st =
     st\<lparr>pe_by_id := filter (\<lambda>(_, e). pv_client_msg_id e \<noteq> pv_client_msg_id entry) (pe_by_id st) @ [(pe_next_seq st, entry)],
        pe_next_seq := pe_next_seq st + 1\<rparr>"

definition pending_pop :: "string \<Rightarrow> 'e PendingEntries \<Rightarrow> 'e PendingEntries" where
  "pending_pop i st = st\<lparr>pe_by_id := filter (\<lambda>(_, e). pv_client_msg_id e \<noteq> i) (pe_by_id st)\<rparr>"

section \<open>The contract of a store of pending sends\<close>

text \<open>
  What the send queue relies on: a push is found again, a pop removes exactly its id, the list
  holds exactly what can be found, by enqueue time, and the bounded listing is its prefix without
  the excluded ids.
\<close>

locale pending_store =
  fixes invar :: "'s \<Rightarrow> bool"
    and get :: "'s \<Rightarrow> string \<Rightarrow> 'e PendingSendVo option"
    and all_entries :: "'s \<Rightarrow> 'e PendingSendVo list"
    and oldest :: "string list \<Rightarrow> nat \<Rightarrow> 's \<Rightarrow> 'e PendingSendVo list"
    and push :: "'e PendingSendVo \<Rightarrow> 's \<Rightarrow> 's"
    and pop :: "string \<Rightarrow> 's \<Rightarrow> 's"
  assumes invar_push: "invar st \<Longrightarrow> invar (push entry st)"
    and invar_pop: "invar st \<Longrightarrow> invar (pop i st)"
    and get_push: "invar st \<Longrightarrow> get (push entry st) i = (if i = pv_client_msg_id entry then Some entry else get st i)"
    and get_pop: "invar st \<Longrightarrow> get (pop i st) j = (if j = i then None else get st j)"
    and get_list: "invar st \<Longrightarrow> get st i = Some entry \<longleftrightarrow> entry \<in> set (all_entries st) \<and> pv_client_msg_id entry = i"
    and list_distinct: "invar st \<Longrightarrow> distinct (map pv_client_msg_id (all_entries st))"
    and list_sorted: "sorted (map pv_enqueued_at_ms (all_entries st))"
    and oldest_list: "oldest excluded n st =
      take n (filter (\<lambda>e. pv_client_msg_id e \<notin> set excluded) (all_entries st))"
begin

lemma push_pop_other:
  "invar st \<Longrightarrow> i \<noteq> pv_client_msg_id entry \<Longrightarrow> get (pop i (push entry st)) j = get (push entry (pop i st)) j"
  by (simp add: get_push get_pop invar_push invar_pop)

lemma pop_absent: "invar st \<Longrightarrow> get st i = None \<Longrightarrow> get (pop i st) = get st"
  by (rule ext) (simp add: get_pop)

lemma oldest_pending:
  assumes "invar st" "entry \<in> set (oldest excluded n st)"
  shows "get st (pv_client_msg_id entry) = Some entry" "pv_client_msg_id entry \<notin> set excluded"
  using assms by (auto simp: oldest_list get_list dest!: in_set_takeD)

lemma oldest_empty:
  assumes "invar st" "0 < n" "oldest excluded n st = []" "get st i = Some entry"
  shows "i \<in> set excluded"
  using assms by (auto simp: oldest_list get_list filter_empty_conv)

text \<open>No dispatchable entry that is left out is older than one that is listed.\<close>

lemma oldest_first:
  assumes "invar st" "a \<in> set (oldest excluded n st)" "get st i = Some b" "i \<notin> set excluded"
    and "b \<notin> set (oldest excluded n st)"
  shows "pv_enqueued_at_ms a \<le> pv_enqueued_at_ms b"
proof -
  let ?xs = "filter (\<lambda>e. pv_client_msg_id e \<notin> set excluded) (all_entries st)"
  have split: "set ?xs = set (take n ?xs) \<union> set (drop n ?xs)"
    by (simp only: set_append [symmetric] append_take_drop_id)
  have "b \<in> set ?xs" using assms(1,3,4) by (simp add: get_list)
  then have b: "b \<in> set (drop n ?xs)" using assms(5) split by (simp only: oldest_list Un_iff simp_thms)
  have "sorted (map pv_enqueued_at_ms (take n ?xs @ drop n ?xs))"
    unfolding append_take_drop_id using list_sorted [of st] by (rule sorted_filter)
  then have "\<forall>x\<in>set (take n ?xs). \<forall>y\<in>set (drop n ?xs). pv_enqueued_at_ms x \<le> pv_enqueued_at_ms y"
    unfolding sorted_map sorted_wrt_append by (rule conjunct2 [OF conjunct2])
  then show ?thesis using assms(2) b unfolding oldest_list by simp
qed

end

section \<open>The in-memory store\<close>

definition pending_ids :: "'e PendingEntries \<Rightarrow> string set" where
  "pending_ids st = pv_client_msg_id ` snd ` set (pe_by_id st)"

definition pending_ok :: "'e PendingEntries \<Rightarrow> bool" where
  "pending_ok st \<longleftrightarrow> distinct (map (pv_client_msg_id \<circ> snd) (pe_by_id st))"

lemma comparison_on_pending: "comparison_on D compare_pending"
  unfolding compare_pending_def [abs_def] by (intro comparison_on_then comparison_on_key)

lemma ordered_simps [simp]:
  "set (ordered st) = set (pe_by_id st)" "length (ordered st) = length (pe_by_id st)"
  "distinct (map f (ordered st)) \<longleftrightarrow> distinct (map f (pe_by_id st))"
  by (simp_all add: ordered_def)

lemma pending_list_sorted: "sorted (map pv_enqueued_at_ms (pending_list st))"
proof -
  have "sorted_by compare_pending (ordered st)"
    unfolding ordered_def by (rule comparison_on.sorted_sort_by [OF comparison_on_pending [of UNIV]]) simp
  then have "sorted_wrt (\<lambda>a b. pv_enqueued_at_ms (snd a) \<le> pv_enqueued_at_ms (snd b)) (ordered st)"
    unfolding sorted_by_def
    by (rule sorted_wrt_mono_rel [rotated]) (auto simp: compare_pending_def then_with_neq_Greater)
  then show ?thesis by (simp add: pending_list_def sorted_map comp_def)
qed

lemma find_distinct:
  "distinct (map f xs) \<Longrightarrow> find (\<lambda>x. f x = k) xs = Some x \<longleftrightarrow> x \<in> set xs \<and> f x = k"
  by (induction xs) auto

lemma find_filter_key:
  "find (\<lambda>x. f x = j) (filter (\<lambda>x. f x \<noteq> i) xs) = (if j = i then None else find (\<lambda>x. f x = j) xs)"
  by (induction xs) auto

lemma find_append: "find P (xs @ ys) = (case find P xs of None \<Rightarrow> find P ys | Some x \<Rightarrow> Some x)"
  by (induction xs) auto

lemma pending_get_pop: "pending_get (pending_pop i st) j = (if j = i then None else pending_get st j)"
  using find_filter_key [of "pv_client_msg_id \<circ> snd" j i "pe_by_id st"]
  by (simp add: pending_get_def pending_pop_def case_prod_unfold comp_def)

lemma pending_get_push:
  "pending_get (pending_push entry st) j = (if j = pv_client_msg_id entry then Some entry else pending_get st j)"
  using find_filter_key [of "pv_client_msg_id \<circ> snd" j "pv_client_msg_id entry" "pe_by_id st"]
  by (simp add: pending_get_def pending_push_def case_prod_unfold comp_def find_append split: option.split)

lemma pending_get_Some:
  assumes "pending_ok st"
  shows "pending_get st i = Some entry \<longleftrightarrow> entry \<in> snd ` set (pe_by_id st) \<and> pv_client_msg_id entry = i"
proof -
  have "find (\<lambda>(_, entry). pv_client_msg_id entry = i) (pe_by_id st) = Some x \<longleftrightarrow>
      x \<in> set (pe_by_id st) \<and> pv_client_msg_id (snd x) = i" for x
    using find_distinct [of "pv_client_msg_id \<circ> snd" "pe_by_id st" i x] assms
    by (simp add: pending_ok_def case_prod_unfold comp_def)
  then show ?thesis unfolding pending_get_def by force
qed

lemma pending_get_None: "pending_get st i = None \<longleftrightarrow> i \<notin> pending_ids st"
  by (force simp: pending_get_def find_None_iff pending_ids_def)

lemma pending_ids_simps [simp]:
  "pending_ids (pending_pop i st) = pending_ids st - {i}"
  "pending_ids (pending_push entry st) = insert (pv_client_msg_id entry) (pending_ids st)"
  by (force simp: pending_ids_def pending_pop_def pending_push_def)+

lemma finite_pending_ids [simp]: "finite (pending_ids st)"
  by (simp add: pending_ids_def)

lemma pending_ok_pop: "pending_ok st \<Longrightarrow> pending_ok (pending_pop i st)"
  by (simp add: pending_ok_def pending_pop_def distinct_map_filter)

lemma pending_ok_push: "pending_ok st \<Longrightarrow> pending_ok (pending_push entry st)"
  by (auto simp: pending_ok_def pending_push_def distinct_map_filter)

lemma take_filter_map: "map f (take n (filter (P \<circ> f) xs)) = take n (filter P (map f xs))"
  by (simp add: filter_map take_map)

interpretation memory: pending_store pending_ok pending_get pending_list list_oldest_excluding pending_push pending_pop
proof
  fix st :: "'a PendingEntries" and entry :: "'a PendingSendVo" and i j :: string and excluded n
  show "sorted (map pv_enqueued_at_ms (pending_list st))" by (rule pending_list_sorted)
  show "list_oldest_excluding excluded n st =
      take n (filter (\<lambda>e. pv_client_msg_id e \<notin> set excluded) (pending_list st))"
    using take_filter_map [of snd n "\<lambda>e. pv_client_msg_id e \<notin> set excluded" "ordered st"]
    by (simp add: list_oldest_excluding_def pending_list_def case_prod_unfold comp_def)
  assume ok: "pending_ok st"
  show "pending_ok (pending_push entry st)" "pending_ok (pending_pop i st)"
    using ok by (rule pending_ok_push, rule pending_ok_pop)
  show "pending_get st i = Some entry \<longleftrightarrow> entry \<in> set (pending_list st) \<and> pv_client_msg_id entry = i"
    using pending_get_Some [OF ok] by (simp add: pending_list_def)
  show "distinct (map pv_client_msg_id (pending_list st))"
    using ok by (simp add: pending_list_def pending_ok_def)
  show "pending_get (pending_push entry st) i = (if i = pv_client_msg_id entry then Some entry else pending_get st i)"
    by (rule pending_get_push)
  show "pending_get (pending_pop i st) j = (if j = i then None else pending_get st j)"
    by (rule pending_get_pop)
qed

lemma take_oldest_head: "take_oldest st = (case list_oldest_excluding [] 1 st of [] \<Rightarrow> None | e # _ \<Rightarrow> Some e)"
  by (auto simp: take_oldest_def list_oldest_excluding_def split: list.split)

end
