(* ===== verification/Sdk_Error.thy ===== *)
theory Sdk_Error
  imports Text
begin

text \<open>
  The error helpers of \<open>shared/error.rs\<close>: mapping of the server's status codes, the message ids an
  error names, the retry wait it carries, and which failures keep the session.

  The error type itself is of another crate; a localized error is the record of its fields, every
  other error is \<open>OtherError\<close> with the code that its \<open>code()\<close> gives.
\<close>

section \<open>Definitions\<close>

subsection \<open>Errors\<close>

text \<open>The codes that the modelled code names, and any other one.\<close>

datatype ErrorCode =
    InvalidParameter | OperationNotSupported | AuthenticationFailed | PermissionDenied | TokenExpired
  | UserNotFound | GeneralError | ResourceExhausted | MessageRateLimitExceeded | OperationTimeout
  | ServiceUnavailable | InternalError | MessageSendFailed | NotConnected | MessageNotFound
  | NetworkUnreachable | ConnectionFailed | ConnectionTimeout | ConnectionClosed | ConnectionRefused
  | NetworkError | NetworkTimeout | NetworkConnectionLost | Overloaded | OtherCode string

record LocalizedError =
  le_code :: ErrorCode
  le_reason :: string
  le_details :: "string option"
  le_params :: "(string \<rightharpoonup> string) option"
  le_timestamp :: u64

datatype FlareError = Localized LocalizedError | OtherError "ErrorCode option" string

fun error_code :: "FlareError \<Rightarrow> ErrorCode option" where
  "error_code (Localized e) = Some (le_code e)"
| "error_code (OtherError code _) = code"

definition localized :: "ErrorCode \<Rightarrow> string \<Rightarrow> FlareError" where
  "localized code reason =
     Localized \<lparr>le_code = code, le_reason = reason, le_details = None, le_params = None, le_timestamp = 0\<rparr>"

definition is_tenant_unavailable :: "FlareError \<Rightarrow> bool" where
  "is_tenant_unavailable err \<longleftrightarrow> error_code err = Some PermissionDenied"

text \<open>The code a server status maps to; \<open>None\<close> for a cancelled operation, which becomes a general
  error without a localized code.\<close>

definition rpc_code :: "int \<Rightarrow> ErrorCode option" where
  "rpc_code code =
     (if code = 2 then None
      else if code = 10 \<or> code = 12 then Some InvalidParameter
      else if code = 11 then Some InvalidParameter
      else if code = 13 then Some OperationNotSupported
      else if code = 20 then Some AuthenticationFailed
      else if code = 21 then Some PermissionDenied
      else if code = 22 \<or> code = 23 then Some TokenExpired
      else if code = 30 then Some UserNotFound
      else if code = 31 \<or> code = 32 then Some GeneralError
      else if code = 33 \<or> code = 34 then Some ResourceExhausted
      else if code = 40 \<or> code = 41 then Some MessageRateLimitExceeded
      else if code = 42 \<or> code = 43 then Some OperationTimeout
      else if code = 50 then Some OperationTimeout
      else if code = 51 \<or> code = 52 then Some ServiceUnavailable
      else if code = 60 then Some InternalError
      else if code = 61 \<or> code = 62 then Some OperationNotSupported
      else Some GeneralError)"

definition from_rpc_status :: "FlareError \<Rightarrow> int \<Rightarrow> string \<Rightarrow> FlareError" where
  "from_rpc_status cancelled code msg =
     (case rpc_code code of None \<Rightarrow> cancelled | Some c \<Rightarrow> localized c msg)"

definition link_keeps_session :: "FlareError \<Rightarrow> bool" where
  "link_keeps_session err \<longleftrightarrow>
     error_code err \<in> Some ` {NetworkUnreachable, ConnectionFailed, ConnectionTimeout, ConnectionClosed,
       ConnectionRefused, NetworkError, NetworkTimeout, NetworkConnectionLost, Overloaded, ServiceUnavailable}"

subsection \<open>Refused messages\<close>

definition REFUSED_MESSAGE_IDS :: string where "REFUSED_MESSAGE_IDS = ''refusedMessageIds''"
definition MAX_REFUSED_MESSAGE_IDS :: nat where "MAX_REFUSED_MESSAGE_IDS = 500"
definition MAX_REFUSED_MESSAGE_ID_BYTES :: nat where "MAX_REFUSED_MESSAGE_ID_BYTES = 128"

definition is_namable_message_id :: "string \<Rightarrow> bool" where
  "is_namable_message_id i \<longleftrightarrow>
     i \<noteq> [] \<and> length i \<le> MAX_REFUSED_MESSAGE_ID_BYTES \<and>
     list_all (\<lambda>b. is_ascii_alphanumeric b \<or> b \<in> {CHR ''.'', CHR ''_'', CHR '':'', CHR ''-''}) i"

text \<open>The loop over the ids; \<open>None\<close> for the early return.\<close>

fun named_ids :: "string list \<Rightarrow> string list \<Rightarrow> string list option" where
  "named_ids named [] = Some named"
| "named_ids named (i # ids) =
     (if \<not> is_namable_message_id i then None
      else named_ids (if i \<in> set named then named else named @ [i]) ids)"

definition insert_param :: "string \<Rightarrow> string \<Rightarrow> FlareError \<Rightarrow> FlareError" where
  "insert_param key value error =
     (case error of
        Localized e \<Rightarrow>
          Localized (e\<lparr>le_params := Some ((case le_params e of Some p \<Rightarrow> p | None \<Rightarrow> Map.empty)(key \<mapsto> value))\<rparr>)
      | other \<Rightarrow> other)"

definition refusing_messages :: "FlareError \<Rightarrow> string list \<Rightarrow> FlareError" where
  "refusing_messages error ids =
     (case named_ids [] ids of
        None \<Rightarrow> error
      | Some named \<Rightarrow>
          if named = [] \<or> length named > MAX_REFUSED_MESSAGE_IDS then error
          else insert_param REFUSED_MESSAGE_IDS (join_on CHR '','' named) error)"

definition error_param :: "string \<Rightarrow> FlareError \<Rightarrow> string option" where
  "error_param key error =
     (case error of
        Localized e \<Rightarrow> (case le_params e of Some p \<Rightarrow> p key | None \<Rightarrow> None)
      | _ \<Rightarrow> None)"

definition refused_message_ids :: "FlareError \<Rightarrow> string list option" where
  "refused_message_ids error =
     (case error_param REFUSED_MESSAGE_IDS error of
        None \<Rightarrow> None
      | Some value \<Rightarrow>
          let ids = split_on CHR '','' value in
          if length ids \<le> MAX_REFUSED_MESSAGE_IDS \<and> list_all is_namable_message_id ids
          then Some ids else None)"

subsection \<open>The retry wait\<close>

definition RETRY_AFTER_MS :: string where "RETRY_AFTER_MS = ''retryAfterMs''"
definition MAX_RETRY_AFTER_MS :: u64 where "MAX_RETRY_AFTER_MS = 24 * 60 * 60 * 1000"

definition retrying_after :: "FlareError \<Rightarrow> u64 \<Rightarrow> FlareError" where
  "retrying_after error ms = insert_param RETRY_AFTER_MS (u64_to_string (min ms MAX_RETRY_AFTER_MS)) error"

definition retry_after_ms :: "FlareError \<Rightarrow> u64 option" where
  "retry_after_ms error =
     (case error_param RETRY_AFTER_MS error of
        None \<Rightarrow> None
      | Some value \<Rightarrow> map_option (\<lambda>ms. min ms MAX_RETRY_AFTER_MS) (parse_u64 value))"

section \<open>Lemmas\<close>

lemma namable_no_comma: "is_namable_message_id i \<Longrightarrow> CHR '','' \<notin> set i"
  by (auto simp: is_namable_message_id_def list_all_iff is_ascii_alphanumeric_def)

lemma named_ids_Some:
  assumes "named_ids named ids = Some out" "distinct named"
  shows "distinct out \<and> set out = set named \<union> set ids \<and> (\<forall>i\<in>set ids. is_namable_message_id i)"
  using assms by (induction named ids rule: named_ids.induct) (auto split: if_splits)

lemma named_ids_None: "named_ids named ids = None \<longleftrightarrow> \<not> (\<forall>i\<in>set ids. is_namable_message_id i)"
  by (induction named ids rule: named_ids.induct) auto

lemma error_param_insert:
  "error_param k (insert_param k' v error) =
     (case error of Localized _ \<Rightarrow> if k = k' then Some v else error_param k error | _ \<Rightarrow> None)"
  by (auto simp: error_param_def insert_param_def split: FlareError.split option.split)

lemma error_code_insert [simp]: "error_code (insert_param k v error) = error_code error"
  by (cases error) (simp_all add: insert_param_def)

section \<open>Properties\<close>

text \<open>C36. The ids attached to a localized error read back: each once, exactly those given; when
  they are too many, none, or one is malformed, the error is left as it was; the code and every
  other parameter are untouched.\<close>

theorem refused_ids_round_trip:
  "(let error = Localized e; marked = refusing_messages error ids in
    if ids \<noteq> [] \<and> list_all is_namable_message_id ids \<and> card (set ids) \<le> MAX_REFUSED_MESSAGE_IDS
    then (case refused_message_ids marked of Some out \<Rightarrow> distinct out \<and> set out = set ids | None \<Rightarrow> False) \<and>
         error_code marked = error_code error \<and>
         retry_after_ms marked = retry_after_ms error
    else marked = error)"
proof (cases "named_ids [] ids")
  case None
  then have "\<not> list_all is_namable_message_id ids" using named_ids_None by (auto simp: list_all_iff)
  then show ?thesis using None by (auto simp: refusing_messages_def Let_def)
next
  case (Some out)
  have out: "distinct out" "set out = set ids" "\<forall>i\<in>set ids. is_namable_message_id i"
    using named_ids_Some [OF Some] by simp_all
  then have len: "length out = card (set ids)" by (metis distinct_card)
  show ?thesis
  proof (cases "ids \<noteq> [] \<and> card (set ids) \<le> MAX_REFUSED_MESSAGE_IDS")
    case True
    then have ne: "out \<noteq> []" using out(2) by auto
    have split: "split_on CHR '','' (join_on CHR '','' out) = out"
      using ne out(2,3) namable_no_comma by (intro split_join) auto
    have marked: "refusing_messages (Localized e) ids =
        insert_param REFUSED_MESSAGE_IDS (join_on CHR '','' out) (Localized e)"
      using Some True ne len by (simp add: refusing_messages_def)
    have "refused_message_ids (refusing_messages (Localized e) ids) = Some out"
      using out(2,3) True len unfolding marked
      by (simp add: refused_message_ids_def error_param_insert Let_def split list_all_iff)
    moreover have "retry_after_ms (refusing_messages (Localized e) ids) = retry_after_ms (Localized e)"
      unfolding marked by (simp add: retry_after_ms_def error_param_insert RETRY_AFTER_MS_def REFUSED_MESSAGE_IDS_def)
    ultimately show ?thesis using True out marked by (simp add: Let_def list_all_iff)
  next
    case False
    then show ?thesis using Some out(2) len by (auto simp: refusing_messages_def Let_def)
  qed
qed

text \<open>The retry wait attached to a localized error reads back clamped to a day, and never more
  than a day is read from any error.\<close>

theorem retry_wait_round_trip:
  "retry_after_ms (retrying_after (Localized e) ms) = Some (min ms MAX_RETRY_AFTER_MS) \<and>
   (case retry_after_ms error of Some wait \<Rightarrow> wait \<le> MAX_RETRY_AFTER_MS | None \<Rightarrow> True)"
  by (auto simp: retry_after_ms_def retrying_after_def error_param_insert parse_u64_to_string
      split: option.split)

end
