(* ===== verification/Delivery.thy ===== *)
theory Delivery
  imports Message_Model Sdk_Error
begin

text \<open>
  The delivery decisions of \<open>domain/message/delivery.rs\<close>: what to do with a pending message, with a
  failed or timed-out attempt, with a message in flight whose local row changed, with a message
  that comes back from the server, and how acknowledgements change a message.

  The protocol enums are of another crate: \<open>delivery_proto\<close> holds the numbers and decoders that the
  code reads from them.
\<close>

section \<open>Definitions\<close>

subsection \<open>Protocol values\<close>

datatype SendAckDurability = DuUnspecified | DuTransientAccepted | DuWalAccepted | DuBrokerAccepted | DuPersisted

datatype ProtoErrorCode = PeUnavailable | PeTimeout | PeRateLimited | PeSlowDown | PeNeedsRetry | PeOther int

record delivery_proto =
  dp_created :: int
  dp_sent :: int
  dp_failed :: int
  dp_persisted :: int
  dp_durability :: "int \<Rightarrow> SendAckDurability"
  dp_error_code :: "int \<Rightarrow> ProtoErrorCode option"
  dp_code_name :: "ErrorCode \<Rightarrow> string"

record SendAccepted =
  sa_server_msg_id :: string
  sa_conversation_seq :: u64
  sa_server_time :: int
  sa_durability :: int

record ErrorDetail =
  er_code :: int
  er_reason :: string
  er_message :: string

datatype SendAckResult = Accepted SendAccepted | AckError ErrorDetail

record SendAck =
  ak_client_msg_id :: string
  ak_conversation_id :: string
  ak_result :: "SendAckResult option"

subsection \<open>Reasons and failures\<close>

definition REASON_PENDING_ANOTHER_ACCOUNT :: string where
  "REASON_PENDING_ANOTHER_ACCOUNT = ''pending message belongs to another account''"
definition REASON_MAX_RETRIES_EXCEEDED :: string where
  "REASON_MAX_RETRIES_EXCEEDED = ''max retries exceeded''"
definition REASON_TIMEOUT_AFTER_RETRIES :: string where
  "REASON_TIMEOUT_AFTER_RETRIES = ''timeout after retries''"
definition REASON_RECONCILED_FAILED :: string where
  "REASON_RECONCILED_FAILED = ''in-flight reconciled to failed by local terminal state''"
definition REASON_SEND_FAILED_BEFORE_ACK_MAX_RETRIES :: string where
  "REASON_SEND_FAILED_BEFORE_ACK_MAX_RETRIES = ''send failed before ack; max retries exceeded''"
definition REASON_ORPHAN_RECOVERED :: string where
  "REASON_ORPHAN_RECOVERED = ''orphan sending message reconciled during queue recovery''"
definition RETRYABLE_ACK_BACKOFF_BASE_MS :: u64 where "RETRYABLE_ACK_BACKOFF_BASE_MS = 1000"
definition RETRYABLE_ACK_BACKOFF_MAX_MS :: u64 where "RETRYABLE_ACK_BACKOFF_MAX_MS = 30000"
definition TENANT_UNAVAILABLE_REASON :: string where "TENANT_UNAVAILABLE_REASON = ''TENANT_UNAVAILABLE''"
definition SEND_FAILURE_OPERATION :: string where "SEND_FAILURE_OPERATION = ''message.send''"

text \<open>\<open>str::contains\<close> and the decimal printing of \<open>i32\<close>.\<close>

definition str_contains :: "string \<Rightarrow> string \<Rightarrow> bool" where
  "str_contains s part \<longleftrightarrow> sublist part s"

definition i32_to_string :: "int \<Rightarrow> string" where
  "i32_to_string n = (if n < 0 then CHR ''-'' # nat_digits (nat (- n)) else nat_digits (nat n))"

record SendFailure =
  sf_code :: string
  sf_machine_reason :: string
  sf_message :: string
  sf_operation :: string
  sf_retryable :: bool
  sf_details :: "string \<rightharpoonup> string"

definition SendFailure_local :: "delivery_proto \<Rightarrow> ErrorCode \<Rightarrow> string \<Rightarrow> SendFailure" where
  "SendFailure_local p code message =
     \<lparr>sf_code = dp_code_name p code, sf_machine_reason = [], sf_message = message,
      sf_operation = SEND_FAILURE_OPERATION, sf_retryable = False, sf_details = Map.empty\<rparr>"

definition SendFailure_local_reason :: "delivery_proto \<Rightarrow> string \<Rightarrow> SendFailure" where
  "SendFailure_local_reason p reason =
     SendFailure_local p
       (if reason = REASON_TIMEOUT_AFTER_RETRIES \<or> str_contains reason ''timeout''
        then OperationTimeout else MessageSendFailed) reason"

text \<open>\<open>to_string\<close> and \<open>is_retryable\<close> of the error type are parameters.\<close>

definition SendFailure_from_error ::
  "delivery_proto \<Rightarrow> (FlareError \<Rightarrow> string) \<Rightarrow> (FlareError \<Rightarrow> bool) \<Rightarrow> FlareError \<Rightarrow> SendFailure" where
  "SendFailure_from_error p to_string is_retryable error =
     (let code = (case error_code error of Some c \<Rightarrow> c | None \<Rightarrow> InternalError);
          failure = (SendFailure_local p code (to_string error))\<lparr>sf_retryable := is_retryable error\<rparr>
      in case error_param ''machineReason'' error of
           Some reason \<Rightarrow> failure\<lparr>sf_machine_reason := trim reason\<rparr>
         | None \<Rightarrow> failure)"

subsection \<open>Decisions\<close>

record DeliveryLocalSnapshot =
  sn_status :: int
  sn_server_id :: string
  sn_seq :: u64
  sn_conversation_id :: string

definition DeliveryLocalSnapshot_from :: "'e IMMessage \<Rightarrow> DeliveryLocalSnapshot" where
  "DeliveryLocalSnapshot_from m =
     \<lparr>sn_status = im_status m, sn_server_id = im_server_id m, sn_seq = im_conversation_seq m,
      sn_conversation_id = im_conversation_id m\<rparr>"

datatype PendingDispatchDecision =
    DropAsCrossAccount string | DropAsTerminal | FailMaxRetries string | SendNow

datatype RetryDecision = Retry u32 | Fail string

datatype InFlightReconcileDecision =
    KeepWaiting | MarkFailed string | SynthesizeAck DeliveryLocalSnapshot

datatype IncomingMessageConvergenceDecision = EmitReceived | MergePendingAndAck | DropDuplicate

definition normalize_incoming_server_state :: "delivery_proto \<Rightarrow> 'e IMMessage \<Rightarrow> 'e IMMessage" where
  "normalize_incoming_server_state p m =
     (let has_server_identity = (trim (im_server_id m) \<noteq> [] \<and> im_conversation_seq m > 0);
          is_pending_wire_status = (im_status m \<le> dp_created p)
      in if has_server_identity \<and> is_pending_wire_status then m\<lparr>im_status := dp_sent p\<rparr> else m)"

definition apply_send_ack_state :: "delivery_proto \<Rightarrow> 'e IMMessage \<Rightarrow> 'e IMMessage" where
  "apply_send_ack_state p m =
     m\<lparr>im_local_state := \<lparr>ls_sending = False, ls_failed = False, ls_is_local = False, ls_uploading = False,
         ls_upload_progress = 0, ls_sort_ts = ls_sort_ts (im_local_state m)\<rparr>,
       im_status := dp_sent p, im_is_read := False\<rparr>"

definition final_success :: "delivery_proto \<Rightarrow> DeliveryLocalSnapshot \<Rightarrow> string \<Rightarrow> bool" where
  "final_success p local client_msg_id \<longleftrightarrow>
     sn_status local \<ge> dp_sent p \<and> trim (sn_server_id local) \<noteq> [] \<and> sn_server_id local \<noteq> client_msg_id"

definition decide_pending_dispatch ::
  "delivery_proto \<Rightarrow> string \<Rightarrow> string \<Rightarrow> string \<Rightarrow> DeliveryLocalSnapshot option \<Rightarrow> u32 \<Rightarrow> u32
   \<Rightarrow> PendingDispatchDecision" where
  "decide_pending_dispatch p connected_user_id client_msg_id entry_sender_id local retries max_retries =
     (if connected_user_id \<noteq> [] \<and> (trim entry_sender_id = [] \<or> entry_sender_id \<noteq> connected_user_id)
      then DropAsCrossAccount REASON_PENDING_ANOTHER_ACCOUNT
      else if (case local of
                 Some l \<Rightarrow> final_success p l client_msg_id \<or> sn_status l = dp_failed p
               | None \<Rightarrow> False)
      then DropAsTerminal
      else if retries \<ge> max_retries then FailMaxRetries REASON_MAX_RETRIES_EXCEEDED
      else SendNow)"

definition decide_send_attempt_failure :: "u32 \<Rightarrow> u32 \<Rightarrow> RetryDecision" where
  "decide_send_attempt_failure retries max_retries =
     (let next_retry_count = sat_add retries 1 in
      if next_retry_count \<ge> max_retries then Fail REASON_SEND_FAILED_BEFORE_ACK_MAX_RETRIES
      else Retry next_retry_count)"

definition decide_retryable_ack_error :: "u32 \<Rightarrow> u32 \<Rightarrow> RetryDecision" where
  "decide_retryable_ack_error retries max_retries = decide_send_attempt_failure retries max_retries"

definition retryable_ack_backoff_bounds_ms :: "u32 \<Rightarrow> u64 \<times> u64" where
  "retryable_ack_backoff_bounds_ms retry =
     (let shift = min (sat_sub retry 1) 16;
          nominal = min (sat_mul RETRYABLE_ACK_BACKOFF_BASE_MS (push_bit (unat shift) 1))
                        RETRYABLE_ACK_BACKOFF_MAX_MS;
          lo = sat_mul nominal 80 div 100;
          hi = min (sat_mul nominal 120 div 100) RETRYABLE_ACK_BACKOFF_MAX_MS
      in (lo, max hi lo))"

definition decide_timeout_expiry :: "u32 \<Rightarrow> u32 \<Rightarrow> RetryDecision" where
  "decide_timeout_expiry retries max_retries =
     (if retries \<ge> max_retries then Fail REASON_TIMEOUT_AFTER_RETRIES else Retry (sat_add retries 1))"

definition reconcile_in_flight ::
  "delivery_proto \<Rightarrow> DeliveryLocalSnapshot option \<Rightarrow> string \<Rightarrow> InFlightReconcileDecision" where
  "reconcile_in_flight p local client_msg_id =
     (case local of
        None \<Rightarrow> KeepWaiting
      | Some l \<Rightarrow>
          if sn_status l = dp_failed p then MarkFailed REASON_RECONCILED_FAILED
          else if final_success p l client_msg_id then SynthesizeAck l
          else KeepWaiting)"

definition local_pending_like :: "delivery_proto \<Rightarrow> 'e IMMessage \<Rightarrow> bool" where
  "local_pending_like p local \<longleftrightarrow>
     im_server_id local = im_client_msg_id local \<or> ls_is_local (im_local_state local) \<or>
     ls_sending (im_local_state local) \<or> im_status local < dp_sent p"

definition decide_incoming_message_convergence ::
  "delivery_proto \<Rightarrow> string \<Rightarrow> 'e IMMessage \<Rightarrow> 'e IMMessage option \<Rightarrow> 'e IMMessage option
   \<Rightarrow> IncomingMessageConvergenceDecision" where
  "decide_incoming_message_convergence p current_user_id incoming local_by_client local_by_server =
     (if local_by_server \<noteq> None then DropDuplicate
      else if current_user_id = [] \<or> trim (im_client_msg_id incoming) = [] \<or>
              trim (im_sender_id incoming) = [] \<or> im_sender_id incoming \<noteq> current_user_id
      then EmitReceived
      else
        (case local_by_client of
           None \<Rightarrow> EmitReceived
         | Some local \<Rightarrow> if local_pending_like p local then MergePendingAndAck else EmitReceived))"

subsection \<open>Messages after an acknowledgement or a failure\<close>

definition mark_failed :: "delivery_proto \<Rightarrow> 'e IMMessage \<Rightarrow> 'e IMMessage" where
  "mark_failed p m =
     m\<lparr>im_server_id := im_client_msg_id m,
       im_local_state := \<lparr>ls_sending = False, ls_failed = True, ls_is_local = True, ls_uploading = False,
         ls_upload_progress = 0, ls_sort_ts = ls_sort_ts (im_local_state m)\<rparr>,
       im_status := dp_failed p\<rparr>"

definition accepted_from_ack :: "SendAck \<Rightarrow> SendAccepted option" where
  "accepted_from_ack ack = (case ak_result ack of Some (Accepted a) \<Rightarrow> Some a | _ \<Rightarrow> None)"

definition durable_accepted_from_ack :: "delivery_proto \<Rightarrow> SendAck \<Rightarrow> SendAccepted option" where
  "durable_accepted_from_ack p ack =
     (case accepted_from_ack ack of
        None \<Rightarrow> None
      | Some a \<Rightarrow> (case dp_durability p (sa_durability a) of DuPersisted \<Rightarrow> Some a | _ \<Rightarrow> None))"

definition mark_sent_from_ack :: "delivery_proto \<Rightarrow> 'e IMMessage \<Rightarrow> SendAck \<Rightarrow> 'e IMMessage" where
  "mark_sent_from_ack p m ack =
     (case durable_accepted_from_ack p ack of
        None \<Rightarrow> m
      | Some accepted \<Rightarrow>
          let m = (if sa_server_msg_id accepted \<noteq> [] then m\<lparr>im_server_id := sa_server_msg_id accepted\<rparr> else m);
              m = m\<lparr>im_conversation_seq := sa_conversation_seq accepted\<rparr>;
              m = (if sa_server_time accepted > 0
                   then m\<lparr>im_created_at := of_int (sa_server_time accepted),
                          im_client_created_at := of_int (sa_server_time accepted)\<rparr>
                   else m)
          in apply_send_ack_state p m)"

definition is_retryable_ack_error :: "delivery_proto \<Rightarrow> SendAck \<Rightarrow> bool" where
  "is_retryable_ack_error p ack =
     (case ak_result ack of
        Some (AckError error) \<Rightarrow>
          if str_contains (er_reason error) TENANT_UNAVAILABLE_REASON \<or>
             str_contains (er_message error) TENANT_UNAVAILABLE_REASON
          then False
          else dp_error_code p (er_code error) \<in>
            Some ` {PeUnavailable, PeTimeout, PeRateLimited, PeSlowDown, PeNeedsRetry}
      | _ \<Rightarrow> False)"

definition error_message_from_ack :: "SendAck \<Rightarrow> string option" where
  "error_message_from_ack ack =
     (case ak_result ack of
        Some (AckError error) \<Rightarrow>
          Some (if trim (er_message error) = [] then i32_to_string (er_code error) else er_message error)
      | _ \<Rightarrow> None)"

definition send_failure_from_ack :: "delivery_proto \<Rightarrow> FlareError \<Rightarrow> SendAck \<Rightarrow> SendFailure option" where
  "send_failure_from_ack p cancelled ack =
     (case ak_result ack of
        Some (AckError error) \<Rightarrow>
          let message = (case error_message_from_ack ack of Some s \<Rightarrow> s | None \<Rightarrow> []);
              code = (case error_code (from_rpc_status cancelled (er_code error) message) of
                        Some c \<Rightarrow> c | None \<Rightarrow> GeneralError)
          in Some ((SendFailure_local p code message)
               \<lparr>sf_machine_reason := trim (er_reason error),
                sf_details := [''remoteCode'' \<mapsto> i32_to_string (er_code error)]\<rparr>)
      | _ \<Rightarrow> None)"

definition merge_incoming_as_sent :: "delivery_proto \<Rightarrow> 'e IMMessage option \<Rightarrow> 'e IMMessage \<Rightarrow> 'e IMMessage" where
  "merge_incoming_as_sent p local incoming =
     apply_send_ack_state p
       (incoming\<lparr>im_local_state := \<lparr>ls_sending = False, ls_failed = False, ls_is_local = False,
          ls_uploading = False, ls_upload_progress = 0,
          ls_sort_ts = (case local of
             Some m \<Rightarrow> ls_sort_ts (im_local_state m)
           | None \<Rightarrow> max (ls_sort_ts (im_local_state incoming)) (im_created_at incoming))\<rparr>\<rparr>)"

definition sanitize_send_ack_message :: "delivery_proto \<Rightarrow> 'e IMMessage \<Rightarrow> 'e IMMessage" where
  "sanitize_send_ack_message p m = apply_send_ack_state p m"

definition synthetic_ack :: "delivery_proto \<Rightarrow> string \<Rightarrow> DeliveryLocalSnapshot \<Rightarrow> SendAck" where
  "synthetic_ack p client_msg_id snapshot =
     \<lparr>ak_client_msg_id = client_msg_id, ak_conversation_id = sn_conversation_id snapshot,
      ak_result = Some (Accepted \<lparr>sa_server_msg_id = sn_server_id snapshot, sa_conversation_seq = sn_seq snapshot,
        sa_server_time = 0, sa_durability = dp_persisted p\<rparr>)\<rparr>"

definition synthetic_ack_from_incoming :: "delivery_proto \<Rightarrow> 'e IMMessage \<Rightarrow> SendAck" where
  "synthetic_ack_from_incoming p incoming =
     \<lparr>ak_client_msg_id = im_client_msg_id incoming, ak_conversation_id = im_conversation_id incoming,
      ak_result = Some (Accepted \<lparr>sa_server_msg_id = im_server_id incoming,
        sa_conversation_seq = im_conversation_seq incoming, sa_server_time = sint (im_created_at incoming),
        sa_durability = dp_persisted p\<rparr>)\<rparr>"

section \<open>Lemmas\<close>

lemma durable_synthetic:
  assumes "dp_durability p (dp_persisted p) = DuPersisted"
  shows "durable_accepted_from_ack p (synthetic_ack_from_incoming p m) =
      Some \<lparr>sa_server_msg_id = im_server_id m, sa_conversation_seq = im_conversation_seq m,
        sa_server_time = sint (im_created_at m), sa_durability = dp_persisted p\<rparr>"
    and "durable_accepted_from_ack p (synthetic_ack p i snap) =
      Some \<lparr>sa_server_msg_id = sn_server_id snap, sa_conversation_seq = sn_seq snap,
        sa_server_time = 0, sa_durability = dp_persisted p\<rparr>"
  using assms
  by (simp_all add: durable_accepted_from_ack_def accepted_from_ack_def synthetic_ack_from_incoming_def
      synthetic_ack_def)

text \<open>A message whose local row is final is dropped at dispatch exactly when it is settled in flight.\<close>

lemma dispatch_matches_reconcile:
  assumes "connected = [] \<or> trim sender \<noteq> [] \<and> sender = connected"
  shows "decide_pending_dispatch p connected i sender local retries max_retries = DropAsTerminal \<longleftrightarrow>
    reconcile_in_flight p local i \<noteq> KeepWaiting"
  using assms by (auto simp: decide_pending_dispatch_def reconcile_in_flight_def split: option.splits)

subsection \<open>The retry budget\<close>

datatype attempt_failure = AfSend | AfRejected | AfTimeout

fun decide_failure :: "attempt_failure \<Rightarrow> u32 \<Rightarrow> u32 \<Rightarrow> RetryDecision" where
  "decide_failure AfSend r n = decide_send_attempt_failure r n"
| "decide_failure AfRejected r n = decide_retryable_ack_error r n"
| "decide_failure AfTimeout r n = decide_timeout_expiry r n"

text \<open>A run of failed attempts of one message.\<close>

fun retry_run :: "attempt_failure list \<Rightarrow> u32 \<Rightarrow> u32 \<Rightarrow> RetryDecision" where
  "retry_run [] r n = Retry r"
| "retry_run (f # fs) r n = (case decide_failure f r n of Fail reason \<Rightarrow> Fail reason | Retry r' \<Rightarrow> retry_run fs r' n)"

lemma unat_sat_succ32: "unat (sat_add r (1 :: u32)) = min (unat r + 1) (2 ^ 32 - 1)"
  by (simp add: unat_sat_add)

lemma decide_failure_Retry:
  assumes "decide_failure f r n = Retry r'"
  shows "unat r' = unat r + 1 \<and> unat r' \<le> unat n \<and> (f \<noteq> AfTimeout \<longrightarrow> unat r' < unat n)"
proof -
  have b: "unat r < 2 ^ 32" "unat n < 2 ^ 32" using unat_bound32 [of r] unat_bound32 [of n] by simp_all
  show ?thesis
    using assms b unat_sat_succ32 [of r]
    by (cases f) (auto simp: decide_send_attempt_failure_def decide_retryable_ack_error_def
        decide_timeout_expiry_def Let_def word_le_nat_alt split: if_splits)
qed

lemma retry_run_Retry: "retry_run fs r n = Retry r' \<Longrightarrow> unat r' = unat r + length fs \<and> (fs = [] \<or> unat r' \<le> unat n)"
proof (induction fs arbitrary: r)
  case (Cons f fs)
  then obtain r1 where r1: "decide_failure f r n = Retry r1" "retry_run fs r1 n = Retry r'"
    by (auto split: RetryDecision.splits)
  show ?case using Cons.IH [OF r1(2)] decide_failure_Retry [OF r1(1)] by auto
qed simp

lemma retry_run_strict:
  "retry_run fs r n = Retry r' \<Longrightarrow> AfTimeout \<notin> set fs \<Longrightarrow> fs = [] \<or> unat r' < unat n"
proof (induction fs arbitrary: r)
  case (Cons f fs)
  then obtain r1 where r1: "decide_failure f r n = Retry r1" "retry_run fs r1 n = Retry r'"
    by (auto split: RetryDecision.splits)
  show ?case using Cons.IH [OF r1(2)] decide_failure_Retry [OF r1(1)] Cons.prems r1(2) by auto
qed simp

lemma retry_run_ends: "unat n < unat r + length fs \<Longrightarrow> fs \<noteq> [] \<Longrightarrow> \<exists>reason. retry_run fs r n = Fail reason"
  using retry_run_Retry [of fs r n] by (cases "retry_run fs r n") auto

lemma retry_run_timeouts:
  "unat r + k \<le> unat n \<Longrightarrow> retry_run (replicate k AfTimeout) r n = Retry (r + of_nat k)"
proof (induction k arbitrary: r)
  case (Suc k)
  have b: "unat n < 2 ^ 32" using unat_bound32 [of n] by simp
  then have u: "unat (sat_add r 1) = unat r + 1" using Suc.prems unat_sat_succ32 [of r] by simp
  then have s: "sat_add r 1 = r + 1" using Suc.prems b
    by (simp add: word_unat_eq_iff unat_word_ariths)
  have "decide_timeout_expiry r n = Retry (r + 1)"
    using Suc.prems s by (simp add: decide_timeout_expiry_def word_le_nat_alt)
  then show ?case using Suc.IH [of "r + 1"] Suc.prems u s by (simp add: algebra_simps)
qed simp

subsection \<open>Back-off\<close>

lemma backoff_bounds_nat:
  fixes retry :: u32
  defines "nominal \<equiv> min (1000 * 2 ^ min (unat retry - 1) 16) (30000 :: nat)"
  shows "unat (fst (retryable_ack_backoff_bounds_ms retry)) = nominal * 80 div 100"
    and "unat (snd (retryable_ack_backoff_bounds_ms retry)) = max (min (nominal * 120 div 100) 30000) (nominal * 80 div 100)"
proof -
  let ?n = "min (unat retry - 1) 16"
  have shift: "unat (min (sat_sub retry 1) 16) = ?n"
    by (simp add: min_def word_le_nat_alt unat_sat_sub)
  have pow: "(2 :: nat) ^ ?n \<le> 2 ^ 16" by (intro power_increasing) simp_all
  then have pow64: "(2 :: nat) ^ ?n < 2 ^ 64" by simp
  have p: "unat (push_bit ?n (1 :: u64)) = 2 ^ ?n"
  proof -
    have "push_bit ?n (1 :: u64) = of_nat (2 ^ ?n)" by (simp add: push_bit_eq_mult)
    then show ?thesis using pow64 by (simp add: unat_of_nat del: of_nat_power)
  qed
  have m: "unat (sat_mul RETRYABLE_ACK_BACKOFF_BASE_MS (push_bit ?n 1)) = 1000 * 2 ^ ?n"
  proof -
    have "1000 * 2 ^ ?n \<le> (2 :: nat) ^ LENGTH(64) - 1" using pow by simp
    moreover have "unat RETRYABLE_ACK_BACKOFF_BASE_MS = 1000" by (simp add: RETRYABLE_ACK_BACKOFF_BASE_MS_def)
    ultimately show ?thesis unfolding unat_sat_mul p by (simp only: min_absorb1)
  qed
  define nom where "nom = min (sat_mul RETRYABLE_ACK_BACKOFF_BASE_MS (push_bit ?n 1)) RETRYABLE_ACK_BACKOFF_MAX_MS"
  have nom: "unat nom = nominal" "nominal \<le> 30000"
    using m by (auto simp: nom_def nominal_def min_def RETRYABLE_ACK_BACKOFF_MAX_MS_def word_le_nat_alt)
  have mul: "unat (sat_mul nom c) = nominal * unat c" if "unat c \<le> 200" for c
  proof -
    have "nominal * unat c \<le> 30000 * 200" using nom(2) that by (rule mult_le_mono)
    then show ?thesis using nom(1) by (simp add: unat_sat_mul)
  qed
  have eq: "retryable_ack_backoff_bounds_ms retry =
      (sat_mul nom 80 div 100, max (min (sat_mul nom 120 div 100) 30000) (sat_mul nom 80 div 100))"
    by (simp add: retryable_ack_backoff_bounds_ms_def Let_def shift nom_def RETRYABLE_ACK_BACKOFF_MAX_MS_def)
  show "unat (fst (retryable_ack_backoff_bounds_ms retry)) = nominal * 80 div 100"
    by (simp add: eq unat_div mul)
  show "unat (snd (retryable_ack_backoff_bounds_ms retry)) = max (min (nominal * 120 div 100) 30000) (nominal * 80 div 100)"
    by (simp add: eq max_def min_def word_le_nat_alt unat_div mul)
qed

definition backoff_nominal :: "u32 \<Rightarrow> nat" where
  "backoff_nominal retry = min (1000 * 2 ^ min (unat retry - 1) 16) 30000"

lemma backoff_nominal_bounds: "1000 \<le> backoff_nominal retry" "backoff_nominal retry \<le> 30000"
proof -
  have "(1 :: nat) \<le> 2 ^ min (unat retry - 1) 16" by (rule one_le_power) simp
  then show "1000 \<le> backoff_nominal retry" unfolding backoff_nominal_def by linarith
qed (simp add: backoff_nominal_def)

lemma backoff_nominal_mono: "retry \<le> later \<Longrightarrow> backoff_nominal retry \<le> backoff_nominal later"
proof -
  assume "retry \<le> later"
  then have "unat retry \<le> unat later" by (simp add: word_le_nat_alt)
  then have "(2 :: nat) ^ min (unat retry - 1) 16 \<le> 2 ^ min (unat later - 1) 16"
    by (intro power_increasing) auto
  then show ?thesis unfolding backoff_nominal_def by (intro min.mono mult_le_mono) simp_all
qed

lemma backoff_lo: "unat (fst (retryable_ack_backoff_bounds_ms retry)) = backoff_nominal retry * 80 div 100"
  and backoff_hi: "unat (snd (retryable_ack_backoff_bounds_ms retry)) =
    max (min (backoff_nominal retry * 120 div 100) 30000) (backoff_nominal retry * 80 div 100)"
  unfolding backoff_nominal_def by (rule backoff_bounds_nat)+

section \<open>Properties\<close>

text \<open>C37. The two ways by which a sent message is confirmed agree: taking the acknowledgement that a
  message pushed back by the server stands for leaves the same identity, sequence number, status,
  local state and place in the timeline as taking over the pushed message itself.\<close>

theorem ack_and_push_agree:
  assumes "dp_durability p (dp_persisted p) = DuPersisted"
    and "trim (im_server_id incoming) \<noteq> []" "im_conversation_seq incoming > 0" "0 < sint (im_created_at incoming)"
  shows "(let by_ack = mark_sent_from_ack p local (synthetic_ack_from_incoming p incoming);
      by_push = merge_incoming_as_sent p (Some local) incoming in
    im_server_id by_ack = im_server_id by_push \<and> im_conversation_seq by_ack = im_conversation_seq by_push \<and>
    im_status by_ack = im_status by_push \<and> im_is_read by_ack = im_is_read by_push \<and>
    im_local_state by_ack = im_local_state by_push \<and>
    timeline_sort_ts by_ack = timeline_sort_ts by_push \<and>
    timeline_key by_ack = timeline_key by_push)"
proof -
  have created: "im_created_at incoming \<noteq> 0" using assms(4) by auto
  have "trim [] = []" by code_simp
  then have "im_server_id incoming \<noteq> []" using assms(2) by auto
  moreover have cast: "(of_int (sint (im_created_at incoming)) :: u64) = im_created_at incoming" by simp
  ultimately show ?thesis
    using assms(2-4) created
    by (simp add: Let_def mark_sent_from_ack_def durable_synthetic(1) [OF assms(1)] merge_incoming_as_sent_def
        apply_send_ack_state_def timeline_sort_ts_def timeline_key_def cast word_gt_0)
qed

theorem ack_and_push_agree_witness:
  "(let p = \<lparr>dp_created = 1, dp_sent = 2, dp_failed = 9, dp_persisted = 4,
        dp_durability = (\<lambda>n. if n = 4 then DuPersisted else DuUnspecified),
        dp_error_code = (\<lambda>_. None), dp_code_name = (\<lambda>_. [])\<rparr>;
      incoming = example_row ''s1'' 7 9 False False;
      by_ack = mark_sent_from_ack p (example_row ''c1'' 0 5 True False) (synthetic_ack_from_incoming p incoming)
    in im_server_id by_ack = ''s1'' \<and> im_conversation_seq by_ack = 7 \<and> timeline_sort_ts by_ack = 9)"
proof -
  let ?p = "\<lparr>dp_created = 1, dp_sent = 2, dp_failed = 9, dp_persisted = 4,
        dp_durability = (\<lambda>n. if n = 4 then DuPersisted else DuUnspecified),
        dp_error_code = (\<lambda>_. None), dp_code_name = (\<lambda>_. [])\<rparr>"
  let ?in = "example_row ''s1'' 7 9 False False" and ?local = "example_row ''c1'' 0 5 True False"
  have t: "trim ''s1'' \<noteq> []" by code_simp
  let ?push = "merge_incoming_as_sent ?p (Some ?local) ?in"
  have h: "dp_durability ?p (dp_persisted ?p) = DuPersisted" "trim (im_server_id ?in) \<noteq> []"
    "im_conversation_seq ?in > 0"
    using t by (simp_all add: example_row_def)
  have "sint (9 :: u64) = 9" by code_simp
  then have "0 < sint (im_created_at ?in)" by (simp add: example_row_def)
  note agree = ack_and_push_agree [OF h this, of ?local, unfolded Let_def]
  have "im_server_id ?push = ''s1''" "im_conversation_seq ?push = 7" "timeline_sort_ts ?push = 9"
    by (simp_all add: example_row_def merge_incoming_as_sent_def apply_send_ack_state_def timeline_sort_ts_def)
  then show ?thesis unfolding Let_def using agree by metis
qed

text \<open>C38. The retries of a message end: once more attempts failed than its budget leaves, whatever
  mix of write errors, transient rejections and timeouts they were, the message is failed.\<close>

theorem retries_terminate:
  assumes "fs \<noteq> []" "unat max_retries < unat retries + length fs"
  shows "\<exists>reason. retry_run fs retries max_retries = Fail reason"
  using retry_run_ends [OF assms(2,1)] .

theorem retries_terminate_witness:
  "\<exists>reason. retry_run [AfSend, AfTimeout, AfRejected, AfTimeout] 0 3 = Fail reason"
  by (rule retries_terminate) simp_all

text \<open>The budget is not the number of attempts: write errors and transient rejections end a
  message with its \<open>max_retries\<close>-th attempt, timeouts only with one attempt more.\<close>

theorem attempts_per_budget:
  "retry_run (replicate (unat max_retries) AfTimeout) 0 max_retries = Retry max_retries \<and>
   (\<exists>reason. retry_run (replicate (Suc (unat max_retries)) AfTimeout) 0 max_retries = Fail reason) \<and>
   (max_retries = 0 \<or> (\<exists>reason. retry_run (replicate (unat max_retries) AfSend) 0 max_retries = Fail reason))"
proof -
  have "\<exists>reason. retry_run (replicate (unat max_retries) AfSend) 0 max_retries = Fail reason" if "max_retries \<noteq> 0"
  proof (cases "retry_run (replicate (unat max_retries) AfSend) 0 max_retries")
    case (Retry r')
    then have "replicate (unat max_retries) AfSend = [] \<or> unat r' < unat max_retries"
      by (rule retry_run_strict) (simp add: set_replicate_conv_if)
    then show ?thesis using that retry_run_Retry [OF Retry] by (simp add: unat_eq_zero)
  qed simp
  then show ?thesis
    using retry_run_timeouts [of 0 "unat max_retries" max_retries]
      retry_run_ends [of max_retries 0 "replicate (Suc (unat max_retries)) AfTimeout"] by auto
qed

text \<open>The wait before resending a rejected message lies between 0.8 and 30 seconds, its lower
  bound never exceeds its upper bound, and both grow with the number of the retry.\<close>

theorem ack_backoff_bounds:
  "800 \<le> unat (fst (retryable_ack_backoff_bounds_ms retry)) \<and>
   fst (retryable_ack_backoff_bounds_ms retry) \<le> snd (retryable_ack_backoff_bounds_ms retry) \<and>
   unat (snd (retryable_ack_backoff_bounds_ms retry)) \<le> 30000 \<and>
   (if retry \<le> later
    then fst (retryable_ack_backoff_bounds_ms retry) \<le> fst (retryable_ack_backoff_bounds_ms later) \<and>
         snd (retryable_ack_backoff_bounds_ms retry) \<le> snd (retryable_ack_backoff_bounds_ms later)
    else True)"
proof (intro conjI)
  have lo: "800 \<le> backoff_nominal retry * 80 div 100" "backoff_nominal retry * 80 div 100 \<le> 30000"
    using backoff_nominal_bounds [of retry] by linarith+
  then show "800 \<le> unat (fst (retryable_ack_backoff_bounds_ms retry))" unfolding backoff_lo by blast
  show "unat (snd (retryable_ack_backoff_bounds_ms retry)) \<le> 30000"
    unfolding backoff_hi using lo(2) by (intro max.boundedI min.cobounded2)
  show "fst (retryable_ack_backoff_bounds_ms retry) \<le> snd (retryable_ack_backoff_bounds_ms retry)"
    unfolding word_le_nat_alt backoff_lo backoff_hi by (rule max.cobounded2)
  show "if retry \<le> later
    then fst (retryable_ack_backoff_bounds_ms retry) \<le> fst (retryable_ack_backoff_bounds_ms later) \<and>
         snd (retryable_ack_backoff_bounds_ms retry) \<le> snd (retryable_ack_backoff_bounds_ms later)
    else True"
  proof (cases "retry \<le> later")
    case True
    note m = backoff_nominal_mono [OF True]
    have "backoff_nominal retry * 80 div 100 \<le> backoff_nominal later * 80 div 100"
      "backoff_nominal retry * 120 div 100 \<le> backoff_nominal later * 120 div 100"
      by (intro div_le_mono mult_le_mono1 m)+
    then have "fst (retryable_ack_backoff_bounds_ms retry) \<le> fst (retryable_ack_backoff_bounds_ms later) \<and>
         snd (retryable_ack_backoff_bounds_ms retry) \<le> snd (retryable_ack_backoff_bounds_ms later)"
      unfolding word_le_nat_alt backoff_lo backoff_hi by (intro conjI max.mono min.mono order_refl)
    then show ?thesis using True by simp
  qed simp
qed

end
