(* ===== verification/Send_Queue.thy ===== *)
theory Send_Queue
  imports Pending_Store Delivery "HOL-Library.AList"
begin

text \<open>
  The reliable send queue of \<open>runtime/reliable_queue/actor.rs\<close>: its state, one definition for each
  function of the actor, and the step relation of the running queue.

  The hash maps that the actor iterates are association lists; the step \<open>rehash\<close> permutes them, so
  that what is proved of reachable states does not depend on the order of a hash map.  The calls
  that leave the actor (store writes, published events, the probe, the retry timer) are appended to
  a log, in the order in which the actor makes them.  What the actor reads from outside (the clock,
  the signed-in user, the local message store and whether its writes succeed) is the environment of
  one command.  Metrics and log lines are left out.
\<close>

section \<open>Definitions\<close>

subsection \<open>Constants and the probe gate\<close>

definition RELIABLE_QUEUE_TIMEOUT_SECS :: u64 where "RELIABLE_QUEUE_TIMEOUT_SECS = 120"
definition RELIABLE_QUEUE_MAX_RETRIES :: u32 where "RELIABLE_QUEUE_MAX_RETRIES = 3"
definition RELIABLE_QUEUE_MAX_IN_FLIGHT :: nat where "RELIABLE_QUEUE_MAX_IN_FLIGHT = 32"
definition WRITER_FULL_WARN_INTERVAL_MS :: u64 where "WRITER_FULL_WARN_INTERVAL_MS = 30000"
definition ADAPTIVE_INITIAL_MAX_IN_FLIGHT :: nat where "ADAPTIVE_INITIAL_MAX_IN_FLIGHT = 4"
definition ADAPTIVE_MIN_IN_FLIGHT :: nat where "ADAPTIVE_MIN_IN_FLIGHT = 1"
definition SEND_STALL_PROBE_AFTER :: u64 where "SEND_STALL_PROBE_AFTER = 1500"
definition SEND_STALL_PROBE_MIN_INTERVAL :: u64 where "SEND_STALL_PROBE_MIN_INTERVAL = 30000"
definition PENDING_EXPIRED_BEFORE_RESUME :: string where
  "PENDING_EXPIRED_BEFORE_RESUME = ''pending send expired before reconnect''"

record SendStallProbeGate =
  pg_since_ms :: u64
  pg_last_probe_ms :: "u64 option"

definition should_probe :: "SendStallProbeGate \<Rightarrow> u64 \<Rightarrow> u64 list \<Rightarrow> bool" where
  "should_probe gate now_ms sent_at_ms =
     (if (case pg_last_probe_ms gate of
            Some probed \<Rightarrow> sat_sub now_ms probed < SEND_STALL_PROBE_MIN_INTERVAL
          | None \<Rightarrow> False)
      then False
      else list_ex (\<lambda>sent. sent \<ge> pg_since_ms gate \<and> sat_sub now_ms sent \<ge> SEND_STALL_PROBE_AFTER) sent_at_ms)"

definition next_due_ms :: "SendStallProbeGate \<Rightarrow> u64 list \<Rightarrow> u64 option" where
  "next_due_ms gate sent_at_ms =
     (case filter (\<lambda>sent. sent \<ge> pg_since_ms gate) sent_at_ms of
        [] \<Rightarrow> None
      | sent # rest \<Rightarrow>
          let earliest = fold min rest sent;
              due = sat_add earliest SEND_STALL_PROBE_AFTER
          in Some (case pg_last_probe_ms gate of
                     Some probed \<Rightarrow> max due (sat_add probed SEND_STALL_PROBE_MIN_INTERVAL)
                   | None \<Rightarrow> due))"

definition record_probe :: "u64 \<Rightarrow> SendStallProbeGate \<Rightarrow> SendStallProbeGate" where
  "record_probe now_ms gate = gate\<lparr>pg_last_probe_ms := Some now_ms, pg_since_ms := now_ms\<rparr>"

definition on_new_connection :: "u64 \<Rightarrow> SendStallProbeGate \<Rightarrow> SendStallProbeGate" where
  "on_new_connection now_ms gate = gate\<lparr>pg_last_probe_ms := None, pg_since_ms := now_ms\<rparr>"

subsection \<open>The adaptive window\<close>

record AdaptiveInFlightWindow =
  aw_current :: nat
  aw_max :: nat
  aw_consecutive_successes :: nat

definition AdaptiveInFlightWindow_new :: "nat \<Rightarrow> AdaptiveInFlightWindow" where
  "AdaptiveInFlightWindow_new limit =
     (let limit = max limit ADAPTIVE_MIN_IN_FLIGHT
      in \<lparr>aw_current = min (max limit ADAPTIVE_MIN_IN_FLIGHT) ADAPTIVE_INITIAL_MAX_IN_FLIGHT,
          aw_max = limit, aw_consecutive_successes = 0\<rparr>)"

definition note_success :: "AdaptiveInFlightWindow \<Rightarrow> AdaptiveInFlightWindow" where
  "note_success w =
     (if aw_current w \<ge> aw_max w then w\<lparr>aw_consecutive_successes := 0\<rparr>
      else
        let successes = Suc (aw_consecutive_successes w)
        in if successes < aw_current w then w\<lparr>aw_consecutive_successes := successes\<rparr>
           else w\<lparr>aw_current := min (aw_current w + 1) (aw_max w), aw_consecutive_successes := 0\<rparr>)"

definition note_congestion :: "AdaptiveInFlightWindow \<Rightarrow> AdaptiveInFlightWindow" where
  "note_congestion w =
     w\<lparr>aw_consecutive_successes := 0, aw_current := max (aw_current w div 2) ADAPTIVE_MIN_IN_FLIGHT\<rparr>"

subsection \<open>State, commands and calls\<close>

record 'e SendJob =
  sj_entry :: "'e PendingSendVo"
  sj_retries :: u32
  sj_generation :: u64

record 'e InFlightSend =
  if_entry :: "'e PendingSendVo"
  if_deadline_ms :: u64
  if_sent_at_ms :: u64
  if_send_failed :: bool

record 'e AwaitingDurableAck =
  ad_entry :: "'e PendingSendVo"
  ad_deadline_ms :: u64

datatype AckApplyResult = AckTerminal | AckKeepInFlight | AckAwaitDurable | AckRetryScheduled

datatype 'e QueueCommand =
    Enqueue "'e IMMessage"
  | AckReceived SendAck
  | SendAttemptFinished "'e PendingSendVo" u32 bool
  | ResetPendingOnLogin
  | Pause
  | Resume bool
  | ExpireStalePending u64
  | RetryBackoffElapsed string u32

datatype queue_reply = ReplyOk | ReplyErr | ReplyIds "string list" | NoReply

datatype 'e queue_call =
    SaveBatch "'e IMMessage"
  | UpdateAfterAck string "'e IMMessage"
  | UpdateLastMessage string string string u64 "string option" u64
  | PublishReceived "'e IMMessage"
  | PublishSendAck SendAck
  | PublishSendFailed string string SendFailure
  | RequestProbe
  | StartRetryTimer string u32 "u64 \<times> u64"

record 'e QueueState =
  qs_pending :: "'e PendingEntries"
  qs_timeout_ms :: u64
  qs_max_retries :: u32
  qs_max_in_flight :: nat
  qs_window :: AdaptiveInFlightWindow
  qs_in_flight :: "(string \<times> 'e InFlightSend) list"
  qs_awaiting_durable :: "(string \<times> 'e AwaitingDurableAck) list"
  qs_retry_count :: "string \<rightharpoonup> u32"
  qs_retry_backoff :: "(string \<times> u32) list"
  qs_link_probe :: bool
  qs_stall_probe_gate :: SendStallProbeGate
  qs_paused_since_ms :: "u64 option"
  qs_last_enqueued_at_ms :: u64
  qs_writer :: "'e SendJob list"
  qs_writer_full_warned_at_ms :: u64
  qs_dispatch_generation :: u64
  qs_calls :: "'e queue_call list"

text \<open>
  The environment of one command: the protocol constants, the clock, the signed-in user, and the
  local message store (\<open>None\<close> and \<open>False\<close> are its errors).
\<close>

record 'e queue_env =
  qe_proto :: delivery_proto
  qe_cancelled :: FlareError
  qe_now :: u64
  qe_user :: string
  qe_get_by_client_msg_ids :: "string list \<Rightarrow> 'e IMMessage list option"
  qe_get_by_client_msg_id :: "string \<Rightarrow> 'e IMMessage option option"
  qe_save_ok :: "'e IMMessage \<Rightarrow> bool"
  qe_update_ok :: "string \<Rightarrow> 'e IMMessage \<Rightarrow> bool"
  qe_heal_cross_account :: "string \<Rightarrow> string list \<Rightarrow> string list option"
  qe_heal_orphan :: "string \<Rightarrow> string list \<Rightarrow> string list option"
  qe_text_for_storage :: "'e IMMessage \<Rightarrow> string option"

record queue_config =
  qc_timeout_secs :: "u64 option"
  qc_max_retries :: "u32 option"
  qc_max_in_flight :: "nat option"
  qc_start_paused :: bool
  qc_link_probe :: bool

definition deadline_after :: "'e queue_env \<Rightarrow> u64 \<Rightarrow> u64" where
  "deadline_after env duration_ms = sat_add (qe_now env) duration_ms"

definition is_deadline_elapsed :: "'e queue_env \<Rightarrow> u64 \<Rightarrow> bool" where
  "is_deadline_elapsed env deadline_ms \<longleftrightarrow> qe_now env \<ge> deadline_ms"

definition call :: "'e queue_call \<Rightarrow> 'e QueueState \<Rightarrow> 'e QueueState" where
  "call c st = st\<lparr>qs_calls := qs_calls st @ [c]\<rparr>"

definition retries_of :: "'e QueueState \<Rightarrow> string \<Rightarrow> u32" where
  "retries_of st i = (case qs_retry_count st i of Some r \<Rightarrow> r | None \<Rightarrow> 0)"

definition set_retries :: "string \<Rightarrow> u32 \<Rightarrow> 'e QueueState \<Rightarrow> 'e QueueState" where
  "set_retries i r st = st\<lparr>qs_retry_count := (qs_retry_count st)(i \<mapsto> r)\<rparr>"

text \<open>\<open>pending_writer.pop\<close> followed by \<open>retry_count.remove\<close>.\<close>

definition drop_pending :: "string \<Rightarrow> 'e QueueState \<Rightarrow> 'e QueueState" where
  "drop_pending i st =
     st\<lparr>qs_pending := pending_pop i (qs_pending st), qs_retry_count := (qs_retry_count st)(i := None)\<rparr>"

definition in_flight_insert :: "'e InFlightSend \<Rightarrow> 'e QueueState \<Rightarrow> 'e QueueState" where
  "in_flight_insert f st = st\<lparr>qs_in_flight := AList.update (pv_client_msg_id (if_entry f)) f (qs_in_flight st)\<rparr>"

definition in_flight_remove :: "string \<Rightarrow> 'e QueueState \<Rightarrow> 'e QueueState" where
  "in_flight_remove i st = st\<lparr>qs_in_flight := AList.delete i (qs_in_flight st)\<rparr>"

definition awaiting_insert :: "'e AwaitingDurableAck \<Rightarrow> 'e QueueState \<Rightarrow> 'e QueueState" where
  "awaiting_insert a st =
     st\<lparr>qs_awaiting_durable := AList.update (pv_client_msg_id (ad_entry a)) a (qs_awaiting_durable st)\<rparr>"

definition awaiting_remove :: "string \<Rightarrow> 'e QueueState \<Rightarrow> 'e QueueState" where
  "awaiting_remove i st = st\<lparr>qs_awaiting_durable := AList.delete i (qs_awaiting_durable st)\<rparr>"

definition backoff_remove :: "string \<Rightarrow> 'e QueueState \<Rightarrow> 'e QueueState" where
  "backoff_remove i st = st\<lparr>qs_retry_backoff := AList.delete i (qs_retry_backoff st)\<rparr>"

definition note_send_success :: "'e QueueState \<Rightarrow> 'e QueueState" where
  "note_send_success st = st\<lparr>qs_window := note_success (qs_window st)\<rparr>"

definition note_send_congestion :: "'e QueueState \<Rightarrow> 'e QueueState" where
  "note_send_congestion st = st\<lparr>qs_window := note_congestion (qs_window st)\<rparr>"

definition publish_send_failed :: "'e queue_env \<Rightarrow> string \<Rightarrow> string \<Rightarrow> 'e QueueState \<Rightarrow> 'e QueueState" where
  "publish_send_failed env i reason st =
     call (PublishSendFailed i reason (SendFailure_local_reason (qe_proto env) reason)) st"

text \<open>
  The failure path that ignores the result of the local write: the actor has it in
  \<open>handle_send_attempt_finished\<close>, \<open>check_timeout\<close>, \<open>check_awaiting_durable_timeout\<close> and
  \<open>try_send_next\<close>.
\<close>

definition fail_entry :: "'e queue_env \<Rightarrow> 'e PendingSendVo \<Rightarrow> string \<Rightarrow> 'e QueueState \<Rightarrow> 'e QueueState" where
  "fail_entry env entry reason st =
     publish_send_failed env (pv_client_msg_id entry) reason
       (call (SaveBatch (mark_failed (qe_proto env) (pv_message entry)))
         (drop_pending (pv_client_msg_id entry) st))"

text \<open>The failure path that stops when the local write fails; the flag is its result.\<close>

definition mark_send_failed_and_publish ::
  "'e queue_env \<Rightarrow> 'e PendingSendVo \<Rightarrow> string \<Rightarrow> 'e QueueState \<Rightarrow> 'e QueueState \<times> bool" where
  "mark_send_failed_and_publish env entry reason st =
     (let st = drop_pending (pv_client_msg_id entry) st;
          failed_msg = mark_failed (qe_proto env) (pv_message entry);
          st = call (SaveBatch failed_msg) st
      in if qe_save_ok env failed_msg
         then (publish_send_failed env (pv_client_msg_id entry) reason st, True)
         else (st, False))"

subsection \<open>Dispatch\<close>

definition writer_capacity :: "'e QueueState \<Rightarrow> nat" where
  "writer_capacity st = qs_max_in_flight st * 2 - length (qs_writer st)"

definition note_writer_full :: "'e queue_env \<Rightarrow> 'e QueueState \<Rightarrow> 'e QueueState" where
  "note_writer_full env st =
     (if sat_sub (qe_now env) (qs_writer_full_warned_at_ms st) \<ge> WRITER_FULL_WARN_INTERVAL_MS
      then st\<lparr>qs_writer_full_warned_at_ms := qe_now env\<rparr> else st)"

definition dispatch_send_attempt :: "'e queue_env \<Rightarrow> 'e PendingSendVo \<Rightarrow> u32 \<Rightarrow> 'e QueueState \<Rightarrow> 'e QueueState" where
  "dispatch_send_attempt env entry retries st =
     (let st = in_flight_insert
            \<lparr>if_entry = entry, if_deadline_ms = deadline_after env (qs_timeout_ms st),
             if_sent_at_ms = qe_now env, if_send_failed = False\<rparr> st;
          job = \<lparr>sj_entry = entry, sj_retries = retries, sj_generation = qs_dispatch_generation st\<rparr>
      in if writer_capacity st = 0 then note_writer_full env st
         else st\<lparr>qs_writer := qs_writer st @ [job]\<rparr>)"

definition bump_dispatch_generation :: "'e QueueState \<Rightarrow> 'e QueueState" where
  "bump_dispatch_generation st = st\<lparr>qs_dispatch_generation := qs_dispatch_generation st + 1\<rparr>"

text \<open>Collecting into a hash map: of two messages with one id, the later one stays.\<close>

definition snapshot_by_id :: "'e IMMessage list \<Rightarrow> string \<Rightarrow> DeliveryLocalSnapshot option" where
  "snapshot_by_id messages = map_of (rev (map (\<lambda>m. (im_client_msg_id m, DeliveryLocalSnapshot_from m)) messages))"

definition excluded_ids :: "'e QueueState \<Rightarrow> string list" where
  "excluded_ids st = map fst (qs_in_flight st) @ map fst (qs_awaiting_durable st) @ map fst (qs_retry_backoff st)"

text \<open>
  The \<open>for\<close> loop of \<open>try_send_next\<close>: the state, whether the function returned from inside the loop,
  and \<open>made_progress\<close>.
\<close>

fun dispatch_entries ::
  "'e queue_env \<Rightarrow> (string \<Rightarrow> DeliveryLocalSnapshot option) \<Rightarrow> 'e PendingSendVo list \<Rightarrow> bool
   \<Rightarrow> 'e QueueState \<Rightarrow> 'e QueueState \<times> bool \<times> bool" where
  "dispatch_entries env local [] made_progress st = (st, False, made_progress)"
| "dispatch_entries env local (entry # entries) made_progress st =
     (if length (qs_in_flight st) \<ge> aw_current (qs_window st) then (st, True, made_progress)
      else
        let retries = retries_of st (pv_client_msg_id entry) in
        case decide_pending_dispatch (qe_proto env) (qe_user env) (pv_client_msg_id entry)
               (im_sender_id (pv_message entry)) (local (pv_client_msg_id entry)) retries (qs_max_retries st) of
          DropAsCrossAccount reason \<Rightarrow>
            dispatch_entries env local entries True (fail_entry env entry reason st)
        | DropAsTerminal \<Rightarrow>
            dispatch_entries env local entries True (drop_pending (pv_client_msg_id entry) st)
        | FailMaxRetries reason \<Rightarrow>
            dispatch_entries env local entries True (fail_entry env entry reason st)
        | SendNow \<Rightarrow>
            if writer_capacity st = 0 then (note_writer_full env st, True, made_progress)
            else dispatch_entries env local entries True (dispatch_send_attempt env entry retries st))"

text \<open>The ids that a next round of the outer loop may still pick.\<close>

definition dispatchable :: "'e QueueState \<Rightarrow> string set" where
  "dispatchable st = pending_ids (qs_pending st) - set (excluded_ids st)"

definition pick_entries :: "'e QueueState \<Rightarrow> 'e PendingSendVo list" where
  "pick_entries st =
     list_oldest_excluding (excluded_ids st) (aw_current (qs_window st) - length (qs_in_flight st)) (qs_pending st)"

definition dispatch_snapshots :: "'e queue_env \<Rightarrow> 'e PendingSendVo list \<Rightarrow> string \<Rightarrow> DeliveryLocalSnapshot option" where
  "dispatch_snapshots env entries =
     (case qe_get_by_client_msg_ids env (map pv_client_msg_id entries) of
        Some messages \<Rightarrow> snapshot_by_id messages
      | None \<Rightarrow> Map.empty)"

lemma set_keys_delete [simp]: "fst ` set (AList.delete k xs) = fst ` set xs - {k}"
  by (induction xs) auto

lemma set_keys_update [simp]: "fst ` set (AList.update k v xs) = insert k (fst ` set xs)"
  by (induction xs) auto

lemma set_excluded_ids:
  "set (excluded_ids st) =
     fst ` set (qs_in_flight st) \<union> fst ` set (qs_awaiting_durable st) \<union> fst ` set (qs_retry_backoff st)"
  by (simp add: excluded_ids_def Un_assoc)

lemma dispatchable_simps [simp]:
  "dispatchable (call c st) = dispatchable st"
  "dispatchable (drop_pending i st) = dispatchable st - {i}"
  "dispatchable (note_writer_full env st) = dispatchable st"
  "dispatchable (dispatch_send_attempt env entry retries st) = dispatchable st - {pv_client_msg_id entry}"
  by (auto simp: dispatchable_def set_excluded_ids call_def drop_pending_def note_writer_full_def
      dispatch_send_attempt_def in_flight_insert_def Let_def)

lemma dispatchable_fail_entry [simp]:
  "dispatchable (fail_entry env entry reason st) = dispatchable st - {pv_client_msg_id entry}"
  by (simp add: fail_entry_def publish_send_failed_def)

text \<open>What one iteration of the \<open>for\<close> loop does with its entry when it goes on to the next.\<close>

definition dispatch_one ::
  "'e queue_env \<Rightarrow> (string \<Rightarrow> DeliveryLocalSnapshot option) \<Rightarrow> 'e PendingSendVo \<Rightarrow> 'e QueueState \<Rightarrow> 'e QueueState" where
  "dispatch_one env local entry st =
     (let i = pv_client_msg_id entry; retries = retries_of st i in
      case decide_pending_dispatch (qe_proto env) (qe_user env) i (im_sender_id (pv_message entry)) (local i)
             retries (qs_max_retries st) of
        DropAsCrossAccount reason \<Rightarrow> fail_entry env entry reason st
      | DropAsTerminal \<Rightarrow> drop_pending i st
      | FailMaxRetries reason \<Rightarrow> fail_entry env entry reason st
      | SendNow \<Rightarrow> dispatch_send_attempt env entry retries st)"

lemma dispatchable_dispatch_one [simp]:
  "dispatchable (dispatch_one env local entry st) = dispatchable st - {pv_client_msg_id entry}"
  by (simp add: dispatch_one_def Let_def split: PendingDispatchDecision.split)

lemma dispatch_entries_ConsE:
  assumes "dispatch_entries env local (entry # entries) made_progress st = (st', returned, progress)"
  obtains (window_full) "returned" "st' = st" "aw_current (qs_window st) \<le> length (qs_in_flight st)"
  | (writer_full) "returned" "st' = note_writer_full env st" "writer_capacity st = 0"
  | (next_entry) "dispatch_entries env local entries True (dispatch_one env local entry st) = (st', returned, progress)"
      "length (qs_in_flight st) < aw_current (qs_window st)"
      "decide_pending_dispatch (qe_proto env) (qe_user env) (pv_client_msg_id entry)
         (im_sender_id (pv_message entry)) (local (pv_client_msg_id entry))
         (retries_of st (pv_client_msg_id entry)) (qs_max_retries st) = SendNow \<Longrightarrow> 0 < writer_capacity st"
  using assms
  by (simp add: Let_def dispatch_one_def split: if_split_asm PendingDispatchDecision.split_asm)

lemma dispatch_entries_shrinks:
  "dispatch_entries env local entries made_progress st = (st', returned, progress) \<Longrightarrow>
   dispatchable st' \<subseteq> dispatchable st \<and>
   (\<not> returned \<longrightarrow> dispatchable st' \<inter> pv_client_msg_id ` set entries = {})"
proof (induction entries arbitrary: made_progress st)
  case (Cons entry entries)
  from Cons.prems show ?case
  proof (cases rule: dispatch_entries_ConsE)
    case next_entry
    from Cons.IH [OF this(1)] show ?thesis by auto
  qed simp_all
qed simp

lemma finite_dispatchable [simp]: "finite (dispatchable st)"
  by (simp add: dispatchable_def)

lemma pick_entries_dispatchable: "entry \<in> set (pick_entries st) \<Longrightarrow> pv_client_msg_id entry \<in> dispatchable st"
  by (force simp: pick_entries_def memory.oldest_list pending_list_def dispatchable_def pending_ids_def
      dest!: in_set_takeD)

lemma dispatch_entries_progress:
  assumes picked: "pick_entries st \<noteq> []"
    and "dispatch_entries env local (pick_entries st) made_progress st = (st', False, progress)"
  shows "card (dispatchable st') < card (dispatchable st)"
proof -
  from dispatch_entries_shrinks [OF assms(2)]
  have "dispatchable st' \<subseteq> dispatchable st" "pv_client_msg_id (hd (pick_entries st)) \<notin> dispatchable st'"
    using picked by auto
  moreover have "pv_client_msg_id (hd (pick_entries st)) \<in> dispatchable st"
    using picked by (intro pick_entries_dispatchable hd_in_set)
  ultimately have "dispatchable st' \<subset> dispatchable st" by blast
  then show ?thesis by (simp add: psubset_card_mono)
qed

text \<open>
  The outer loop of \<open>try_send_next\<close>.  It ends because a round that does not return takes every entry
  it picked out of the dispatchable ids: it was dropped, or it is in flight.
\<close>

function try_send_loop :: "'e queue_env \<Rightarrow> 'e QueueState \<Rightarrow> 'e QueueState" where
  "try_send_loop env st =
     (if aw_current (qs_window st) - length (qs_in_flight st) = 0 then st
      else if pick_entries st = [] then st
      else
        case dispatch_entries env (dispatch_snapshots env (pick_entries st)) (pick_entries st) False st of
          (st', returned, made_progress) \<Rightarrow>
            if returned \<or> \<not> made_progress then st' else try_send_loop env st')"
  by pat_completeness auto
termination
  by (relation "measure (\<lambda>(env, st). card (dispatchable st))") (auto intro: dispatch_entries_progress [OF _ sym])

declare try_send_loop.simps [simp del]

definition try_send_next :: "'e queue_env \<Rightarrow> 'e QueueState \<Rightarrow> 'e QueueState" where
  "try_send_next env st = (if qs_paused_since_ms st \<noteq> None then st else try_send_loop env st)"

subsection \<open>Acknowledgements\<close>

definition conversation_projection_ts :: "'e IMMessage \<Rightarrow> u64" where
  "conversation_projection_ts message =
     (if im_conversation_seq message > 0 \<and> im_created_at message > 0 then im_created_at message
      else if im_conversation_seq message > 0 \<and> im_client_created_at message > 0 then im_client_created_at message
      else timeline_sort_ts message)"

definition update_conversation_last_message :: "'e queue_env \<Rightarrow> 'e IMMessage \<Rightarrow> 'e QueueState \<Rightarrow> 'e QueueState" where
  "update_conversation_last_message env message st =
     (let conversation_id = trim (im_conversation_id message);
          last_message_id = (if trim (im_server_id message) = [] then trim (im_client_msg_id message)
                             else trim (im_server_id message))
      in if conversation_id = [] \<or> last_message_id = [] then st
         else call (UpdateLastMessage conversation_id last_message_id (im_sender_id message)
                (conversation_projection_ts message) (qe_text_for_storage env message)
                (im_conversation_seq message)) st)"

definition schedule_retry_after_backoff ::
  "'e PendingSendVo \<Rightarrow> u32 \<Rightarrow> 'e QueueState \<Rightarrow> 'e QueueState" where
  "schedule_retry_after_backoff entry next_retry_count st =
     (let i = pv_client_msg_id entry;
          st = set_retries i next_retry_count (note_send_congestion st);
          st = st\<lparr>qs_retry_backoff := AList.update i next_retry_count (qs_retry_backoff st)\<rparr>
      in call (StartRetryTimer i next_retry_count (retryable_ack_backoff_bounds_ms next_retry_count)) st)"

definition fail_from_ack :: "'e queue_env \<Rightarrow> 'e PendingSendVo \<Rightarrow> SendAck \<Rightarrow> 'e QueueState \<Rightarrow> 'e QueueState" where
  "fail_from_ack env entry ack st =
     (let st = drop_pending (ak_client_msg_id ack) st;
          st = call (SaveBatch (mark_failed (qe_proto env) (pv_message entry))) st;
          reason = (case error_message_from_ack ack of Some r \<Rightarrow> r | None \<Rightarrow> ''send ack missing accepted result'');
          error = (case send_failure_from_ack (qe_proto env) (qe_cancelled env) ack of
                     Some e \<Rightarrow> e | None \<Rightarrow> SendFailure_local_reason (qe_proto env) reason)
      in call (PublishSendFailed (ak_client_msg_id ack) reason error) (call (PublishSendAck ack) st))"

definition apply_ack_and_publish ::
  "'e queue_env \<Rightarrow> 'e PendingSendVo \<Rightarrow> SendAck \<Rightarrow> 'e QueueState \<Rightarrow> 'e QueueState \<times> AckApplyResult" where
  "apply_ack_and_publish env entry ack st =
     (if durable_accepted_from_ack (qe_proto env) ack \<noteq> None then
        let st = note_send_success (drop_pending (ak_client_msg_id ack) st);
            msg = mark_sent_from_ack (qe_proto env) (pv_message entry) ack;
            st = call (UpdateAfterAck (ak_client_msg_id ack) msg) st;
            st = update_conversation_last_message env msg st
        in (call (PublishSendAck ack) st, AckTerminal)
      else if accepted_from_ack ack \<noteq> None then
        (call (PublishSendAck ack) (note_send_success st), AckAwaitDurable)
      else if is_retryable_ack_error (qe_proto env) ack then
        (case decide_retryable_ack_error (retries_of st (ak_client_msg_id ack)) (qs_max_retries st) of
           Retry next_retry_count \<Rightarrow> (schedule_retry_after_backoff entry next_retry_count st, AckRetryScheduled)
         | Fail _ \<Rightarrow> (fail_from_ack env entry ack st, AckTerminal))
      else (fail_from_ack env entry ack st, AckTerminal))"

definition orphan_durable_ack_should_update :: "delivery_proto \<Rightarrow> 'e IMMessage \<Rightarrow> string \<Rightarrow> u64 \<Rightarrow> bool" where
  "orphan_durable_ack_should_update p local client_msg_id ack_seq \<longleftrightarrow>
     (let pending_like = (im_server_id local = client_msg_id \<or> ls_is_local (im_local_state local) \<or>
            ls_sending (im_local_state local) \<or> im_status local < dp_sent p)
      in pending_like \<or> im_conversation_seq local = 0 \<or> ack_seq > im_conversation_seq local)"

definition apply_orphan_durable_ack :: "'e queue_env \<Rightarrow> SendAck \<Rightarrow> 'e QueueState \<Rightarrow> 'e QueueState" where
  "apply_orphan_durable_ack env ack st =
     (case durable_accepted_from_ack (qe_proto env) ack of
        None \<Rightarrow> st
      | Some accepted \<Rightarrow>
          let client_msg_id = trim (ak_client_msg_id ack) in
          if client_msg_id = [] then st
          else
            case qe_get_by_client_msg_id env client_msg_id of
              Some (Some local) \<Rightarrow>
                if \<not> orphan_durable_ack_should_update (qe_proto env) local client_msg_id (sa_conversation_seq accepted)
                then st
                else
                  let msg = mark_sent_from_ack (qe_proto env) local ack;
                      st = call (UpdateAfterAck client_msg_id msg) st
                  in if qe_update_ok env client_msg_id msg then update_conversation_last_message env msg st else st
            | _ \<Rightarrow> st)"

definition ack_received :: "'e queue_env \<Rightarrow> SendAck \<Rightarrow> 'e QueueState \<Rightarrow> 'e QueueState" where
  "ack_received env ack st =
     (let i = ak_client_msg_id ack in
      case map_of (qs_in_flight st) i of
        Some in_flight \<Rightarrow>
          (case apply_ack_and_publish env (if_entry in_flight) ack (in_flight_remove i st) of
             (st, AckKeepInFlight) \<Rightarrow> in_flight_insert (in_flight\<lparr>if_sent_at_ms := qe_now env\<rparr>) st
           | (st, AckAwaitDurable) \<Rightarrow>
               awaiting_insert \<lparr>ad_entry = if_entry in_flight, ad_deadline_ms = deadline_after env (qs_timeout_ms st)\<rparr> st
           | (st, _) \<Rightarrow> st)
      | None \<Rightarrow>
          (case map_of (qs_awaiting_durable st) i of
             Some awaiting \<Rightarrow>
               (case apply_ack_and_publish env (ad_entry awaiting) ack (awaiting_remove i st) of
                  (st, AckKeepInFlight) \<Rightarrow> awaiting_insert awaiting st
                | (st, AckAwaitDurable) \<Rightarrow> awaiting_insert awaiting st
                | (st, _) \<Rightarrow> st)
           | None \<Rightarrow>
               (case pending_get (qs_pending st) i of
                  Some entry \<Rightarrow>
                    (case apply_ack_and_publish env entry ack (backoff_remove (pv_client_msg_id entry) st) of
                       (st, AckKeepInFlight) \<Rightarrow>
                         in_flight_insert \<lparr>if_entry = entry, if_deadline_ms = deadline_after env (qs_timeout_ms st),
                           if_sent_at_ms = qe_now env, if_send_failed = False\<rparr> st
                     | (st, AckAwaitDurable) \<Rightarrow>
                         awaiting_insert \<lparr>ad_entry = entry, ad_deadline_ms = deadline_after env (qs_timeout_ms st)\<rparr> st
                     | (st, _) \<Rightarrow> st)
                | None \<Rightarrow>
                    if accepted_from_ack ack \<noteq> None \<or> error_message_from_ack ack \<noteq> None
                    then call (PublishSendAck ack) (apply_orphan_durable_ack env ack st)
                    else st)))"

subsection \<open>Enqueue and the result of a send attempt\<close>

definition next_enqueue_ms :: "u64 \<Rightarrow> 'e QueueState \<Rightarrow> u64 \<times> 'e QueueState" where
  "next_enqueue_ms now_ms st =
     (let at = max now_ms (sat_add (qs_last_enqueued_at_ms st) 1)
      in (at, st\<lparr>qs_last_enqueued_at_ms := at\<rparr>))"

definition note_persisted_enqueue_times :: "'e PendingSendVo list \<Rightarrow> 'e QueueState \<Rightarrow> 'e QueueState" where
  "note_persisted_enqueue_times entries st =
     (case entries of
        [] \<Rightarrow> st
      | e # es \<Rightarrow>
          st\<lparr>qs_last_enqueued_at_ms :=
             max (qs_last_enqueued_at_ms st) (fold (\<lambda>x m. max m (pv_enqueued_at_ms x)) es (pv_enqueued_at_ms e))\<rparr>)"

definition seed_enqueue_clock :: "'e QueueState \<Rightarrow> 'e QueueState" where
  "seed_enqueue_clock st = note_persisted_enqueue_times (pending_list (qs_pending st)) st"

definition optimistic_message :: "u64 \<Rightarrow> 'e IMMessage \<Rightarrow> 'e IMMessage" where
  "optimistic_message enqueued_at_ms msg =
     msg\<lparr>im_server_id := im_client_msg_id msg,
         im_local_state := \<lparr>ls_sending = True, ls_failed = False, ls_is_local = True, ls_uploading = False,
           ls_upload_progress = 0, ls_sort_ts = enqueued_at_ms\<rparr>\<rparr>"

definition enqueue :: "'e queue_env \<Rightarrow> 'e IMMessage \<Rightarrow> 'e QueueState \<Rightarrow> 'e QueueState \<times> queue_reply" where
  "enqueue env msg st =
     (case next_enqueue_ms (qe_now env) st of (enqueued_at_ms, st) \<Rightarrow>
        let optimistic = optimistic_message enqueued_at_ms msg;
            entry = \<lparr>pv_client_msg_id = im_client_msg_id msg, pv_conversation_id = im_conversation_id msg,
              pv_message = msg, pv_enqueued_at_ms = enqueued_at_ms\<rparr>;
            st = call (SaveBatch optimistic) st
        in if \<not> qe_save_ok env optimistic then (st, ReplyErr)
           else
             let st = st\<lparr>qs_pending := pending_push entry (qs_pending st)\<rparr>;
                 st = update_conversation_last_message env optimistic st;
                 st = call (PublishReceived optimistic) st
             in (try_send_next env st, ReplyOk))"

definition handle_send_attempt_finished ::
  "'e queue_env \<Rightarrow> 'e PendingSendVo \<Rightarrow> u32 \<Rightarrow> bool \<Rightarrow> 'e QueueState \<Rightarrow> 'e QueueState" where
  "handle_send_attempt_finished env sent retries ok st =
     (let i = pv_client_msg_id sent in
      if ok then st
      else if retries_of st i \<noteq> retries then st
      else
        case map_of (qs_in_flight st) i of
          None \<Rightarrow> st
        | Some in_flight \<Rightarrow>
            let entry = if_entry in_flight;
                st = in_flight_remove i st;
                unsent = \<lparr>if_entry = entry, if_deadline_ms = deadline_after env (qs_timeout_ms st),
                  if_sent_at_ms = qe_now env, if_send_failed = True\<rparr>
            in if qs_paused_since_ms st \<noteq> None then in_flight_insert unsent st
               else
                 let st = note_send_congestion st in
                 case decide_send_attempt_failure retries (qs_max_retries st) of
                   Retry next_retry_count \<Rightarrow>
                     in_flight_insert unsent (set_retries (pv_client_msg_id entry) next_retry_count st)
                 | Fail reason \<Rightarrow> try_send_next env (fail_entry env entry reason st))"

subsection \<open>Login, pause, resume and expiry\<close>

text \<open>A loop of \<open>mark_send_failed_and_publish(\<dots>)?\<close>: the flag is whether it ran to its end.\<close>

fun mark_all_failed ::
  "'e queue_env \<Rightarrow> string \<Rightarrow> 'e PendingSendVo list \<Rightarrow> 'e QueueState \<Rightarrow> 'e QueueState \<times> bool" where
  "mark_all_failed env reason [] st = (st, True)"
| "mark_all_failed env reason (entry # entries) st =
     (case mark_send_failed_and_publish env entry reason st of
        (st, ok) \<Rightarrow> if ok then mark_all_failed env reason entries st else (st, False))"

definition sort_dedup_ids :: "string list \<Rightarrow> string list" where
  "sort_dedup_ids ids = remdups_adj (sort_by cmp ids)"

definition LOGIN_RESET_REASON :: string where
  "LOGIN_RESET_REASON = ''pending queue dropped during login session reset''"
definition LOGIN_RESET_ACCEPTED_REASON :: string where
  "LOGIN_RESET_ACCEPTED_REASON = ''server accepted queue dropped during login session reset''"

definition reset_pending_on_login :: "'e queue_env \<Rightarrow> 'e QueueState \<Rightarrow> 'e QueueState \<times> queue_reply" where
  "reset_pending_on_login env st =
     (let st = (bump_dispatch_generation st)\<lparr>qs_retry_backoff := []\<rparr>;
          in_flight_entries = map (if_entry \<circ> snd) (qs_in_flight st);
          st = st\<lparr>qs_in_flight := []\<rparr>
      in case mark_all_failed env LOGIN_RESET_REASON in_flight_entries st of
           (st, False) \<Rightarrow> (st, ReplyErr)
         | (st, True) \<Rightarrow>
             let awaiting_entries = map (ad_entry \<circ> snd) (qs_awaiting_durable st);
                 st = st\<lparr>qs_awaiting_durable := []\<rparr>
             in case mark_all_failed env LOGIN_RESET_ACCEPTED_REASON awaiting_entries st of
                  (st, False) \<Rightarrow> (st, ReplyErr)
                | (st, True) \<Rightarrow>
                    let pending_entries = pending_list (qs_pending st)
                    in case mark_all_failed env LOGIN_RESET_REASON pending_entries st of
                         (st, False) \<Rightarrow> (st, ReplyErr)
                       | (st, True) \<Rightarrow>
                           (st, ReplyIds (sort_dedup_ids (map pv_client_msg_id
                             (in_flight_entries @ awaiting_entries @ pending_entries)))))"

definition pause :: "'e queue_env \<Rightarrow> 'e QueueState \<Rightarrow> 'e QueueState" where
  "pause env st =
     (if qs_paused_since_ms st = None then st\<lparr>qs_paused_since_ms := Some (qe_now env)\<rparr> else st)"

definition heal_cross_account_entry :: "'e queue_env \<Rightarrow> string \<Rightarrow> 'e QueueState \<Rightarrow> 'e QueueState" where
  "heal_cross_account_entry env i st =
     publish_send_failed env i REASON_PENDING_ANOTHER_ACCOUNT (backoff_remove i (drop_pending i st))"

definition recover_pending_for_current_user ::
  "'e queue_env \<Rightarrow> 'e QueueState \<Rightarrow> 'e QueueState \<times> queue_reply" where
  "recover_pending_for_current_user env st =
     (let st = st\<lparr>qs_stall_probe_gate := on_new_connection (qe_now env) (qs_stall_probe_gate st)\<rparr> in
      if trim (qe_user env) = [] then (st, ReplyIds [])
      else
        let pending_entries = pending_list (qs_pending st);
            st = note_persisted_enqueue_times pending_entries st
        in case qe_heal_cross_account env (qe_user env) (map pv_client_msg_id pending_entries) of
             None \<Rightarrow> (st, ReplyErr)
           | Some cross_account_ids \<Rightarrow>
               let st = fold (heal_cross_account_entry env) cross_account_ids st;
                   remaining_entries = pending_list (qs_pending st)
               in case qe_heal_orphan env (qe_user env) (map pv_client_msg_id remaining_entries) of
                    None \<Rightarrow> (st, ReplyErr)
                  | Some orphan_ids \<Rightarrow>
                      let st = fold (\<lambda>i. publish_send_failed env i REASON_ORPHAN_RECOVERED) orphan_ids st;
                          unsent = map fst (filter (\<lambda>(_, f). if_send_failed f) (qs_in_flight st));
                          st = fold in_flight_remove unsent st
                      in (try_send_next env st, ReplyIds (sort_dedup_ids (cross_account_ids @ orphan_ids))))"

definition resume :: "'e queue_env \<Rightarrow> bool \<Rightarrow> 'e QueueState \<Rightarrow> 'e QueueState \<times> queue_reply" where
  "resume env resend_in_flight st =
     (let paused_for = (case qs_paused_since_ms st of Some since \<Rightarrow> sat_sub (qe_now env) since | None \<Rightarrow> 0);
          st = st\<lparr>qs_paused_since_ms := None,
            qs_awaiting_durable :=
              map (\<lambda>(k, a). (k, a\<lparr>ad_deadline_ms := sat_add (ad_deadline_ms a) paused_for\<rparr>)) (qs_awaiting_durable st)\<rparr>;
          st = (if resend_in_flight then (bump_dispatch_generation st)\<lparr>qs_in_flight := []\<rparr>
                else st\<lparr>qs_in_flight :=
                  map (\<lambda>(k, f). (k, f\<lparr>if_deadline_ms := sat_add (if_deadline_ms f) paused_for\<rparr>)) (qs_in_flight st)\<rparr>)
      in recover_pending_for_current_user env st)"

fun expire_loop ::
  "'e queue_env \<Rightarrow> u64 \<Rightarrow> 'e PendingSendVo list \<Rightarrow> string list \<Rightarrow> 'e QueueState \<Rightarrow> 'e QueueState \<times> queue_reply" where
  "expire_loop env cutoff [] expired st = (st, ReplyIds expired)"
| "expire_loop env cutoff (entry # entries) expired st =
     (if pv_enqueued_at_ms entry \<ge> cutoff then expire_loop env cutoff entries expired st
      else
        let i = pv_client_msg_id entry;
            st = backoff_remove i (awaiting_remove i (in_flight_remove i st))
        in case mark_send_failed_and_publish env entry PENDING_EXPIRED_BEFORE_RESUME st of
             (st, ok) \<Rightarrow> if ok then expire_loop env cutoff entries (expired @ [i]) st else (st, ReplyErr))"

definition expire_stale_pending :: "'e queue_env \<Rightarrow> u64 \<Rightarrow> 'e QueueState \<Rightarrow> 'e QueueState \<times> queue_reply" where
  "expire_stale_pending env max_age_ms st =
     expire_loop env (sat_sub (qe_now env) max_age_ms) (pending_list (qs_pending st)) [] st"

definition retry_backoff_elapsed :: "'e queue_env \<Rightarrow> string \<Rightarrow> u32 \<Rightarrow> 'e QueueState \<Rightarrow> 'e QueueState" where
  "retry_backoff_elapsed env i retries st =
     try_send_next env (if map_of (qs_retry_backoff st) i = Some retries then backoff_remove i st else st)"

definition handle_command :: "'e queue_env \<Rightarrow> 'e QueueCommand \<Rightarrow> 'e QueueState \<Rightarrow> 'e QueueState \<times> queue_reply" where
  "handle_command env cmd st =
     (case cmd of
        Enqueue msg \<Rightarrow> enqueue env msg st
      | AckReceived ack \<Rightarrow> (try_send_next env (ack_received env ack st), NoReply)
      | SendAttemptFinished entry retries ok \<Rightarrow> (handle_send_attempt_finished env entry retries ok st, NoReply)
      | ResetPendingOnLogin \<Rightarrow> reset_pending_on_login env st
      | Pause \<Rightarrow> (pause env st, ReplyOk)
      | Resume resend_in_flight \<Rightarrow> resume env resend_in_flight st
      | ExpireStalePending max_age_ms \<Rightarrow> expire_stale_pending env max_age_ms st
      | RetryBackoffElapsed i retries \<Rightarrow> (retry_backoff_elapsed env i retries st, NoReply))"

subsection \<open>The periodic check\<close>

text \<open>
  What both reconciliations do with an entry taken out of its table: \<open>Some\<close> state when the local
  store already holds its outcome, \<open>None\<close> when the entry goes back.
\<close>

definition settle_reconciled ::
  "'e queue_env \<Rightarrow> (string \<Rightarrow> DeliveryLocalSnapshot option) \<Rightarrow> 'e PendingSendVo \<Rightarrow> 'e QueueState
   \<Rightarrow> 'e QueueState option" where
  "settle_reconciled env local entry st =
     (let i = pv_client_msg_id entry in
      case reconcile_in_flight (qe_proto env) (local i) i of
        KeepWaiting \<Rightarrow> None
      | MarkFailed reason \<Rightarrow> Some (publish_send_failed env i reason (drop_pending i st))
      | SynthesizeAck snapshot \<Rightarrow>
          Some (call (PublishSendAck (synthetic_ack (qe_proto env) i snapshot)) (drop_pending i st)))"

definition reconcile_in_flight_entry ::
  "'e queue_env \<Rightarrow> (string \<Rightarrow> DeliveryLocalSnapshot option) \<Rightarrow> string \<Rightarrow> 'e QueueState \<times> bool \<Rightarrow> 'e QueueState \<times> bool" where
  "reconcile_in_flight_entry env local i acc =
     (case acc of (st, progressed) \<Rightarrow>
        case map_of (qs_in_flight st) i of
          None \<Rightarrow> (st, progressed)
        | Some in_flight \<Rightarrow>
            let st = in_flight_remove i st in
            case settle_reconciled env local (if_entry in_flight) st of
              None \<Rightarrow> (in_flight_insert in_flight st, progressed)
            | Some st \<Rightarrow> (st, True))"

definition reconcile_awaiting_entry ::
  "'e queue_env \<Rightarrow> (string \<Rightarrow> DeliveryLocalSnapshot option) \<Rightarrow> string \<Rightarrow> 'e QueueState \<times> bool \<Rightarrow> 'e QueueState \<times> bool" where
  "reconcile_awaiting_entry env local i acc =
     (case acc of (st, progressed) \<Rightarrow>
        case map_of (qs_awaiting_durable st) i of
          None \<Rightarrow> (st, progressed)
        | Some awaiting \<Rightarrow>
            let st = awaiting_remove i st in
            case settle_reconciled env local (ad_entry awaiting) st of
              None \<Rightarrow> (awaiting_insert awaiting st, progressed)
            | Some st \<Rightarrow> (st, True))"

text \<open>\<open>None\<close> is a failed read of the local store; nothing has changed then.\<close>

definition reconcile_in_flight_terminal_states :: "'e queue_env \<Rightarrow> 'e QueueState \<Rightarrow> ('e QueueState \<times> bool) option" where
  "reconcile_in_flight_terminal_states env st =
     (let ids = map fst (qs_in_flight st) in
      if ids = [] then Some (st, False)
      else map_option (\<lambda>messages. fold (reconcile_in_flight_entry env (snapshot_by_id messages)) ids (st, False))
             (qe_get_by_client_msg_ids env ids))"

definition reconcile_awaiting_durable_terminal_states ::
  "'e queue_env \<Rightarrow> 'e QueueState \<Rightarrow> ('e QueueState \<times> bool) option" where
  "reconcile_awaiting_durable_terminal_states env st =
     (let ids = map fst (qs_awaiting_durable st) in
      if ids = [] then Some (st, False)
      else map_option (\<lambda>messages. fold (reconcile_awaiting_entry env (snapshot_by_id messages)) ids (st, False))
             (qe_get_by_client_msg_ids env ids))"

text \<open>An entry whose time is up: one more attempt, or the failure.\<close>

definition expire_attempt :: "'e queue_env \<Rightarrow> 'e PendingSendVo \<Rightarrow> 'e QueueState \<Rightarrow> 'e QueueState" where
  "expire_attempt env entry st =
     (let st = note_send_congestion st in
      case decide_timeout_expiry (retries_of st (pv_client_msg_id entry)) (qs_max_retries st) of
        Fail reason \<Rightarrow> fail_entry env entry reason st
      | Retry next_retry_count \<Rightarrow>
          dispatch_send_attempt env entry next_retry_count
            (set_retries (pv_client_msg_id entry) next_retry_count st))"

definition timeout_awaiting_entry :: "'e queue_env \<Rightarrow> string \<Rightarrow> 'e QueueState \<Rightarrow> 'e QueueState" where
  "timeout_awaiting_entry env i st =
     (case map_of (qs_awaiting_durable st) i of
        None \<Rightarrow> st
      | Some awaiting \<Rightarrow>
          let st = awaiting_remove i st in
          if \<not> is_deadline_elapsed env (ad_deadline_ms awaiting) then awaiting_insert awaiting st
          else expire_attempt env (ad_entry awaiting) st)"

definition check_awaiting_durable_timeout :: "'e queue_env \<Rightarrow> 'e QueueState \<Rightarrow> 'e QueueState" where
  "check_awaiting_durable_timeout env st =
     fold (timeout_awaiting_entry env) (map fst (qs_awaiting_durable st)) st"

definition timeout_in_flight_entry :: "'e queue_env \<Rightarrow> string \<Rightarrow> 'e QueueState \<Rightarrow> 'e QueueState" where
  "timeout_in_flight_entry env i st =
     (case map_of (qs_in_flight st) i of
        None \<Rightarrow> st
      | Some in_flight \<Rightarrow>
          let st = in_flight_remove i st in
          if is_deadline_elapsed env (if_deadline_ms in_flight) then expire_attempt env (if_entry in_flight) st
          else in_flight_insert in_flight st)"

definition check_timeout :: "'e queue_env \<Rightarrow> 'e QueueState \<Rightarrow> 'e QueueState" where
  "check_timeout env st =
     (case reconcile_in_flight_terminal_states env st of
        None \<Rightarrow> st
      | Some (st1, progressed) \<Rightarrow>
          if qs_paused_since_ms st = None \<and> progressed then try_send_next env st1
          else
            case reconcile_awaiting_durable_terminal_states env st1 of
              None \<Rightarrow> st1
            | Some (st2, progressed) \<Rightarrow>
                if qs_paused_since_ms st \<noteq> None then st2
                else if progressed then try_send_next env st2
                else
                  let st3 = check_awaiting_durable_timeout env st2
                  in try_send_next env (fold (timeout_in_flight_entry env) (map fst (qs_in_flight st3)) st3))"

subsection \<open>The probe of a stalled connection\<close>

definition unanswered :: "'e QueueState \<Rightarrow> u64 list" where
  "unanswered st = map (if_sent_at_ms \<circ> snd) (filter (\<lambda>(_, f). \<not> if_send_failed f) (qs_in_flight st))"

definition send_stall_probe_wait :: "'e queue_env \<Rightarrow> 'e QueueState \<Rightarrow> u64 option" where
  "send_stall_probe_wait env st =
     (if qs_paused_since_ms st \<noteq> None \<or> \<not> qs_link_probe st then None
      else map_option (\<lambda>due. sat_sub due (qe_now env)) (next_due_ms (qs_stall_probe_gate st) (unanswered st)))"

definition probe_link_if_send_stalled :: "'e queue_env \<Rightarrow> 'e QueueState \<Rightarrow> 'e QueueState" where
  "probe_link_if_send_stalled env st =
     (if qs_paused_since_ms st \<noteq> None \<or> \<not> qs_link_probe st then st
      else if \<not> should_probe (qs_stall_probe_gate st) (qe_now env) (unanswered st) then st
      else call RequestProbe (st\<lparr>qs_stall_probe_gate := record_probe (qe_now env) (qs_stall_probe_gate st)\<rparr>))"

subsection \<open>The queue as it runs\<close>

definition spawn :: "'e queue_env \<Rightarrow> queue_config \<Rightarrow> 'e PendingEntries \<Rightarrow> 'e QueueState" where
  "spawn env config store =
     (let limit = min (max (case qc_max_in_flight config of Some n \<Rightarrow> n | None \<Rightarrow> RELIABLE_QUEUE_MAX_IN_FLIGHT) 1) 1024
      in seed_enqueue_clock
          \<lparr>qs_pending = store,
           qs_timeout_ms = (case qc_timeout_secs config of Some s \<Rightarrow> s | None \<Rightarrow> RELIABLE_QUEUE_TIMEOUT_SECS) * 1000,
           qs_max_retries = (case qc_max_retries config of Some n \<Rightarrow> n | None \<Rightarrow> RELIABLE_QUEUE_MAX_RETRIES),
           qs_max_in_flight = limit, qs_window = AdaptiveInFlightWindow_new limit,
           qs_in_flight = [], qs_awaiting_durable = [], qs_retry_count = Map.empty, qs_retry_backoff = [],
           qs_link_probe = qc_link_probe config,
           qs_stall_probe_gate = \<lparr>pg_since_ms = 0, pg_last_probe_ms = None\<rparr>,
           qs_paused_since_ms = (if qc_start_paused config then Some (qe_now env) else None),
           qs_last_enqueued_at_ms = 0, qs_writer = [], qs_writer_full_warned_at_ms = 0,
           qs_dispatch_generation = 0, qs_calls = []\<rparr>)"

text \<open>
  One round of the writer task: the next job leaves the channel; a job of an older generation is
  skipped, any other goes to the connection, and its result comes back as the command
  \<open>SendAttemptFinished\<close>.
\<close>

definition run_writer :: "'e QueueState \<Rightarrow> ('e QueueState \<times> 'e SendJob option) option" where
  "run_writer st =
     (case qs_writer st of
        [] \<Rightarrow> None
      | job # jobs \<Rightarrow>
          Some (st\<lparr>qs_writer := jobs\<rparr>,
            if sj_generation job \<noteq> qs_dispatch_generation st then None else Some job))"

inductive queue_step :: "'e QueueState \<Rightarrow> 'e QueueState \<Rightarrow> bool" where
  step_command: "queue_step st (fst (handle_command env cmd st))"
| step_tick: "queue_step st (probe_link_if_send_stalled env (check_timeout env st))"
| step_probe: "queue_step st (probe_link_if_send_stalled env st)"
| step_write: "run_writer st = Some (st', job) \<Longrightarrow> queue_step st st'"
| step_rehash: "mset in_flight = mset (qs_in_flight st) \<Longrightarrow> mset awaiting = mset (qs_awaiting_durable st) \<Longrightarrow>
    mset backoff = mset (qs_retry_backoff st) \<Longrightarrow>
    queue_step st (st\<lparr>qs_in_flight := in_flight, qs_awaiting_durable := awaiting, qs_retry_backoff := backoff\<rparr>)"

inductive queue_reachable :: "queue_config \<Rightarrow> 'e PendingEntries \<Rightarrow> 'e QueueState \<Rightarrow> bool"
  for config :: queue_config and store :: "'e PendingEntries" where
  reach_spawn: "queue_reachable config store (spawn env config store)"
| reach_step: "queue_reachable config store st \<Longrightarrow> queue_step st st' \<Longrightarrow> queue_reachable config store st'"

inductive_cases queue_step_cases: "queue_step st st'"

end
