(* ===== verification/Send_Queue_Inv.thy ===== *)
theory Send_Queue_Inv
  imports Send_Queue
begin

text \<open>
  The invariant of the send queue: an id is in at most one of the tables \<open>in_flight\<close>,
  \<open>awaiting_durable\<close> and \<open>retry_backoff\<close>, each table holds it under its own id, a held id is still in
  the outbox (unless a recovery disowned it), no retry count passes the budget, the window stays
  between one and the configured limit, and the enqueue clock is not behind any entry.  Every
  handler preserves it, so every reachable state has it.
\<close>

section \<open>The invariant\<close>

text \<open>Ids that a recovery reported as belonging to another account.\<close>

definition disowned :: "'e QueueState \<Rightarrow> string set" where
  "disowned st = {i. \<exists>failure. PublishSendFailed i REASON_PENDING_ANOTHER_ACCOUNT failure \<in> set (qs_calls st)}"

definition tables_ok :: "'e QueueState \<Rightarrow> bool" where
  "tables_ok st \<longleftrightarrow> distinct (excluded_ids st) \<and>
     (\<forall>(k, f)\<in>set (qs_in_flight st). pv_client_msg_id (if_entry f) = k) \<and>
     (\<forall>(k, a)\<in>set (qs_awaiting_durable st). pv_client_msg_id (ad_entry a) = k)"

definition held_ok :: "'e QueueState \<Rightarrow> bool" where
  "held_ok st \<longleftrightarrow> set (excluded_ids st) \<subseteq> pending_ids (qs_pending st) \<union> disowned st"

definition retries_ok :: "'e QueueState \<Rightarrow> bool" where
  "retries_ok st \<longleftrightarrow> (\<forall>i r. qs_retry_count st i = Some r \<longrightarrow> r \<le> qs_max_retries st)"

definition window_in_range :: "'e QueueState \<Rightarrow> bool" where
  "window_in_range st \<longleftrightarrow> 1 \<le> aw_current (qs_window st) \<and> aw_current (qs_window st) \<le> aw_max (qs_window st) \<and>
     aw_max (qs_window st) = qs_max_in_flight st \<and> qs_max_in_flight st \<le> 1024"

definition clock_ok :: "'e QueueState \<Rightarrow> bool" where
  "clock_ok st \<longleftrightarrow> (\<forall>entry\<in>set (pending_list (qs_pending st)). pv_enqueued_at_ms entry \<le> qs_last_enqueued_at_ms st)"

definition queue_inv :: "'e QueueState \<Rightarrow> bool" where
  "queue_inv st \<longleftrightarrow> pending_ok (qs_pending st) \<and> tables_ok st \<and> held_ok st \<and> retries_ok st \<and> window_in_range st \<and> clock_ok st"

lemmas inv_defs = queue_inv_def tables_ok_def held_ok_def retries_ok_def window_in_range_def clock_ok_def

lemmas step_defs = call_def set_retries_def drop_pending_def in_flight_insert_def in_flight_remove_def
  awaiting_insert_def awaiting_remove_def backoff_remove_def note_send_success_def note_send_congestion_def
  note_writer_full_def bump_dispatch_generation_def

lemma set_pending_list: "set (pending_list st) = snd ` set (pe_by_id st)"
  by (simp add: pending_list_def)

lemma distinct_excluded:
  "distinct (excluded_ids st) \<longleftrightarrow> distinct (map fst (qs_in_flight st)) \<and> distinct (map fst (qs_awaiting_durable st)) \<and>
     distinct (map fst (qs_retry_backoff st)) \<and>
     fst ` set (qs_in_flight st) \<inter> fst ` set (qs_awaiting_durable st) = {} \<and>
     fst ` set (qs_in_flight st) \<inter> fst ` set (qs_retry_backoff st) = {} \<and>
     fst ` set (qs_awaiting_durable st) \<inter> fst ` set (qs_retry_backoff st) = {}"
  by (auto simp: excluded_ids_def)

lemma in_set_delete: "x \<in> set (AList.delete k xs) \<longleftrightarrow> x \<in> set xs \<and> fst x \<noteq> k"
  by (auto simp: AList.delete_eq)

lemma in_set_updateD: "x \<in> set (AList.update k v xs) \<Longrightarrow> x = (k, v) \<or> x \<in> set xs"
  by (induction xs) (auto split: if_splits)

lemma window_in_range_note_success: "window_in_range st \<Longrightarrow> window_in_range (note_send_success st)"
  by (auto simp: window_in_range_def note_send_success_def note_success_def Let_def)

lemma window_in_range_note_congestion: "window_in_range st \<Longrightarrow> window_in_range (note_send_congestion st)"
  by (auto simp: window_in_range_def note_send_congestion_def note_congestion_def ADAPTIVE_MIN_IN_FLIGHT_def)

lemma disowned_simps [simp]:
  "disowned st \<subseteq> disowned (call c st)"
  by (auto simp: disowned_def call_def)

text \<open>A change of the fields the invariant does not read, or to more reports.\<close>

lemma queue_inv_cong:
  assumes "queue_inv st" "qs_pending st' = qs_pending st" "excluded_ids st' = excluded_ids st"
    "qs_in_flight st' = qs_in_flight st" "qs_awaiting_durable st' = qs_awaiting_durable st"
    "disowned st \<subseteq> disowned st'" "qs_retry_count st' = qs_retry_count st" "qs_max_retries st' = qs_max_retries st"
    "window_in_range st \<Longrightarrow> window_in_range st'" "qs_last_enqueued_at_ms st \<le> qs_last_enqueued_at_ms st'"
  shows "queue_inv st'"
  using assms unfolding queue_inv_def tables_ok_def held_ok_def retries_ok_def clock_ok_def
  by (auto intro: order_trans)

lemma pending_list_pop: "entry \<in> set (pending_list (pending_pop i st)) \<Longrightarrow> entry \<in> set (pending_list st)"
  by (auto simp: set_pending_list pending_pop_def)

lemma inv_call: "queue_inv st \<Longrightarrow> queue_inv (call c st)"
  by (erule queue_inv_cong) (simp_all add: call_def excluded_ids_def window_in_range_def, auto simp: disowned_def)

lemma inv_note_send_success:
  assumes "queue_inv st"
  shows "queue_inv (note_send_success st)"
proof (rule queue_inv_cong [OF assms])
  show "window_in_range (note_send_success st)"
    if "window_in_range st" using that by (rule window_in_range_note_success)
qed (simp_all add: note_send_success_def excluded_ids_def disowned_def)

lemma inv_note_send_congestion:
  assumes "queue_inv st"
  shows "queue_inv (note_send_congestion st)"
proof (rule queue_inv_cong [OF assms])
  show "window_in_range (note_send_congestion st)"
    if "window_in_range st" using that by (rule window_in_range_note_congestion)
qed (simp_all add: note_send_congestion_def excluded_ids_def disowned_def)

lemma inv_note_writer_full: "queue_inv st \<Longrightarrow> queue_inv (note_writer_full env st)"
  by (erule queue_inv_cong) (simp_all add: note_writer_full_def excluded_ids_def disowned_def window_in_range_def)

lemma inv_drop_pending:
  assumes inv: "queue_inv st" and i: "i \<notin> set (excluded_ids st) - disowned st"
  shows "queue_inv (drop_pending i st)"
proof -
  let ?st = "drop_pending i st"
  have same: "excluded_ids ?st = excluded_ids st" "disowned ?st = disowned st" "qs_in_flight ?st = qs_in_flight st"
      "qs_awaiting_durable ?st = qs_awaiting_durable st" "qs_pending ?st = pending_pop i (qs_pending st)"
      "qs_last_enqueued_at_ms ?st = qs_last_enqueued_at_ms st" "qs_window ?st = qs_window st"
      "qs_max_in_flight ?st = qs_max_in_flight st" "qs_max_retries ?st = qs_max_retries st"
    by (simp_all add: drop_pending_def excluded_ids_def disowned_def)
  have "held_ok ?st" using inv i by (auto simp: held_ok_def queue_inv_def same)
  moreover have "retries_ok ?st" using inv by (simp add: retries_ok_def queue_inv_def drop_pending_def)
  moreover have "clock_ok ?st" using inv by (auto simp: clock_ok_def queue_inv_def same dest: pending_list_pop)
  ultimately show ?thesis
    using inv by (simp add: queue_inv_def tables_ok_def window_in_range_def same pending_ok_pop)
qed

lemma inv_in_flight_remove:
  assumes "queue_inv st"
  shows "queue_inv (in_flight_remove i st)"
proof -
  have "tables_ok (in_flight_remove i st)" "held_ok (in_flight_remove i st)"
    using assms unfolding queue_inv_def tables_ok_def held_ok_def distinct_excluded set_excluded_ids
    by (auto simp: in_flight_remove_def distinct_delete in_set_delete disowned_def)
  then show ?thesis
    using assms by (simp add: queue_inv_def retries_ok_def window_in_range_def clock_ok_def in_flight_remove_def)
qed

lemma inv_awaiting_remove:
  assumes "queue_inv st"
  shows "queue_inv (awaiting_remove i st)"
proof -
  have "tables_ok (awaiting_remove i st)" "held_ok (awaiting_remove i st)"
    using assms unfolding queue_inv_def tables_ok_def held_ok_def distinct_excluded set_excluded_ids
    by (auto simp: awaiting_remove_def distinct_delete in_set_delete disowned_def)
  then show ?thesis
    using assms by (simp add: queue_inv_def retries_ok_def window_in_range_def clock_ok_def awaiting_remove_def)
qed

lemma inv_backoff_remove:
  assumes "queue_inv st"
  shows "queue_inv (backoff_remove i st)"
proof -
  have "tables_ok (backoff_remove i st)" "held_ok (backoff_remove i st)"
    using assms unfolding queue_inv_def tables_ok_def held_ok_def distinct_excluded set_excluded_ids
    by (auto simp: backoff_remove_def distinct_delete in_set_delete disowned_def)
  then show ?thesis
    using assms by (simp add: queue_inv_def retries_ok_def window_in_range_def clock_ok_def backoff_remove_def)
qed

lemma inv_in_flight_insert:
  assumes "queue_inv st" "pv_client_msg_id (if_entry f) \<notin> set (excluded_ids st)"
    and "pv_client_msg_id (if_entry f) \<in> pending_ids (qs_pending st) \<union> disowned st"
  shows "queue_inv (in_flight_insert f st)"
  using assms unfolding inv_defs distinct_excluded
  by (auto simp: in_flight_insert_def set_excluded_ids distinct_update disowned_def dest!: in_set_updateD)

lemma inv_awaiting_insert:
  assumes "queue_inv st" "pv_client_msg_id (ad_entry a) \<notin> set (excluded_ids st)"
    and "pv_client_msg_id (ad_entry a) \<in> pending_ids (qs_pending st) \<union> disowned st"
  shows "queue_inv (awaiting_insert a st)"
  using assms unfolding inv_defs distinct_excluded
  by (auto simp: awaiting_insert_def set_excluded_ids distinct_update disowned_def dest!: in_set_updateD)

lemma inv_set_retries: "queue_inv st \<Longrightarrow> r \<le> qs_max_retries st \<Longrightarrow> queue_inv (set_retries i r st)"
  by (simp add: inv_defs set_retries_def excluded_ids_def disowned_def)

text \<open>An id that the actor has just taken out of its table, or that waits in none of them.\<close>

definition holdable :: "'e QueueState \<Rightarrow> string \<Rightarrow> bool" where
  "holdable st i \<longleftrightarrow> queue_inv st \<and> i \<notin> set (excluded_ids st) \<and> i \<in> pending_ids (qs_pending st) \<union> disowned st"

lemma excluded_ids_simps [simp]:
  "excluded_ids (call c st) = excluded_ids st"
  "excluded_ids (set_retries i r st) = excluded_ids st"
  "excluded_ids (drop_pending i st) = excluded_ids st"
  "excluded_ids (note_send_success st) = excluded_ids st"
  "excluded_ids (note_send_congestion st) = excluded_ids st"
  "excluded_ids (note_writer_full env st) = excluded_ids st"
  by (simp_all add: step_defs excluded_ids_def)

lemma disowned_step_simps [simp]:
  "disowned (set_retries i r st) = disowned st"
  "disowned (drop_pending j st) = disowned st"
  "disowned (note_send_success st) = disowned st"
  "disowned (note_send_congestion st) = disowned st"
  "disowned (in_flight_remove i st) = disowned st"
  "disowned (awaiting_remove i st) = disowned st"
  "disowned (backoff_remove i st) = disowned st"
  by (simp_all add: step_defs disowned_def)

lemma pending_step_simps [simp]:
  "qs_pending (call c st) = qs_pending st"
  "qs_pending (set_retries i r st) = qs_pending st"
  "qs_pending (note_send_success st) = qs_pending st"
  "qs_pending (note_send_congestion st) = qs_pending st"
  "qs_pending (note_writer_full env st) = qs_pending st"
  "qs_pending (in_flight_remove i st) = qs_pending st"
  "qs_pending (in_flight_insert f st) = qs_pending st"
  "qs_pending (awaiting_remove i st) = qs_pending st"
  "qs_pending (awaiting_insert a st) = qs_pending st"
  "qs_pending (backoff_remove i st) = qs_pending st"
  "qs_pending (drop_pending i st) = pending_pop i (qs_pending st)"
  by (simp_all add: step_defs)

lemma holdable_call: "holdable st i \<Longrightarrow> holdable (call c st) i"
  unfolding holdable_def using subsetD [OF disowned_simps, of i st c] by (auto intro: inv_call)

lemma holdable_inv: "holdable st i \<Longrightarrow> queue_inv st"
  by (simp add: holdable_def)

lemma holdable_window:
  "holdable st i \<Longrightarrow> holdable (note_send_success st) i"
  "holdable st i \<Longrightarrow> holdable (note_send_congestion st) i"
  by (simp_all add: holdable_def inv_note_send_success inv_note_send_congestion)

lemma holdable_set_retries: "holdable st i \<Longrightarrow> r \<le> qs_max_retries st \<Longrightarrow> holdable (set_retries j r st) i"
  by (simp add: holdable_def inv_set_retries)

lemma inv_disjoint:
  assumes "queue_inv st"
  shows "fst ` set (qs_in_flight st) \<inter> fst ` set (qs_awaiting_durable st) = {}"
    "fst ` set (qs_in_flight st) \<inter> fst ` set (qs_retry_backoff st) = {}"
    "fst ` set (qs_awaiting_durable st) \<inter> fst ` set (qs_retry_backoff st) = {}"
  using assms by (simp_all only: queue_inv_def tables_ok_def distinct_excluded)

lemma inv_held: "queue_inv st \<Longrightarrow> i \<in> set (excluded_ids st) \<Longrightarrow> i \<in> pending_ids (qs_pending st) \<union> disowned st"
  by (simp only: queue_inv_def held_ok_def subset_iff) 

lemma holdable_in_flight:
  assumes "queue_inv st" "map_of (qs_in_flight st) i = Some f"
  shows "holdable (in_flight_remove i st) i" "pv_client_msg_id (if_entry f) = i"
proof -
  from assms(2) have f: "(i, f) \<in> set (qs_in_flight st)" by (rule map_of_SomeD)
  then show "pv_client_msg_id (if_entry f) = i"
    using assms(1) unfolding queue_inv_def tables_ok_def by blast
  have i: "i \<in> fst ` set (qs_in_flight st)" using f by (rule rev_image_eqI) simp
  have "i \<notin> fst ` set (qs_awaiting_durable st)" "i \<notin> fst ` set (qs_retry_backoff st)"
    using i inv_disjoint(1,2) [OF assms(1)] by blast+
  moreover have "i \<in> pending_ids (qs_pending st) \<union> disowned st"
    using i by (intro inv_held [OF assms(1)]) (simp add: set_excluded_ids)
  ultimately show "holdable (in_flight_remove i st) i"
    using inv_in_flight_remove [OF assms(1), of i]
    by (simp add: holdable_def set_excluded_ids) (simp add: in_flight_remove_def)
qed

lemma holdable_awaiting:
  assumes "queue_inv st" "map_of (qs_awaiting_durable st) i = Some f"
  shows "holdable (awaiting_remove i st) i" "pv_client_msg_id (ad_entry f) = i"
proof -
  from assms(2) have f: "(i, f) \<in> set (qs_awaiting_durable st)" by (rule map_of_SomeD)
  then show "pv_client_msg_id (ad_entry f) = i"
    using assms(1) unfolding queue_inv_def tables_ok_def by blast
  have i: "i \<in> fst ` set (qs_awaiting_durable st)" using f by (rule rev_image_eqI) simp
  have "i \<notin> fst ` set (qs_in_flight st)" "i \<notin> fst ` set (qs_retry_backoff st)"
    using i inv_disjoint(1,3) [OF assms(1)] by blast+
  moreover have "i \<in> pending_ids (qs_pending st) \<union> disowned st"
    using i by (intro inv_held [OF assms(1)]) (simp add: set_excluded_ids)
  ultimately show "holdable (awaiting_remove i st) i"
    using inv_awaiting_remove [OF assms(1), of i]
    by (simp add: holdable_def set_excluded_ids) (simp add: awaiting_remove_def)
qed

lemma holdable_pending:
  assumes "queue_inv st" "map_of (qs_in_flight st) i = None" "map_of (qs_awaiting_durable st) i = None"
    and "pending_get (qs_pending st) i = Some entry"
  shows "holdable (backoff_remove i st) i" "pv_client_msg_id entry = i"
proof -
  have entry: "entry \<in> set (pending_list (qs_pending st))" "pv_client_msg_id entry = i"
    using assms(1,4) memory.get_list by (auto simp: queue_inv_def)
  then show "pv_client_msg_id entry = i" by simp
  have "i \<in> pending_ids (qs_pending st)" using entry by (auto simp: pending_ids_def set_pending_list)
  then show "holdable (backoff_remove i st) i"
    using inv_backoff_remove [OF assms(1)] assms(2,3)
    by (simp add: holdable_def set_excluded_ids map_of_eq_None_iff, simp add: backoff_remove_def)
qed

lemma holdable_dispatchable: "queue_inv st \<Longrightarrow> i \<in> dispatchable st \<Longrightarrow> holdable st i"
  by (simp add: holdable_def dispatchable_def)

lemma inv_hold:
  "holdable st (pv_client_msg_id (if_entry f)) \<Longrightarrow> queue_inv (in_flight_insert f st)"
  "holdable st (pv_client_msg_id (ad_entry a)) \<Longrightarrow> queue_inv (awaiting_insert a st)"
  by (simp_all add: holdable_def inv_in_flight_insert inv_awaiting_insert)

lemma inv_drop: "holdable st i \<Longrightarrow> queue_inv (drop_pending i st)"
  by (simp add: holdable_def inv_drop_pending)

lemma inv_publish_send_failed: "queue_inv st \<Longrightarrow> queue_inv (publish_send_failed env i reason st)"
  by (simp add: publish_send_failed_def inv_call)

lemma inv_fail_entry: "holdable st (pv_client_msg_id entry) \<Longrightarrow> queue_inv (fail_entry env entry reason st)"
  by (simp add: fail_entry_def inv_publish_send_failed inv_call inv_drop)

lemma inv_mark_send_failed:
  "holdable st (pv_client_msg_id entry) \<Longrightarrow> queue_inv (fst (mark_send_failed_and_publish env entry reason st))"
  by (simp add: mark_send_failed_and_publish_def Let_def inv_publish_send_failed inv_call inv_drop)

lemma inv_writer: "queue_inv st \<Longrightarrow> queue_inv (st\<lparr>qs_writer := jobs\<rparr>)"
  by (erule queue_inv_cong) (simp_all add: excluded_ids_def window_in_range_def disowned_def)

lemma inv_dispatch_send_attempt:
  "holdable st (pv_client_msg_id entry) \<Longrightarrow> queue_inv (dispatch_send_attempt env entry retries st)"
  by (simp add: dispatch_send_attempt_def Let_def inv_note_writer_full inv_writer inv_hold)

lemma inv_dispatch_one:
  "holdable st (pv_client_msg_id entry) \<Longrightarrow> queue_inv (dispatch_one env local entry st)"
  by (simp add: dispatch_one_def Let_def inv_fail_entry inv_drop inv_dispatch_send_attempt
      split: PendingDispatchDecision.split)

lemma inv_dispatch_entries:
  "dispatch_entries env local entries made_progress st = (st', returned, progress) \<Longrightarrow> queue_inv st \<Longrightarrow>
   distinct (map pv_client_msg_id entries) \<Longrightarrow> pv_client_msg_id ` set entries \<subseteq> dispatchable st \<Longrightarrow> queue_inv st'"
proof (induction entries arbitrary: made_progress st)
  case (Cons entry entries)
  from Cons.prems(1) show ?case
  proof (cases rule: dispatch_entries_ConsE)
    case next_entry
    have "queue_inv (dispatch_one env local entry st)"
      using Cons.prems(2,4) by (intro inv_dispatch_one holdable_dispatchable) simp_all
    moreover have "pv_client_msg_id ` set entries \<subseteq> dispatchable st - {pv_client_msg_id entry}"
      using Cons.prems(3,4) by (simp add: subset_Diff_insert)
    ultimately show ?thesis using Cons.prems(3) by (intro Cons.IH [OF next_entry(1)]) simp_all
  qed (use Cons.prems(2) in \<open>simp_all add: inv_note_writer_full\<close>)
qed simp

lemma pick_entries_distinct:
  assumes "queue_inv st"
  shows "distinct (map pv_client_msg_id (pick_entries st))"
proof -
  have "distinct (map pv_client_msg_id (pending_list (qs_pending st)))"
    using assms by (intro memory.list_distinct) (simp add: queue_inv_def)
  then show ?thesis
    by (simp add: pick_entries_def memory.oldest_list distinct_map_filter distinct_take flip: take_map)
qed

lemma inv_try_send_loop: "queue_inv st \<Longrightarrow> queue_inv (try_send_loop env st)"
proof (induction env st rule: try_send_loop.induct)
  case (1 env st)
  obtain st' returned progress where
    eq: "dispatch_entries env (dispatch_snapshots env (pick_entries st)) (pick_entries st) False st =
      (st', returned, progress)" by (metis prod_cases3)
  have "queue_inv st'"
    using eq 1(2) pick_entries_distinct [OF 1(2)] by (rule inv_dispatch_entries) (auto dest: pick_entries_dispatchable)
  then show ?case
    using 1 by (subst try_send_loop.simps) (simp add: eq)
qed

lemma inv_try_send_next: "queue_inv st \<Longrightarrow> queue_inv (try_send_next env st)"
  by (simp add: try_send_next_def inv_try_send_loop)

subsection \<open>The other handlers\<close>

lemma retry_bound:
  "decide_timeout_expiry r n = Retry r' \<Longrightarrow> r' \<le> n"
  "decide_send_attempt_failure r n = Retry r' \<Longrightarrow> r' \<le> n"
  "decide_retryable_ack_error r n = Retry r' \<Longrightarrow> r' \<le> n"
  using decide_failure_Retry [of AfTimeout r n r'] decide_failure_Retry [of AfSend r n r']
    decide_failure_Retry [of AfRejected r n r']
  by (simp_all add: word_le_nat_alt)

lemma max_retries_simps [simp]:
  "qs_max_retries (note_send_congestion st) = qs_max_retries st"
  "qs_max_retries (note_send_success st) = qs_max_retries st"
  "qs_max_retries (drop_pending i st) = qs_max_retries st"
  "qs_max_retries (call c st) = qs_max_retries st"
  "qs_max_retries (in_flight_remove i st) = qs_max_retries st"
  "qs_max_retries (awaiting_remove i st) = qs_max_retries st"
  by (simp_all add: step_defs)

lemma inv_expire_attempt:
  assumes "holdable st (pv_client_msg_id entry)"
  shows "queue_inv (expire_attempt env entry st)"
  using holdable_window(2) [OF assms]
  by (auto simp: expire_attempt_def Let_def intro!: inv_fail_entry inv_dispatch_send_attempt holdable_set_retries
      split: RetryDecision.split dest: retry_bound(1))

lemma inv_update_last_message: "queue_inv st \<Longrightarrow> queue_inv (update_conversation_last_message env m st)"
  by (simp add: update_conversation_last_message_def Let_def inv_call)

lemma inv_backoff_insert:
  assumes "holdable st i"
  shows "queue_inv (st\<lparr>qs_retry_backoff := AList.update i r (qs_retry_backoff st)\<rparr>)" (is "queue_inv ?st")
proof -
  have "tables_ok ?st" "held_ok ?st"
    using assms unfolding holdable_def queue_inv_def tables_ok_def held_ok_def distinct_excluded set_excluded_ids
    by (simp_all add: distinct_update disowned_def)
  then show ?thesis
    using assms by (simp add: holdable_def queue_inv_def retries_ok_def window_in_range_def clock_ok_def)
qed

lemma inv_schedule_retry:
  assumes "holdable st (pv_client_msg_id entry)" "r \<le> qs_max_retries st"
  shows "queue_inv (schedule_retry_after_backoff entry r st)"
  unfolding schedule_retry_after_backoff_def Let_def
  using assms by (intro inv_call inv_backoff_insert holdable_set_retries holdable_window(2)) simp_all

lemma inv_fail_from_ack: "holdable st (ak_client_msg_id ack) \<Longrightarrow> queue_inv (fail_from_ack env entry ack st)"
  by (simp add: fail_from_ack_def Let_def inv_call inv_drop)

lemma apply_ack_holds:
  assumes h: "holdable st (ak_client_msg_id ack)" and entry: "pv_client_msg_id entry = ak_client_msg_id ack"
    and eq: "apply_ack_and_publish env entry ack st = (st', result)"
  shows "queue_inv st'" "result = AckAwaitDurable \<Longrightarrow> holdable st' (ak_client_msg_id ack)" "result \<noteq> AckKeepInFlight"
  using eq h holdable_window(1) [OF h] holdable_inv [OF h]
  by (auto simp: apply_ack_and_publish_def Let_def entry
      intro!: inv_call inv_update_last_message inv_note_send_success inv_drop holdable_call inv_fail_from_ack
        inv_schedule_retry
      split: if_split_asm RetryDecision.split_asm dest: retry_bound(3))

lemma inv_orphan_ack: "queue_inv st \<Longrightarrow> queue_inv (apply_orphan_durable_ack env ack st)"
  by (simp add: apply_orphan_durable_ack_def Let_def inv_call inv_update_last_message split: option.split)

lemma inv_ack_received:
  assumes "queue_inv st"
  shows "queue_inv (ack_received env ack st)"
proof (cases "map_of (qs_in_flight st) (ak_client_msg_id ack)")
  case (Some f)
  note h = holdable_in_flight [OF assms Some]
  obtain st' result where eq: "apply_ack_and_publish env (if_entry f) ack (in_flight_remove (ak_client_msg_id ack) st) =
      (st', result)" by fastforce
  show ?thesis
    using apply_ack_holds [OF h eq] h(2)
    by (cases result) (simp_all add: ack_received_def Some eq Let_def inv_hold)
next
  case in_flight: None
  show ?thesis
  proof (cases "map_of (qs_awaiting_durable st) (ak_client_msg_id ack)")
    case (Some a)
    note h = holdable_awaiting [OF assms Some]
    obtain st' result where eq: "apply_ack_and_publish env (ad_entry a) ack (awaiting_remove (ak_client_msg_id ack) st) =
        (st', result)" by fastforce
    show ?thesis
      using apply_ack_holds [OF h eq] h(2)
      by (cases result) (simp_all add: ack_received_def in_flight Some eq Let_def inv_hold)
  next
    case awaiting: None
    show ?thesis
    proof (cases "pending_get (qs_pending st) (ak_client_msg_id ack)")
      case (Some entry)
      note h = holdable_pending [OF assms in_flight awaiting Some]
      obtain st' result where eq: "apply_ack_and_publish env entry ack (backoff_remove (ak_client_msg_id ack) st) =
          (st', result)" by fastforce
      show ?thesis
        using apply_ack_holds [OF h eq] h(2)
        by (cases result) (simp_all add: ack_received_def in_flight awaiting Some eq Let_def inv_hold)
    next
      case None
      then show ?thesis
        using assms by (simp add: ack_received_def in_flight awaiting Let_def inv_call inv_orphan_ack)
    qed
  qed
qed

lemma inv_push:
  assumes "queue_inv st" "pv_enqueued_at_ms entry \<le> qs_last_enqueued_at_ms st"
  shows "queue_inv (st\<lparr>qs_pending := pending_push entry (qs_pending st)\<rparr>)"
proof -
  have "set (pending_list (pending_push entry (qs_pending st))) \<subseteq> insert entry (set (pending_list (qs_pending st)))"
    by (auto simp: set_pending_list pending_push_def)
  then show ?thesis
    using assms pending_ok_push [of "qs_pending st" entry]
    by (auto simp: queue_inv_def tables_ok_def held_ok_def retries_ok_def window_in_range_def clock_ok_def excluded_ids_def
        disowned_def)
qed

lemma next_enqueue_ge: "qs_last_enqueued_at_ms st \<le> max now (sat_add (qs_last_enqueued_at_ms st) 1)"
  by (simp add: le_max_iff_disj le_sat_add_one)

lemma last_enqueued_call [simp]: "qs_last_enqueued_at_ms (call c st) = qs_last_enqueued_at_ms st"
  by (simp add: call_def)

lemma inv_last_enqueued: "queue_inv st \<Longrightarrow> qs_last_enqueued_at_ms st \<le> t \<Longrightarrow> queue_inv (st\<lparr>qs_last_enqueued_at_ms := t\<rparr>)"
  by (erule queue_inv_cong) (simp_all add: excluded_ids_def window_in_range_def disowned_def)

lemma inv_enqueue:
  assumes "queue_inv st"
  shows "queue_inv (fst (enqueue env msg st))"
proof -
  define at where "at = max (qe_now env) (sat_add (qs_last_enqueued_at_ms st) 1)"
  define st1 where "st1 = call (SaveBatch (optimistic_message at msg)) (st\<lparr>qs_last_enqueued_at_ms := at\<rparr>)"
  define entry where "entry = \<lparr>pv_client_msg_id = im_client_msg_id msg, pv_conversation_id = im_conversation_id msg,
              pv_message = msg, pv_enqueued_at_ms = at\<rparr>"
  have st1: "queue_inv st1"
    unfolding st1_def at_def using assms by (intro inv_call inv_last_enqueued next_enqueue_ge)
  have "queue_inv (st1\<lparr>qs_pending := pending_push entry (qs_pending st1)\<rparr>)"
    by (rule inv_push [OF st1]) (simp add: st1_def entry_def)
  then show ?thesis
    using st1 unfolding enqueue_def next_enqueue_ms_def Let_def prod.case
    by (simp only: fst_conv if_distrib split: if_split flip: at_def st1_def entry_def)
       (simp add: inv_call inv_try_send_next inv_update_last_message)
qed

lemma inv_send_attempt_finished:
  assumes "queue_inv st"
  shows "queue_inv (handle_send_attempt_finished env sent retries ok st)"
proof (cases "map_of (qs_in_flight st) (pv_client_msg_id sent)")
  case (Some f)
  note h = holdable_in_flight [OF assms Some]
  show ?thesis
    using assms h holdable_window(2) [OF h(1)]
    by (auto simp: handle_send_attempt_finished_def Let_def Some
        intro!: inv_hold inv_try_send_next inv_fail_entry holdable_set_retries
        split: RetryDecision.split dest: retry_bound(2))
qed (simp add: handle_send_attempt_finished_def Let_def assms)

subsection \<open>Login, resume and expiry\<close>

lemma fold_preserves: "(\<And>x s. P s \<Longrightarrow> P (f x s)) \<Longrightarrow> P s \<Longrightarrow> P (fold f xs s)"
  by (induction xs arbitrary: s) simp_all

lemma excluded_publish [simp]: "excluded_ids (publish_send_failed env i reason st) = excluded_ids st"
  by (simp add: publish_send_failed_def)

lemma mark_send_failed_tables [simp]:
  "qs_in_flight (fst (mark_send_failed_and_publish env entry reason st)) = qs_in_flight st"
  "qs_awaiting_durable (fst (mark_send_failed_and_publish env entry reason st)) = qs_awaiting_durable st"
  "qs_retry_backoff (fst (mark_send_failed_and_publish env entry reason st)) = qs_retry_backoff st"
  by (simp_all add: mark_send_failed_and_publish_def publish_send_failed_def step_defs Let_def)

lemma mark_all_failed_tables [simp]:
  "qs_in_flight (fst (mark_all_failed env reason entries st)) = qs_in_flight st"
  "qs_awaiting_durable (fst (mark_all_failed env reason entries st)) = qs_awaiting_durable st"
  "qs_retry_backoff (fst (mark_all_failed env reason entries st)) = qs_retry_backoff st"
  by (induction entries arbitrary: st)
     (simp_all add: case_prod_unfold)

lemma inv_mark_failed:
  "queue_inv st \<Longrightarrow> pv_client_msg_id entry \<notin> set (excluded_ids st) \<Longrightarrow>
   queue_inv (fst (mark_send_failed_and_publish env entry reason st))"
  by (simp add: mark_send_failed_and_publish_def Let_def inv_publish_send_failed inv_call inv_drop_pending)

lemma mark_all_failed_inv:
  "queue_inv st \<Longrightarrow> pv_client_msg_id ` set entries \<inter> set (excluded_ids st) = {} \<Longrightarrow>
   queue_inv (fst (mark_all_failed env reason entries st))"
proof (induction entries arbitrary: st)
  case (Cons entry entries)
  let ?st = "fst (mark_send_failed_and_publish env entry reason st)"
  have "excluded_ids ?st = excluded_ids st" by (simp add: excluded_ids_def)
  moreover have "queue_inv ?st" using Cons.prems by (intro inv_mark_failed) simp_all
  ultimately show ?case using Cons.IH [of ?st] Cons.prems by (simp add: case_prod_unfold)
qed simp

lemma inv_subtables:
  assumes "queue_inv st" "distinct (excluded_ids st')" "set (excluded_ids st') \<subseteq> set (excluded_ids st)"
    "set (qs_in_flight st') \<subseteq> set (qs_in_flight st)" "set (qs_awaiting_durable st') \<subseteq> set (qs_awaiting_durable st)"
    "qs_pending st' = qs_pending st" "disowned st' = disowned st" "qs_retry_count st' = qs_retry_count st"
    "qs_max_retries st' = qs_max_retries st" "qs_window st' = qs_window st" "qs_max_in_flight st' = qs_max_in_flight st"
    "qs_last_enqueued_at_ms st' = qs_last_enqueued_at_ms st"
  shows "queue_inv st'"
proof -
  have "tables_ok st'" using assms(1,2,4,5) unfolding queue_inv_def tables_ok_def by blast
  moreover have "held_ok st'" using assms(1,3,6,7) unfolding queue_inv_def held_ok_def by auto
  ultimately show ?thesis using assms by (simp add: queue_inv_def retries_ok_def window_in_range_def clock_ok_def)
qed

lemma inv_distinct: "queue_inv st \<Longrightarrow> distinct (excluded_ids st)"
  by (simp add: queue_inv_def tables_ok_def)

lemma inv_clear_in_flight:
  assumes "queue_inv st"
  shows "queue_inv (st\<lparr>qs_in_flight := []\<rparr>)" "queue_inv (st\<lparr>qs_retry_backoff := []\<rparr>)"
    "queue_inv (st\<lparr>qs_awaiting_durable := []\<rparr>)" "queue_inv (bump_dispatch_generation st)"
  by (rule inv_subtables [OF assms], use inv_distinct [OF assms] in \<open>auto simp: excluded_ids_def disowned_def
      bump_dispatch_generation_def\<close>)+

lemma in_flight_entry_ids:
  assumes "queue_inv st"
  shows "pv_client_msg_id ` set (map (if_entry \<circ> snd) (qs_in_flight st)) = fst ` set (qs_in_flight st)"
    "pv_client_msg_id ` set (map (ad_entry \<circ> snd) (qs_awaiting_durable st)) = fst ` set (qs_awaiting_durable st)"
proof -
  have "pv_client_msg_id (if_entry (snd x)) = fst x" if "x \<in> set (qs_in_flight st)" for x
    using assms that by (cases x) (auto simp: queue_inv_def tables_ok_def)
  then show "pv_client_msg_id ` set (map (if_entry \<circ> snd) (qs_in_flight st)) = fst ` set (qs_in_flight st)"
    by (simp add: image_image cong: image_cong)
  have "pv_client_msg_id (ad_entry (snd x)) = fst x" if "x \<in> set (qs_awaiting_durable st)" for x
    using assms that by (cases x) (auto simp: queue_inv_def tables_ok_def)
  then show "pv_client_msg_id ` set (map (ad_entry \<circ> snd) (qs_awaiting_durable st)) = fst ` set (qs_awaiting_durable st)"
    by (simp add: image_image cong: image_cong)
qed

lemma inv_reset:
  assumes "queue_inv st"
  shows "queue_inv (fst (reset_pending_on_login env st))"
proof -
  define st0 where "st0 = (bump_dispatch_generation st)\<lparr>qs_retry_backoff := []\<rparr>"
  define st1 where "st1 = st0\<lparr>qs_in_flight := []\<rparr>"
  have st0: "queue_inv st0" unfolding st0_def using assms by (intro inv_clear_in_flight)
  then have st1: "queue_inv st1" unfolding st1_def by (rule inv_clear_in_flight)
  have "pv_client_msg_id ` set (map (if_entry \<circ> snd) (qs_in_flight st0)) \<inter> set (excluded_ids st1) = {}"
    unfolding in_flight_entry_ids(1) [OF st0] using inv_disjoint(1) [OF st0]
    by (simp add: st1_def excluded_ids_def) (simp add: st0_def)
  note st2 = mark_all_failed_inv [OF st1 this, of env LOGIN_RESET_REASON]
  obtain st2 ok2 where eq2: "mark_all_failed env LOGIN_RESET_REASON (map (if_entry \<circ> snd) (qs_in_flight st0)) st1 = (st2, ok2)"
    by fastforce
  have tables2: "qs_in_flight st2 = []" "qs_retry_backoff st2 = []"
    using mark_all_failed_tables(1,3) [of env LOGIN_RESET_REASON "map (if_entry \<circ> snd) (qs_in_flight st0)" st1,
        unfolded eq2 fst_conv]
    by (simp_all add: st1_def st0_def)
  define st3 where "st3 = st2\<lparr>qs_awaiting_durable := []\<rparr>"
  have st3: "queue_inv st3" unfolding st3_def using st2 by (intro inv_clear_in_flight) (simp add: eq2)
  have "excluded_ids st3 = []" by (simp add: st3_def excluded_ids_def tables2)
  then have rest: "queue_inv (fst (mark_all_failed env reason entries st3)) \<and>
      excluded_ids (fst (mark_all_failed env reason entries st3)) = []" for reason entries
    using mark_all_failed_inv [OF st3] by (simp add: excluded_ids_def)
  obtain st4 ok4 where eq4:
    "mark_all_failed env LOGIN_RESET_ACCEPTED_REASON (map (ad_entry \<circ> snd) (qs_awaiting_durable st2)) st3 = (st4, ok4)"
    by fastforce
  have st4: "queue_inv st4" "excluded_ids st4 = []" using rest [of LOGIN_RESET_ACCEPTED_REASON] eq4 by (metis fst_conv)+
  obtain st5 ok5 where eq5: "mark_all_failed env LOGIN_RESET_REASON (pending_list (qs_pending st4)) st4 = (st5, ok5)"
    by fastforce
  have "queue_inv (fst (mark_all_failed env LOGIN_RESET_REASON (pending_list (qs_pending st4)) st4))"
    using st4 by (intro mark_all_failed_inv) simp_all
  then show ?thesis
    using st2 st4(1) eq2 eq4 eq5
    by (simp add: reset_pending_on_login_def Let_def flip: st0_def st1_def st3_def split: prod.split bool.split)
qed

lemma heal_cross_account_entry_eq:
  "heal_cross_account_entry env i st =
   backoff_remove i (drop_pending i (publish_send_failed env i REASON_PENDING_ANOTHER_ACCOUNT st))"
  by (simp add: heal_cross_account_entry_def publish_send_failed_def step_defs)

lemma inv_heal_cross_account: "queue_inv st \<Longrightarrow> queue_inv (heal_cross_account_entry env i st)"
  unfolding heal_cross_account_entry_eq
  by (intro inv_backoff_remove inv_drop_pending inv_publish_send_failed)
     (auto simp: disowned_def publish_send_failed_def call_def)

lemma note_persisted_ge: "qs_last_enqueued_at_ms st \<le> qs_last_enqueued_at_ms (note_persisted_enqueue_times entries st)"
  by (simp add: note_persisted_enqueue_times_def split: list.split)

lemma inv_note_persisted: "queue_inv st \<Longrightarrow> queue_inv (note_persisted_enqueue_times entries st)"
  by (auto simp: note_persisted_enqueue_times_def intro!: inv_last_enqueued split: list.split)

lemma inv_gate: "queue_inv st \<Longrightarrow> queue_inv (st\<lparr>qs_stall_probe_gate := g\<rparr>)"
  by (erule queue_inv_cong) (simp_all add: excluded_ids_def window_in_range_def disowned_def)

lemma inv_recover: "queue_inv st \<Longrightarrow> queue_inv (fst (recover_pending_for_current_user env st))"
  by (auto simp: recover_pending_for_current_user_def Let_def split: option.split
      intro!: inv_try_send_next inv_gate inv_note_persisted
        fold_preserves [where P = queue_inv and f = in_flight_remove]
        fold_preserves [where P = queue_inv and f = "heal_cross_account_entry env"]
        fold_preserves [where P = queue_inv and f = "\<lambda>i. publish_send_failed env i REASON_ORPHAN_RECOVERED"]
        inv_in_flight_remove inv_heal_cross_account inv_publish_send_failed)

lemma inv_same_keys:
  assumes "queue_inv st" "excluded_ids st' = excluded_ids st"
    "\<And>k f. (k, f) \<in> set (qs_in_flight st') \<Longrightarrow> \<exists>g. (k, g) \<in> set (qs_in_flight st) \<and> if_entry f = if_entry g"
    "\<And>k f. (k, f) \<in> set (qs_awaiting_durable st') \<Longrightarrow> \<exists>g. (k, g) \<in> set (qs_awaiting_durable st) \<and> ad_entry f = ad_entry g"
    "qs_pending st' = qs_pending st" "disowned st' = disowned st" "qs_retry_count st' = qs_retry_count st"
    "qs_max_retries st' = qs_max_retries st" "qs_window st' = qs_window st" "qs_max_in_flight st' = qs_max_in_flight st"
    "qs_last_enqueued_at_ms st' = qs_last_enqueued_at_ms st"
  shows "queue_inv st'"
proof -
  have "pv_client_msg_id (if_entry f) = k" if "(k, f) \<in> set (qs_in_flight st')" for k f
    using assms(3) [OF that] assms(1) by (auto simp: queue_inv_def tables_ok_def)
  moreover have "pv_client_msg_id (ad_entry f) = k" if "(k, f) \<in> set (qs_awaiting_durable st')" for k f
    using assms(4) [OF that] assms(1) by (auto simp: queue_inv_def tables_ok_def)
  ultimately have "tables_ok st'"
    using assms(1,2) by (auto simp: queue_inv_def tables_ok_def)
  then show ?thesis
    using assms(1,2,5-) by (simp add: queue_inv_def held_ok_def retries_ok_def window_in_range_def clock_ok_def)
qed

lemma map_fst_values: "map fst (map (\<lambda>(k, x). (k, g x)) xs) = map fst xs"
  by (induction xs) auto

lemma inv_thaw_awaiting:
  assumes "queue_inv st"
  shows "queue_inv (st\<lparr>qs_paused_since_ms := p, qs_awaiting_durable :=
    map (\<lambda>(k, a). (k, a\<lparr>ad_deadline_ms := g a\<rparr>)) (qs_awaiting_durable st)\<rparr>)" (is "queue_inv ?st")
proof (rule inv_same_keys [OF assms])
  show "excluded_ids ?st = excluded_ids st" by (simp add: excluded_ids_def map_fst_values del: map_map)
qed (auto simp: disowned_def)

lemma inv_thaw_in_flight:
  assumes "queue_inv st"
  shows "queue_inv (st\<lparr>qs_in_flight :=
    map (\<lambda>(k, f). (k, f\<lparr>if_deadline_ms := g f\<rparr>)) (qs_in_flight st)\<rparr>)" (is "queue_inv ?st")
proof (rule inv_same_keys [OF assms])
  show "excluded_ids ?st = excluded_ids st" by (simp add: excluded_ids_def map_fst_values del: map_map)
qed (auto simp: disowned_def)

lemma inv_resume:
  assumes "queue_inv st"
  shows "queue_inv (fst (resume env resend st))"
  unfolding resume_def Let_def
  using inv_thaw_awaiting [OF assms]
  by (cases resend; intro inv_recover; simp only: if_True if_False inv_clear_in_flight inv_thaw_in_flight)

lemma inv_expire_loop:
  "queue_inv st \<Longrightarrow> queue_inv (fst (expire_loop env cutoff entries expired st))"
proof (induction entries arbitrary: expired st)
  case (Cons entry entries)
  let ?i = "pv_client_msg_id entry"
  let ?st = "backoff_remove ?i (awaiting_remove ?i (in_flight_remove ?i st))"
  have "queue_inv ?st" using Cons.prems by (intro inv_backoff_remove inv_awaiting_remove inv_in_flight_remove)
  moreover have "?i \<notin> set (excluded_ids ?st)"
    by (simp add: set_excluded_ids backoff_remove_def awaiting_remove_def in_flight_remove_def)
  ultimately have "queue_inv (fst (mark_send_failed_and_publish env entry PENDING_EXPIRED_BEFORE_RESUME ?st))"
    by (rule inv_mark_failed)
  then show ?case
    using Cons.IH Cons.prems by (simp add: Let_def case_prod_unfold)
qed simp

lemma inv_handle_command:
  assumes "queue_inv st"
  shows "queue_inv (fst (handle_command env cmd st))"
proof (cases cmd)
  case Pause
  have "queue_inv (pause env st)"
    by (rule queue_inv_cong [OF assms]) (simp_all add: pause_def excluded_ids_def disowned_def window_in_range_def)
  with Pause show ?thesis by (simp add: handle_command_def)
qed (simp_all add: handle_command_def assms inv_enqueue inv_try_send_next inv_ack_received inv_send_attempt_finished
    inv_reset inv_resume expire_stale_pending_def inv_expire_loop retry_backoff_elapsed_def inv_backoff_remove)

subsection \<open>The periodic check\<close>

lemma inv_settle_reconciled:
  assumes "holdable st (pv_client_msg_id entry)" "settle_reconciled env local entry st = Some st'"
  shows "queue_inv st'"
  using assms(2) inv_drop [OF assms(1)]
  by (auto simp: settle_reconciled_def Let_def inv_publish_send_failed inv_call split: InFlightReconcileDecision.splits)

lemma inv_reconcile_in_flight_entry:
  assumes "queue_inv (fst acc)"
  shows "queue_inv (fst (reconcile_in_flight_entry env local i acc))"
proof (cases "map_of (qs_in_flight (fst acc)) i")
  case (Some f)
  note h = holdable_in_flight [OF assms Some]
  show ?thesis
    using h by (auto simp: reconcile_in_flight_entry_def case_prod_unfold Let_def Some
        intro: inv_hold inv_settle_reconciled split: option.split)
qed (simp add: reconcile_in_flight_entry_def case_prod_unfold assms)

lemma inv_reconcile_awaiting_entry:
  assumes "queue_inv (fst acc)"
  shows "queue_inv (fst (reconcile_awaiting_entry env local i acc))"
proof (cases "map_of (qs_awaiting_durable (fst acc)) i")
  case (Some a)
  note h = holdable_awaiting [OF assms Some]
  show ?thesis
    using h by (auto simp: reconcile_awaiting_entry_def case_prod_unfold Let_def Some
        intro: inv_hold inv_settle_reconciled split: option.split)
qed (simp add: reconcile_awaiting_entry_def case_prod_unfold assms)

lemma inv_reconcile:
  assumes "queue_inv st"
  shows "reconcile_in_flight_terminal_states env st = Some (st', progressed) \<Longrightarrow> queue_inv st'"
    and "reconcile_awaiting_durable_terminal_states env st = Some (st', progressed) \<Longrightarrow> queue_inv st'"
  using fold_preserves [where P = "\<lambda>acc. queue_inv (fst acc)" and s = "(st, False)"
      and f = "reconcile_in_flight_entry env local" for local, OF inv_reconcile_in_flight_entry]
    fold_preserves [where P = "\<lambda>acc. queue_inv (fst acc)" and s = "(st, False)"
      and f = "reconcile_awaiting_entry env local" for local, OF inv_reconcile_awaiting_entry] assms
  unfolding reconcile_in_flight_terminal_states_def reconcile_awaiting_durable_terminal_states_def
  by (auto simp: Let_def split: if_split_asm) (metis fst_conv)+

lemma inv_timeout_in_flight_entry:
  assumes "queue_inv st"
  shows "queue_inv (timeout_in_flight_entry env i st)"
  using holdable_in_flight [OF assms] assms
  by (auto simp: timeout_in_flight_entry_def Let_def intro: inv_hold inv_expire_attempt split: option.split)

lemma inv_timeout_awaiting_entry:
  assumes "queue_inv st"
  shows "queue_inv (timeout_awaiting_entry env i st)"
  using holdable_awaiting [OF assms] assms
  by (auto simp: timeout_awaiting_entry_def Let_def intro: inv_hold inv_expire_attempt split: option.split)

lemma inv_check_timeout:
  assumes "queue_inv st"
  shows "queue_inv (check_timeout env st)"
proof -
  have expire: "queue_inv (fold (timeout_in_flight_entry env) ids (check_awaiting_durable_timeout env s))"
    if "queue_inv s" for s :: "'a QueueState" and ids
    unfolding check_awaiting_durable_timeout_def using that
    by (intro fold_preserves [where P = queue_inv] inv_timeout_in_flight_entry inv_timeout_awaiting_entry)
  show ?thesis
  proof (cases "reconcile_in_flight_terminal_states env st")
    case (Some r1)
    then obtain st1 p1 where r1: "reconcile_in_flight_terminal_states env st = Some (st1, p1)" by (cases r1) simp
    note st1 = inv_reconcile(1) [OF assms r1]
    show ?thesis
    proof (cases "reconcile_awaiting_durable_terminal_states env st1")
      case (Some r2)
      then obtain st2 p2 where r2: "reconcile_awaiting_durable_terminal_states env st1 = Some (st2, p2)" by (cases r2) simp
      note st2 = inv_reconcile(2) [OF st1 r2]
      show ?thesis using st1 st2 by (simp add: check_timeout_def r1 r2 Let_def inv_try_send_next expire)
    qed (simp add: check_timeout_def r1 st1 inv_try_send_next)
  qed (simp add: check_timeout_def assms)
qed

lemma inv_probe: "queue_inv st \<Longrightarrow> queue_inv (probe_link_if_send_stalled env st)"
  by (simp add: probe_link_if_send_stalled_def inv_call inv_gate)

subsection \<open>Every reachable state\<close>

lemma fold_max_ge:
  fixes m :: u64
  shows "e = m \<or> e \<in> pv_enqueued_at_ms ` set es \<Longrightarrow> e \<le> fold (\<lambda>x m. max m (pv_enqueued_at_ms x)) es m"
proof (induction es arbitrary: m e)
  case (Cons x es)
  show ?case
  proof (cases "e \<in> pv_enqueued_at_ms ` set es")
    case False
    with Cons.prems have "e \<le> max m (pv_enqueued_at_ms x)" by (auto simp: le_max_iff_disj)
    also have "\<dots> \<le> fold (\<lambda>x m. max m (pv_enqueued_at_ms x)) es (max m (pv_enqueued_at_ms x))"
      by (rule Cons.IH) simp
    finally show ?thesis by simp
  qed (simp add: Cons.IH)
qed simp

lemma note_persisted_clock:
  "clock_ok (note_persisted_enqueue_times (pending_list (qs_pending st)) st)"
proof (cases "pending_list (qs_pending st)")
  case (Cons e es)
  then have "pv_enqueued_at_ms entry \<le> fold (\<lambda>x m. max m (pv_enqueued_at_ms x)) es (pv_enqueued_at_ms e)"
    if "entry \<in> set (pending_list (qs_pending st))" for entry
    using that by (intro fold_max_ge) auto
  then show ?thesis
    by (simp add: clock_ok_def note_persisted_enqueue_times_def Cons) (simp add: le_max_iff_disj)
qed (simp add: clock_ok_def note_persisted_enqueue_times_def)

lemma inv_spawn:
  assumes "pending_ok store"
  shows "queue_inv (spawn env config store)"
proof -
  have frame: "excluded_ids (note_persisted_enqueue_times es st) = excluded_ids st"
    "qs_in_flight (note_persisted_enqueue_times es st) = qs_in_flight st"
    "qs_awaiting_durable (note_persisted_enqueue_times es st) = qs_awaiting_durable st"
    "qs_pending (note_persisted_enqueue_times es st) = qs_pending st"
    "qs_retry_count (note_persisted_enqueue_times es st) = qs_retry_count st"
    "qs_window (note_persisted_enqueue_times es st) = qs_window st"
    "qs_max_in_flight (note_persisted_enqueue_times es st) = qs_max_in_flight st"
    for es :: "'a PendingSendVo list" and st :: "'a QueueState"
    by (simp_all add: note_persisted_enqueue_times_def excluded_ids_def split: list.split)
  show ?thesis
    unfolding spawn_def Let_def seed_enqueue_clock_def queue_inv_def
    by (intro conjI note_persisted_clock)
       (simp_all add: frame assms tables_ok_def held_ok_def retries_ok_def window_in_range_def AdaptiveInFlightWindow_new_def
         ADAPTIVE_MIN_IN_FLIGHT_def ADAPTIVE_INITIAL_MAX_IN_FLIGHT_def Let_def, simp_all add: excluded_ids_def min_le_iff_disj)
qed

lemma inv_step: "queue_step st st' \<Longrightarrow> queue_inv st \<Longrightarrow> queue_inv st'"
proof (induction rule: queue_step.induct)
  case (step_rehash in_flight st awaiting backoff)
  let ?st = "st\<lparr>qs_in_flight := in_flight, qs_awaiting_durable := awaiting, qs_retry_backoff := backoff\<rparr>"
  have sets: "set in_flight = set (qs_in_flight st)" "set awaiting = set (qs_awaiting_durable st)"
    "set backoff = set (qs_retry_backoff st)"
    using step_rehash by (metis set_mset_mset)+
  have "mset (excluded_ids ?st) = mset (excluded_ids st)"
    using step_rehash by (simp add: excluded_ids_def)
  then have "distinct (excluded_ids ?st)" "set (excluded_ids ?st) = set (excluded_ids st)"
    using inv_distinct [OF step_rehash(4)] by (metis mset_eq_imp_distinct_iff, metis set_mset_mset)
  then show ?case
    by (intro inv_subtables [OF step_rehash(4)]) (simp_all add: sets disowned_def)
next
  case (step_write st st' job)
  then show ?case by (auto simp: run_writer_def inv_writer split: list.splits)
qed (simp_all add: inv_handle_command inv_probe inv_check_timeout)

lemma reachable_inv:
  assumes "pending_ok store" "queue_reachable config store st"
  shows "queue_inv st"
  using assms(2) by induction (auto intro: inv_spawn [OF assms(1)] inv_step)

end
