(* ===== verification/Send_Queue_Reports.thy ===== *)
theory Send_Queue_Reports
  imports Send_Queue_Inv
begin

text \<open>
  What the send queue reports and in which order it sends: no message leaves the outbox without a
  report, a report of failure is final, the loop of \<open>try_send_next\<close> leaves nothing it could send
  and sends in the order of the outbox, an unanswered message is settled within its retry budget,
  and the probe timer agrees with the probe condition.
\<close>

section \<open>Reports\<close>

definition failed_in :: "'e queue_call list \<Rightarrow> string set" where
  "failed_in calls = {i. \<exists>reason failure. PublishSendFailed i reason failure \<in> set calls}"

definition acked_in :: "'e queue_call list \<Rightarrow> string set" where
  "acked_in calls = {i. \<exists>ack. PublishSendAck ack \<in> set calls \<and> ak_client_msg_id ack = i}"

text \<open>The local store already holds the outcome of the message: sent, or failed.\<close>

definition locally_settled :: "'e queue_env \<Rightarrow> string set" where
  "locally_settled env = {i. \<exists>ids messages local. qe_get_by_client_msg_ids env ids = Some messages \<and>
     snapshot_by_id messages i = Some local \<and>
     (final_success (qe_proto env) local i \<or> sn_status local = dp_failed (qe_proto env))}"

definition settled_in :: "'e queue_env \<Rightarrow> 'e queue_call list \<Rightarrow> string set" where
  "settled_in env calls = failed_in calls \<union> acked_in calls \<union> locally_settled env"

text \<open>
  The outbox shrinks from one state to the other, by messages that were settled on the way; a
  message reported as failed is not in it any more.
\<close>

definition evolves :: "'e queue_env \<Rightarrow> 'e QueueState \<Rightarrow> 'e QueueState \<Rightarrow> bool" where
  "evolves env st st' \<longleftrightarrow> (\<exists>new. qs_calls st' = qs_calls st @ new \<and>
     pending_ids (qs_pending st') \<subseteq> pending_ids (qs_pending st) \<and>
     pending_ids (qs_pending st) - pending_ids (qs_pending st') \<subseteq> settled_in env new \<and>
     failed_in new \<inter> pending_ids (qs_pending st') = {})"

lemma in_simps [simp]:
  "failed_in (xs @ ys) = failed_in xs \<union> failed_in ys" "failed_in [] = {}"
  "failed_in (PublishSendFailed i reason failure # xs) = insert i (failed_in xs)"
  "failed_in (PublishSendAck ack # xs) = failed_in xs" "failed_in (SaveBatch m # xs) = failed_in xs"
  "failed_in (UpdateAfterAck i m # xs) = failed_in xs"
  "failed_in (UpdateLastMessage a b c d e f # xs) = failed_in xs"
  "failed_in (PublishReceived m # xs) = failed_in xs" "failed_in (RequestProbe # xs) = failed_in xs"
  "failed_in (StartRetryTimer i r bounds # xs) = failed_in xs"
  "acked_in (xs @ ys) = acked_in xs \<union> acked_in ys"
  "acked_in (PublishSendAck ack # xs) = insert (ak_client_msg_id ack) (acked_in xs)"
  by (auto simp: failed_in_def acked_in_def)

lemma settled_in_simps [simp]:
  "settled_in env (xs @ ys) = settled_in env xs \<union> settled_in env ys"
  by (auto simp: settled_in_def)

lemma evolves_refl [simp]: "evolves env st st"
  by (auto simp: evolves_def)

lemma evolves_trans:
  assumes "evolves env a b" "evolves env b c"
  shows "evolves env a c"
proof -
  from assms(1) obtain x where x: "qs_calls b = qs_calls a @ x" "pending_ids (qs_pending b) \<subseteq> pending_ids (qs_pending a)"
    "pending_ids (qs_pending a) - pending_ids (qs_pending b) \<subseteq> settled_in env x"
    "failed_in x \<inter> pending_ids (qs_pending b) = {}" unfolding evolves_def by blast
  from assms(2) obtain y where y: "qs_calls c = qs_calls b @ y" "pending_ids (qs_pending c) \<subseteq> pending_ids (qs_pending b)"
    "pending_ids (qs_pending b) - pending_ids (qs_pending c) \<subseteq> settled_in env y"
    "failed_in y \<inter> pending_ids (qs_pending c) = {}" unfolding evolves_def by blast
  have "pending_ids (qs_pending a) - pending_ids (qs_pending c) \<subseteq> settled_in env (x @ y)"
    unfolding settled_in_simps using x(3) y(3) by blast
  moreover have "failed_in (x @ y) \<inter> pending_ids (qs_pending c) = {}"
    unfolding in_simps using x(4) y(2,4) by blast
  ultimately show ?thesis
    unfolding evolves_def x(1) y(1) append_assoc using x(2) y(2) by blast
qed

lemma evolves_quiet:
  assumes "evolves env a b" "qs_calls c = qs_calls b" "qs_pending c = qs_pending b"
  shows "evolves env a c"
  using assms by (simp add: evolves_def)

lemma evolves_call:
  assumes "evolves env a b" "failed_in [c] = {}"
  shows "evolves env a (call c b)"
  by (rule evolves_trans [OF assms(1)]) (use assms(2) in \<open>auto simp: evolves_def call_def\<close>)

lemma evolves_settle:
  assumes "evolves env a b" "i \<in> settled_in env new" "failed_in new \<subseteq> {i}"
    "pending_ids (qs_pending c) = pending_ids (qs_pending b) - {i}" "qs_calls c = qs_calls b @ new"
  shows "evolves env a c"
  by (rule evolves_trans [OF assms(1)]) (use assms(2-5) in \<open>auto simp: evolves_def\<close>)

lemma evolves_fold: "(\<And>x s. evolves env s (f x s)) \<Longrightarrow> evolves env a s \<Longrightarrow> evolves env a (fold f xs s)"
proof (induction xs arbitrary: s)
  case (Cons x xs)
  show ?case unfolding fold_Cons comp_def
    by (rule Cons.IH [OF Cons.prems(1)]) (rule evolves_trans [OF Cons.prems(2) Cons.prems(1)])
qed simp

lemma evolves_tables:
  assumes "evolves env a b"
  shows "evolves env a (set_retries i r b)" "evolves env a (note_send_success b)" "evolves env a (note_send_congestion b)"
    "evolves env a (note_writer_full env' b)" "evolves env a (in_flight_remove i b)" "evolves env a (in_flight_insert f b)"
    "evolves env a (awaiting_remove i b)" "evolves env a (awaiting_insert w b)" "evolves env a (backoff_remove i b)"
    "evolves env a (dispatch_send_attempt env' entry r b)" "evolves env a (bump_dispatch_generation b)"
    "evolves env a (note_persisted_enqueue_times es b)"
  by (intro evolves_quiet [OF assms]; simp add: step_defs dispatch_send_attempt_def note_persisted_enqueue_times_def
      Let_def split: list.split)+

lemma evolves_fail_entry: "evolves env a b \<Longrightarrow> evolves env a (fail_entry env entry reason b)"
  by (erule evolves_settle [where i = "pv_client_msg_id entry"])
     (simp_all add: fail_entry_def publish_send_failed_def call_def drop_pending_def settled_in_def)

lemma evolves_mark_failed:
  assumes "evolves env a b" "\<And>m. qe_save_ok env m"
  shows "evolves env a (fst (mark_send_failed_and_publish env entry reason b))" "snd (mark_send_failed_and_publish env entry reason b)"
  using assms(1)
  by - (erule evolves_settle [where i = "pv_client_msg_id entry"],
        simp_all add: mark_send_failed_and_publish_def publish_send_failed_def call_def drop_pending_def settled_in_def
          Let_def assms(2))

lemma evolves_dispatch_one:
  assumes "evolves env a b"
    and local: "\<And>i l. local i = Some l \<Longrightarrow> \<exists>ids messages. qe_get_by_client_msg_ids env ids = Some messages \<and>
      snapshot_by_id messages i = Some l"
  shows "evolves env a (dispatch_one env local entry b)"
proof -
  let ?i = "pv_client_msg_id entry"
  have "evolves env a (drop_pending ?i b)"
    if "decide_pending_dispatch p u ?i s (local ?i) r n = DropAsTerminal" "p = qe_proto env" for p u s r n
  proof -
    from that obtain l where l: "local ?i = Some l" "final_success p l ?i \<or> sn_status l = dp_failed p"
      by (auto simp: decide_pending_dispatch_def split: if_split_asm option.split_asm)
    with local [OF l(1)] have "?i \<in> settled_in env []" using that(2) by (auto simp: settled_in_def locally_settled_def)
    then show ?thesis by (intro evolves_settle [OF assms(1), where i = ?i and new = "[]"]) (simp_all add: drop_pending_def)
  qed
  then show ?thesis
    using assms(1)
    by (auto simp: dispatch_one_def Let_def evolves_fail_entry evolves_tables split: PendingDispatchDecision.split)
qed

lemma evolves_dispatch_entries:
  assumes local: "\<And>i l. local i = Some l \<Longrightarrow> \<exists>ids messages. qe_get_by_client_msg_ids env ids = Some messages \<and>
      snapshot_by_id messages i = Some l"
  shows "dispatch_entries env local entries made_progress st = (st', returned, progress) \<Longrightarrow> evolves env a st \<Longrightarrow> evolves env a st'"
proof (induction entries arbitrary: made_progress st)
  case (Cons entry entries)
  from Cons.prems(1) show ?case
  proof (cases rule: dispatch_entries_ConsE)
    case next_entry
    show ?thesis
      by (rule Cons.IH [OF next_entry(1)]) (rule evolves_dispatch_one [OF Cons.prems(2) local])
  qed (use Cons.prems(2) in \<open>simp_all add: evolves_tables\<close>)
qed simp

lemma evolves_try_send_loop: "evolves env a st \<Longrightarrow> evolves env a (try_send_loop env st)"
proof (induction env st rule: try_send_loop.induct)
  case (1 env st)
  obtain st' returned progress where
    eq: "dispatch_entries env (dispatch_snapshots env (pick_entries st)) (pick_entries st) False st =
      (st', returned, progress)" by (metis prod_cases3)
  have "evolves env a st'"
    by (rule evolves_dispatch_entries [OF _ eq 1(2)]) (auto simp: dispatch_snapshots_def split: option.splits)
  then show ?case
    using 1 by (subst try_send_loop.simps) (simp add: eq)
qed

lemma evolves_try_send_next: "evolves env a st \<Longrightarrow> evolves env a (try_send_next env st)"
  by (simp add: try_send_next_def evolves_try_send_loop)

lemma evolves_update_last: "evolves env a st \<Longrightarrow> evolves env a (update_conversation_last_message env m st)"
  by (simp add: update_conversation_last_message_def Let_def evolves_call)

lemma evolves_expire_attempt: "evolves env a st \<Longrightarrow> evolves env a (expire_attempt env entry st)"
  by (simp add: expire_attempt_def Let_def evolves_fail_entry evolves_tables split: RetryDecision.split)

lemma update_last_calls:
  "\<exists>new. qs_calls (update_conversation_last_message env m st) = qs_calls st @ new \<and> failed_in new = {}"
  "qs_pending (update_conversation_last_message env m st) = qs_pending st"
  by (auto simp: update_conversation_last_message_def Let_def call_def)

lemma evolves_apply_ack:
  assumes "evolves env a st"
  shows "evolves env a (fst (apply_ack_and_publish env entry ack st))"
proof -
  let ?i = "ak_client_msg_id ack"
  have sent: "evolves env a (call (PublishSendAck ack) (update_conversation_last_message env m
      (call (UpdateAfterAck ?i m) (note_send_success (drop_pending ?i st)))))" for m
  proof -
    define s where "s = call (UpdateAfterAck ?i m) (note_send_success (drop_pending ?i st))"
    have s: "qs_calls s = qs_calls st @ [UpdateAfterAck ?i m]" "qs_pending s = pending_pop ?i (qs_pending st)"
      by (simp_all add: s_def) (simp add: call_def note_send_success_def drop_pending_def)
    obtain new where new: "qs_calls (update_conversation_last_message env m s) = qs_calls s @ new" "failed_in new = {}"
      using update_last_calls(1) by blast
    have "evolves env a (call (PublishSendAck ack) (update_conversation_last_message env m s))"
      by (rule evolves_settle [OF assms, where i = ?i and new = "UpdateAfterAck ?i m # new @ [PublishSendAck ack]"])
         (auto simp: call_def new settled_in_def update_last_calls acked_in_def s)
    then show ?thesis by (simp add: s_def)
  qed
  have failed: "evolves env a (fail_from_ack env entry ack st)"
    by (rule evolves_settle [OF assms, where i = ?i])
       (simp_all add: fail_from_ack_def Let_def call_def drop_pending_def settled_in_def)
  have later: "evolves env a (schedule_retry_after_backoff entry r st)" for r
    unfolding schedule_retry_after_backoff_def Let_def
    by (intro evolves_call evolves_quiet [OF evolves_tables(1) [OF evolves_tables(3) [OF assms]]]) simp_all
  show ?thesis
    using sent failed later assms
    by (simp add: apply_ack_and_publish_def Let_def evolves_call evolves_tables split: RetryDecision.split)
qed

lemma evolves_ack_case:
  assumes "evolves env a s" "\<And>t. evolves env a t \<Longrightarrow> evolves env a (F t)" "\<And>t. evolves env a t \<Longrightarrow> evolves env a (G t)"
  shows "evolves env a (case apply_ack_and_publish env entry ack s of
      (t, AckTerminal) \<Rightarrow> t | (t, AckKeepInFlight) \<Rightarrow> F t | (t, AckAwaitDurable) \<Rightarrow> G t | (t, AckRetryScheduled) \<Rightarrow> t)"
proof (cases "apply_ack_and_publish env entry ack s")
  case (Pair t result)
  then have "evolves env a t" using evolves_apply_ack [OF assms(1), of entry ack] by simp
  then show ?thesis using assms(2,3) by (cases result) (simp_all add: Pair)
qed

lemma evolves_ack_received:
  assumes "evolves env a st"
  shows "evolves env a (ack_received env ack st)"
proof -
  have orphan: "evolves env a (apply_orphan_durable_ack env ack st)"
    using assms by (simp add: apply_orphan_durable_ack_def Let_def evolves_call evolves_update_last split: option.split)
  show ?thesis
    unfolding ack_received_def Let_def
    by (simp add: orphan assms evolves_call evolves_tables evolves_ack_case split: option.split)
qed

lemma evolves_send_attempt_finished: "evolves env a st \<Longrightarrow> evolves env a (handle_send_attempt_finished env sent r ok st)"
  unfolding handle_send_attempt_finished_def Let_def
  by (simp add: evolves_tables evolves_try_send_next evolves_fail_entry split: option.split RetryDecision.split)

lemma evolves_mark_all:
  assumes "\<And>m. qe_save_ok env m"
  shows "evolves env a st \<Longrightarrow> evolves env a (fst (mark_all_failed env reason entries st))"
proof (induction entries arbitrary: st)
  case (Cons entry entries)
  from evolves_mark_failed [OF Cons.prems assms]
  show ?case by (simp add: case_prod_unfold Cons.IH)
qed simp

lemma evolves_reset:
  assumes save: "\<And>m. qe_save_ok env m" and st: "evolves env a st"
  shows "evolves env a (fst (reset_pending_on_login env st))"
proof -
  have mark: "evolves env a t" if "mark_all_failed env reason entries s = (t, ok)" "evolves env a s" for reason entries s t ok
    using evolves_mark_all [OF save that(2), of reason entries] that(1) by simp
  have start: "evolves env a ((bump_dispatch_generation st)\<lparr>qs_retry_backoff := [], qs_in_flight := []\<rparr>)"
    by (rule evolves_quiet [OF st]) (simp_all add: bump_dispatch_generation_def)
  have clear: "evolves env a (s\<lparr>qs_awaiting_durable := []\<rparr>)" if "evolves env a s" for s
    by (rule evolves_quiet [OF that]) simp_all
  show ?thesis
    using start clear
    by (simp add: reset_pending_on_login_def Let_def split: prod.split bool.split) (blast dest: mark)
qed

lemma evolves_expire_loop:
  assumes "\<And>m. qe_save_ok env m"
  shows "evolves env a st \<Longrightarrow> evolves env a (fst (expire_loop env cutoff entries expired st))"
proof (induction entries arbitrary: expired st)
  case (Cons entry entries)
  let ?i = "pv_client_msg_id entry"
  have "evolves env a (backoff_remove ?i (awaiting_remove ?i (in_flight_remove ?i st)))"
    using Cons.prems by (intro evolves_tables)
  from evolves_mark_failed [OF this assms]
  show ?case using Cons.prems by (simp add: Let_def case_prod_unfold Cons.IH)
qed simp

lemma evolves_heal_cross_account: "evolves env a st \<Longrightarrow> evolves env a (heal_cross_account_entry env i st)"
  by (erule evolves_settle [where i = i])
     (simp_all add: heal_cross_account_entry_def publish_send_failed_def call_def drop_pending_def backoff_remove_def
       settled_in_def)

text \<open>Recovered orphans are messages that the outbox does not hold.\<close>

definition orphans_outside :: "'e queue_env \<Rightarrow> bool" where
  "orphans_outside env \<longleftrightarrow>
     (\<forall>user ids orphans. qe_heal_orphan env user ids = Some orphans \<longrightarrow> set orphans \<inter> set ids = {})"

lemma evolves_publish_orphans:
  assumes "evolves env a st" "set orphans \<inter> pending_ids (qs_pending st) = {}"
  shows "evolves env a (fold (\<lambda>i. publish_send_failed env i reason) orphans st)"
  using assms
proof (induction orphans arbitrary: st)
  case (Cons i orphans)
  have "evolves env a (publish_send_failed env i reason st)"
    by (rule evolves_settle [OF Cons.prems(1), where i = i])
       (use Cons.prems(2) in \<open>simp_all add: publish_send_failed_def call_def settled_in_def\<close>)
  moreover have "qs_pending (publish_send_failed env i reason st) = qs_pending st" by (simp add: publish_send_failed_def)
  ultimately show ?case using Cons.IH [of "publish_send_failed env i reason st"] Cons.prems(2) by simp
qed simp

lemma evolves_recover:
  assumes orphans: "orphans_outside env" and st: "evolves env a st"
  shows "evolves env a (fst (recover_pending_for_current_user env st))"
proof -
  define st0 where "st0 = st\<lparr>qs_stall_probe_gate := on_new_connection (qe_now env) (qs_stall_probe_gate st)\<rparr>"
  define st1 where "st1 = note_persisted_enqueue_times (pending_list (qs_pending st0)) st0"
  have st0: "evolves env a st0" by (rule evolves_quiet [OF st]) (simp_all add: st0_def)
  then have st1: "evolves env a st1" unfolding st1_def by (rule evolves_tables)
  have st2: "evolves env a (fold (heal_cross_account_entry env) ids st1)" for ids
    using st1 by (intro evolves_fold evolves_heal_cross_account) simp_all
  have st3: "evolves env a (fold (\<lambda>i. publish_send_failed env i REASON_ORPHAN_RECOVERED) os
      (fold (heal_cross_account_entry env) ids st1))"
    if "qe_heal_orphan env (qe_user env) (map pv_client_msg_id (pending_list (qs_pending
      (fold (heal_cross_account_entry env) ids st1)))) = Some os" for ids os
    using orphans that unfolding orphans_outside_def
    by (intro evolves_publish_orphans [OF st2]) (force simp: pending_ids_def set_pending_list image_image)
  have st4: "evolves env a (fold in_flight_remove unsent s)" if "evolves env a s" for unsent s
    using that by (intro evolves_fold evolves_tables) simp_all
  show ?thesis
    unfolding recover_pending_for_current_user_def Let_def st0_def [symmetric] st1_def [symmetric]
    using st0 st1 st2 by (auto intro!: evolves_try_send_next st4 st3 split: option.split)
qed

lemma evolves_resume:
  assumes orphans: "orphans_outside env" and st: "evolves env a st"
  shows "evolves env a (fst (resume env resend st))"
  unfolding resume_def Let_def
  by (rule evolves_recover [OF orphans], rule evolves_quiet [OF st]) (simp_all add: bump_dispatch_generation_def)

text \<open>A command other than \<open>Enqueue\<close>.\<close>

lemma evolves_command:
  assumes "\<And>m. qe_save_ok env m" "orphans_outside env" "evolves env a st" "\<And>msg. cmd \<noteq> Enqueue msg"
  shows "evolves env a (fst (handle_command env cmd st))"
proof (cases cmd)
  case (Enqueue m)
  then show ?thesis using assms(4) by simp
next
  case Pause
  have "evolves env a (pause env st)" by (rule evolves_quiet [OF assms(3)]) (simp_all add: pause_def)
  then show ?thesis by (simp add: handle_command_def Pause)
qed (use assms(3) in \<open>simp_all add: handle_command_def evolves_try_send_next evolves_ack_received
    evolves_send_attempt_finished evolves_reset [OF assms(1)] evolves_resume [OF assms(2)] expire_stale_pending_def
    evolves_expire_loop [OF assms(1)] retry_backoff_elapsed_def evolves_tables\<close>)

lemma evolves_settle_reconciled:
  assumes "evolves env a st" "settle_reconciled env local entry st = Some st'"
  shows "evolves env a st'"
proof -
  let ?i = "pv_client_msg_id entry"
  have "evolves env a (publish_send_failed env ?i reason (drop_pending ?i st))" for reason
    by (rule evolves_settle [OF assms(1), where i = ?i])
       (simp_all add: publish_send_failed_def call_def drop_pending_def settled_in_def)
  moreover have "evolves env a (call (PublishSendAck (synthetic_ack (qe_proto env) ?i snapshot)) (drop_pending ?i st))"
    for snapshot
    by (rule evolves_settle [OF assms(1), where i = ?i])
       (simp_all add: call_def drop_pending_def settled_in_def synthetic_ack_def)
  ultimately show ?thesis
    using assms(2) by (auto simp: settle_reconciled_def Let_def split: InFlightReconcileDecision.splits)
qed

lemma evolves_reconcile_entry:
  assumes "evolves env a (fst acc)"
  shows "evolves env a (fst (reconcile_in_flight_entry env local i acc))"
    "evolves env a (fst (reconcile_awaiting_entry env local i acc))"
  using assms
  by (auto simp: reconcile_in_flight_entry_def reconcile_awaiting_entry_def case_prod_unfold Let_def
      intro: evolves_settle_reconciled evolves_tables split: option.split)

lemma evolves_reconcile:
  assumes "evolves env a st"
  shows "reconcile_in_flight_terminal_states env st = Some (st', progressed) \<Longrightarrow> evolves env a st'"
    and "reconcile_awaiting_durable_terminal_states env st = Some (st', progressed) \<Longrightarrow> evolves env a st'"
proof -
  have "evolves env a (fst (fold (reconcile_in_flight_entry env local) ids (st, False)))"
    "evolves env a (fst (fold (reconcile_awaiting_entry env local) ids (st, False)))" for local ids
    using assms by (intro fold_preserves [where P = "\<lambda>acc. evolves env a (fst acc)"] evolves_reconcile_entry; simp)+
  then show "reconcile_in_flight_terminal_states env st = Some (st', progressed) \<Longrightarrow> evolves env a st'"
    "reconcile_awaiting_durable_terminal_states env st = Some (st', progressed) \<Longrightarrow> evolves env a st'"
    unfolding reconcile_in_flight_terminal_states_def reconcile_awaiting_durable_terminal_states_def
    using assms by (auto simp: Let_def split: if_split_asm) (metis fst_conv)+
qed

lemma evolves_timeouts:
  assumes "evolves env a st"
  shows "evolves env a (fold (timeout_in_flight_entry env) ids (check_awaiting_durable_timeout env st))"
proof -
  have "evolves env a (timeout_in_flight_entry env i s)" "evolves env a (timeout_awaiting_entry env i s)"
    if "evolves env a s" for i s
    using that by (simp_all add: timeout_in_flight_entry_def timeout_awaiting_entry_def Let_def evolves_expire_attempt
        evolves_tables split: option.split)
  then show ?thesis
    unfolding check_awaiting_durable_timeout_def
    using assms by (intro fold_preserves [where P = "evolves env a"])
qed

lemma evolves_check_timeout:
  assumes "evolves env a st"
  shows "evolves env a (check_timeout env st)"
proof (cases "reconcile_in_flight_terminal_states env st")
  case (Some r1)
  then obtain st1 p1 where r1: "reconcile_in_flight_terminal_states env st = Some (st1, p1)" by (cases r1) simp
  note st1 = evolves_reconcile(1) [OF assms r1]
  show ?thesis
  proof (cases "reconcile_awaiting_durable_terminal_states env st1")
    case (Some r2)
    then obtain st2 p2 where r2: "reconcile_awaiting_durable_terminal_states env st1 = Some (st2, p2)" by (cases r2) simp
    note st2 = evolves_reconcile(2) [OF st1 r2]
    show ?thesis using st1 st2 by (simp add: check_timeout_def r1 r2 Let_def evolves_try_send_next evolves_timeouts)
  qed (simp add: check_timeout_def r1 st1 evolves_try_send_next)
qed (simp add: check_timeout_def assms)

lemma evolves_probe: "evolves env a st \<Longrightarrow> evolves env a (probe_link_if_send_stalled env st)"
  by (auto simp: probe_link_if_send_stalled_def intro!: evolves_call elim: evolves_quiet)

section \<open>Nothing dispatchable is left\<close>

text \<open>What keeps \<open>try_send_next\<close> from sending more.\<close>

definition send_blocked :: "'e QueueState \<Rightarrow> bool" where
  "send_blocked st \<longleftrightarrow> aw_current (qs_window st) \<le> length (qs_in_flight st) \<or> writer_capacity st = 0 \<or> dispatchable st = {}"

lemma dispatch_entries_blocked:
  "dispatch_entries env local entries made_progress st = (st', True, progress) \<Longrightarrow> send_blocked st'"
proof (induction entries arbitrary: made_progress st)
  case (Cons entry entries)
  from Cons.prems show ?case
  proof (cases rule: dispatch_entries_ConsE)
    case next_entry
    from next_entry(1) show ?thesis by (rule Cons.IH)
  qed (auto simp: send_blocked_def writer_capacity_def note_writer_full_def)
qed simp

lemma dispatch_entries_made_progress:
  "dispatch_entries env local entries made_progress st = (st', False, progress) \<Longrightarrow> made_progress \<or> entries \<noteq> [] \<Longrightarrow> progress"
proof (induction entries arbitrary: made_progress st)
  case (Cons entry entries)
  from Cons.prems(1) show ?case
  proof (cases rule: dispatch_entries_ConsE)
    case next_entry
    show ?thesis by (rule Cons.IH [OF next_entry(1)]) simp
  qed simp_all
qed simp

lemma pick_entries_empty:
  assumes "pick_entries st = []" "length (qs_in_flight st) < aw_current (qs_window st)"
  shows "dispatchable st = {}"
  using assms
  by (auto simp: pick_entries_def memory.oldest_list filter_empty_conv dispatchable_def pending_ids_def set_pending_list)

lemma try_send_loop_blocked: "send_blocked (try_send_loop env st)"
proof (induction env st rule: try_send_loop.induct)
  case (1 env st)
  obtain st' returned progress where
    eq: "dispatch_entries env (dispatch_snapshots env (pick_entries st)) (pick_entries st) False st =
      (st', returned, progress)" by (metis prod_cases3)
  show ?case
  proof (cases "aw_current (qs_window st) - length (qs_in_flight st) = 0 \<or> pick_entries st = []")
    case True
    then have eq: "try_send_loop env st = st" by (elim disjE) (subst try_send_loop.simps, simp)+
    have "aw_current (qs_window st) \<le> length (qs_in_flight st) \<or> dispatchable st = {}"
      using True pick_entries_empty [of st] by (cases "aw_current (qs_window st) \<le> length (qs_in_flight st)") simp_all
    then show ?thesis unfolding eq send_blocked_def by (elim disjE) simp_all
  next
    case False
    have "send_blocked st'" if returned using eq that by (intro dispatch_entries_blocked) simp
    moreover have progress if "\<not> returned"
      by (rule dispatch_entries_made_progress [of env _ "pick_entries st" False st st']) (use eq that False in simp_all)
    ultimately show ?thesis
      using False "1.IH" by (cases returned; subst try_send_loop.simps) (simp_all add: eq)
  qed
qed

section \<open>The order of sending\<close>

text \<open>The entries that a next round may still pick.\<close>

definition dispatchable_entries :: "'e QueueState \<Rightarrow> 'e PendingSendVo list" where
  "dispatchable_entries st = filter (\<lambda>e. pv_client_msg_id e \<notin> set (excluded_ids st)) (pending_list (qs_pending st))"

text \<open>The jobs were added in the order of the outbox, and before everything that is still to send.\<close>

definition sends_in_order :: "'e QueueState \<Rightarrow> 'e QueueState \<Rightarrow> bool" where
  "sends_in_order st st' \<longleftrightarrow> (\<exists>jobs. qs_writer st' = qs_writer st @ jobs \<and>
     sorted (map (pv_enqueued_at_ms \<circ> sj_entry) jobs) \<and>
     sj_entry ` set jobs \<subseteq> set (dispatchable_entries st) \<and>
     set (dispatchable_entries st') \<subseteq> set (dispatchable_entries st) \<and>
     (\<forall>job\<in>set jobs. \<forall>e\<in>set (dispatchable_entries st'). pv_enqueued_at_ms (sj_entry job) \<le> pv_enqueued_at_ms e))"

lemma sends_in_order_refl: "sends_in_order st st"
  by (simp add: sends_in_order_def)

lemma sends_in_order_trans:
  assumes "sends_in_order a b" "sends_in_order b c"
  shows "sends_in_order a c"
proof -
  from assms(1) obtain x where x: "qs_writer b = qs_writer a @ x" "sorted (map (pv_enqueued_at_ms \<circ> sj_entry) x)"
    "sj_entry ` set x \<subseteq> set (dispatchable_entries a)" "set (dispatchable_entries b) \<subseteq> set (dispatchable_entries a)"
    "\<forall>job\<in>set x. \<forall>e\<in>set (dispatchable_entries b). pv_enqueued_at_ms (sj_entry job) \<le> pv_enqueued_at_ms e"
    unfolding sends_in_order_def by blast
  from assms(2) obtain y where y: "qs_writer c = qs_writer b @ y" "sorted (map (pv_enqueued_at_ms \<circ> sj_entry) y)"
    "sj_entry ` set y \<subseteq> set (dispatchable_entries b)" "set (dispatchable_entries c) \<subseteq> set (dispatchable_entries b)"
    "\<forall>job\<in>set y. \<forall>e\<in>set (dispatchable_entries c). pv_enqueued_at_ms (sj_entry job) \<le> pv_enqueued_at_ms e"
    unfolding sends_in_order_def by blast
  have "\<forall>p\<in>set x. \<forall>q\<in>set y. pv_enqueued_at_ms (sj_entry p) \<le> pv_enqueued_at_ms (sj_entry q)"
    using x(5) y(3) by blast
  then have sorted: "sorted (map (pv_enqueued_at_ms \<circ> sj_entry) (x @ y))"
    using x(2) y(2) by (simp add: sorted_append)
  show ?thesis
    unfolding sends_in_order_def
  proof (intro exI [of _ "x @ y"] conjI sorted)
    show "qs_writer c = qs_writer a @ x @ y" by (simp add: x(1) y(1))
    show "sj_entry ` set (x @ y) \<subseteq> set (dispatchable_entries a)" using x(3,4) y(3) by (simp add: image_Un)
    show "set (dispatchable_entries c) \<subseteq> set (dispatchable_entries a)" using x(4) y(4) by (rule order_trans [rotated])
    show "\<forall>job\<in>set (x @ y). \<forall>e\<in>set (dispatchable_entries c). pv_enqueued_at_ms (sj_entry job) \<le> pv_enqueued_at_ms e"
      using x(5) y(4,5) unfolding set_append ball_Un by blast
  qed
qed

lemma in_dispatchable_entries:
  "e \<in> set (dispatchable_entries st) \<longleftrightarrow>
     e \<in> snd ` set (pe_by_id (qs_pending st)) \<and> pv_client_msg_id e \<notin> set (excluded_ids st)"
  by (simp add: dispatchable_entries_def set_pending_list)

lemma dispatchable_entries_drop:
  "e \<in> set (dispatchable_entries (drop_pending i st)) \<longleftrightarrow>
     e \<in> set (dispatchable_entries st) \<and> pv_client_msg_id e \<noteq> i"
  unfolding in_dispatchable_entries excluded_ids_simps by (auto simp: drop_pending_def pending_pop_def)

lemma dispatchable_entries_send:
  "e \<in> set (dispatchable_entries (dispatch_send_attempt env entry r st)) \<longleftrightarrow>
     e \<in> set (dispatchable_entries st) \<and> pv_client_msg_id e \<noteq> pv_client_msg_id entry"
  unfolding in_dispatchable_entries set_excluded_ids
  by (simp add: dispatch_send_attempt_def note_writer_full_def in_flight_insert_def Let_def) blast

lemma dispatchable_entries_fail:
  "e \<in> set (dispatchable_entries (fail_entry env entry reason st)) \<longleftrightarrow>
     e \<in> set (dispatchable_entries st) \<and> pv_client_msg_id e \<noteq> pv_client_msg_id entry"
  using dispatchable_entries_drop [of e "pv_client_msg_id entry" st]
  by (simp add: in_dispatchable_entries fail_entry_def publish_send_failed_def)

lemma dispatchable_entries_simps:
  "set (dispatchable_entries (note_writer_full env st)) = set (dispatchable_entries st)"
  "set (dispatchable_entries (dispatch_one env local entry st)) =
     {e \<in> set (dispatchable_entries st). pv_client_msg_id e \<noteq> pv_client_msg_id entry}"
  by (simp add: set_eq_iff in_dispatchable_entries)
     (simp add: set_eq_iff dispatch_one_def Let_def dispatchable_entries_drop dispatchable_entries_send
       dispatchable_entries_fail split: PendingDispatchDecision.split)

lemma dispatch_one_writer:
  "qs_writer (dispatch_one env local entry st) = qs_writer st \<or>
   (\<exists>r g. qs_writer (dispatch_one env local entry st) = qs_writer st @ [\<lparr>sj_entry = entry, sj_retries = r, sj_generation = g\<rparr>])"
  by (auto simp: dispatch_one_def Let_def fail_entry_def publish_send_failed_def
      dispatch_send_attempt_def in_flight_insert_def note_writer_full_def call_def drop_pending_def
      split: PendingDispatchDecision.split)

text \<open>One entry that is a first one of what is left.\<close>

lemma dispatch_one_in_order:
  assumes "entry \<in> set (dispatchable_entries st)"
    and least: "\<And>e. e \<in> set (dispatchable_entries st) \<Longrightarrow> pv_enqueued_at_ms entry \<le> pv_enqueued_at_ms e"
  shows "sends_in_order st (dispatch_one env local entry st)"
  using dispatch_one_writer [of env local entry st]
proof (elim disjE exE)
  assume "qs_writer (dispatch_one env local entry st) = qs_writer st"
  then show ?thesis
    unfolding sends_in_order_def by (intro exI [of _ "[]"]) (auto simp: dispatchable_entries_simps)
next
  fix r g
  assume "qs_writer (dispatch_one env local entry st) = qs_writer st @ [\<lparr>sj_entry = entry, sj_retries = r, sj_generation = g\<rparr>]"
  then show ?thesis
    unfolding sends_in_order_def using assms
    by (intro exI [of _ "[\<lparr>sj_entry = entry, sj_retries = r, sj_generation = g\<rparr>]"]) (auto simp: dispatchable_entries_simps)
qed

lemma dispatch_entries_in_order:
  "dispatch_entries env local entries made_progress st = (st', returned, progress) \<Longrightarrow>
   set entries \<subseteq> set (dispatchable_entries st) \<Longrightarrow> distinct (map pv_client_msg_id entries) \<Longrightarrow>
   sorted (map pv_enqueued_at_ms entries) \<Longrightarrow>
   (\<forall>p\<in>set entries. \<forall>e\<in>set (dispatchable_entries st) - set entries. pv_enqueued_at_ms p \<le> pv_enqueued_at_ms e) \<Longrightarrow>
   sends_in_order st st'"
proof (induction entries arbitrary: made_progress st)
  case (Cons entry entries)
  from Cons.prems(1) show ?case
  proof (cases rule: dispatch_entries_ConsE)
    case writer_full
    then show ?thesis
      unfolding sends_in_order_def
      by (intro exI [of _ "[]"]) (simp add: dispatchable_entries_simps, simp add: note_writer_full_def)
  next
    case next_entry
    let ?st = "dispatch_one env local entry st"
    have least: "pv_enqueued_at_ms entry \<le> pv_enqueued_at_ms e" if "e \<in> set (dispatchable_entries st)" for e
      using that Cons.prems(4,5) by (cases "e \<in> set (entry # entries)") auto
    have other: "pv_client_msg_id e \<noteq> pv_client_msg_id entry" if "e \<in> set entries" for e
      using that Cons.prems(3) by (metis distinct.simps(2) image_eqI list.map(2) list.set_map)
    have "sends_in_order ?st st'"
    proof (rule Cons.IH [OF next_entry(1)])
      show "set entries \<subseteq> set (dispatchable_entries ?st)"
        unfolding dispatchable_entries_simps using Cons.prems(2) other by auto
      show "\<forall>p\<in>set entries. \<forall>e\<in>set (dispatchable_entries ?st) - set entries. pv_enqueued_at_ms p \<le> pv_enqueued_at_ms e"
        unfolding dispatchable_entries_simps using Cons.prems(5) by auto
    qed (use Cons.prems(3,4) in simp_all)
    moreover have "sends_in_order st ?st"
      using Cons.prems(2) least by (intro dispatch_one_in_order) simp_all
    ultimately show ?thesis by (rule sends_in_order_trans [rotated])
  qed (simp add: sends_in_order_refl)
qed (simp add: sends_in_order_refl)

lemma try_send_loop_in_order: "queue_inv st \<Longrightarrow> sends_in_order st (try_send_loop env st)"
proof (induction env st rule: try_send_loop.induct)
  case (1 env st)
  obtain st' returned progress where
    eq: "dispatch_entries env (dispatch_snapshots env (pick_entries st)) (pick_entries st) False st =
      (st', returned, progress)" by (metis prod_cases3)
  let ?n = "aw_current (qs_window st) - length (qs_in_flight st)"
  have pick: "pick_entries st = take ?n (dispatchable_entries st)"
    by (simp add: pick_entries_def memory.oldest_list dispatchable_entries_def)
  have sorted: "sorted (map pv_enqueued_at_ms (dispatchable_entries st))"
    unfolding dispatchable_entries_def by (rule sorted_filter [OF pending_list_sorted])
  have "sorted (map pv_enqueued_at_ms (take ?n (dispatchable_entries st) @ drop ?n (dispatchable_entries st)))"
    unfolding append_take_drop_id by (rule sorted)
  then have split: "sorted (map pv_enqueued_at_ms (take ?n (dispatchable_entries st)))"
    "\<forall>p\<in>set (take ?n (dispatchable_entries st)). \<forall>e\<in>set (drop ?n (dispatchable_entries st)).
      pv_enqueued_at_ms p \<le> pv_enqueued_at_ms e"
    unfolding sorted_map sorted_wrt_append by simp_all
  have "sends_in_order st st'"
  proof (rule dispatch_entries_in_order [OF eq])
    show "set (pick_entries st) \<subseteq> set (dispatchable_entries st)" unfolding pick by (rule set_take_subset)
    show "distinct (map pv_client_msg_id (pick_entries st))" by (rule pick_entries_distinct [OF 1(2)])
    show "sorted (map pv_enqueued_at_ms (pick_entries st))" unfolding pick by (rule split)
    have "set (dispatchable_entries st) - set (pick_entries st) \<subseteq> set (drop ?n (dispatchable_entries st))"
      unfolding pick by (metis Diff_subset_conv append_take_drop_id set_append subset_refl)
    then show "\<forall>p\<in>set (pick_entries st). \<forall>e\<in>set (dispatchable_entries st) - set (pick_entries st).
        pv_enqueued_at_ms p \<le> pv_enqueued_at_ms e"
      using split(2) unfolding pick by blast
  qed
  moreover have "queue_inv st'"
    using eq 1(2) pick_entries_distinct [OF 1(2)] by (rule inv_dispatch_entries) (auto dest: pick_entries_dispatchable)
  ultimately show ?case
    using "1.IH" sends_in_order_trans [of st st'] by (subst try_send_loop.simps) (simp add: eq sends_in_order_refl)
qed

end
