(* ===== verification/Send_Queue_Props.thy ===== *)
theory Send_Queue_Props
  imports Send_Queue_Reports
begin

text \<open>
  The guarantees of the send queue: the invariant of reachable states, the reports, the order, the
  retry budget of an unanswered message, the outbox as a first-in-first-out list and the probe
  timer.
\<close>

section \<open>An unanswered message\<close>

text \<open>What a step leaves alone of one message.\<close>

definition untouched :: "string \<Rightarrow> 'e QueueState \<Rightarrow> 'e QueueState \<Rightarrow> bool" where
  "untouched i st st' \<longleftrightarrow> map_of (qs_in_flight st') i = map_of (qs_in_flight st) i \<and>
     qs_retry_count st' i = qs_retry_count st i \<and>
     (i \<in> pending_ids (qs_pending st') \<longleftrightarrow> i \<in> pending_ids (qs_pending st)) \<and>
     qs_max_retries st' = qs_max_retries st \<and> qs_timeout_ms st' = qs_timeout_ms st \<and>
     qs_paused_since_ms st' = qs_paused_since_ms st \<and> set (qs_calls st) \<subseteq> set (qs_calls st')"

lemma untouched_refl [simp]: "untouched i st st"
  by (simp add: untouched_def)

lemma untouched_trans:
  assumes "untouched i a b" "untouched i b c"
  shows "untouched i a c"
proof -
  have "set (qs_calls a) \<subseteq> set (qs_calls b)" "set (qs_calls b) \<subseteq> set (qs_calls c)"
    using assms unfolding untouched_def by simp_all
  then have "set (qs_calls a) \<subseteq> set (qs_calls c)" by (rule order_trans)
  then show ?thesis using assms unfolding untouched_def by simp
qed

lemmas entry_defs = fail_entry_def publish_send_failed_def dispatch_send_attempt_def expire_attempt_def step_defs

lemma untouched_fail: "pv_client_msg_id entry \<noteq> i \<Longrightarrow> untouched i st (fail_entry env entry reason st)"
  by (auto simp: untouched_def entry_defs)

lemma untouched_send: "pv_client_msg_id entry \<noteq> i \<Longrightarrow> untouched i st (dispatch_send_attempt env entry r st)"
  by (auto simp: untouched_def entry_defs update_conv Let_def)

lemma untouched_expire:
  assumes "pv_client_msg_id entry \<noteq> i"
  shows "untouched i st (expire_attempt env entry st)"
proof -
  have congestion: "untouched i st (note_send_congestion st)" by (simp add: untouched_def note_send_congestion_def)
  have retries: "untouched i s (set_retries (pv_client_msg_id entry) r s)" for s :: "'a QueueState" and r
    using assms by (simp add: untouched_def set_retries_def)
  show ?thesis
  proof (cases "decide_timeout_expiry (retries_of (note_send_congestion st) (pv_client_msg_id entry))
      (qs_max_retries (note_send_congestion st))")
    case (Retry r)
    have "untouched i st (dispatch_send_attempt env entry r
        (set_retries (pv_client_msg_id entry) r (note_send_congestion st)))"
      by (rule untouched_trans [OF congestion untouched_trans [OF retries untouched_send [OF assms]]])
    then show ?thesis by (simp only: expire_attempt_def Let_def Retry RetryDecision.case)
  next
    case (Fail reason)
    have "untouched i st (fail_entry env entry reason (note_send_congestion st))"
      by (rule untouched_trans [OF congestion untouched_fail [OF assms]])
    then show ?thesis by (simp only: expire_attempt_def Let_def Fail RetryDecision.case)
  qed
qed

lemma untouched_dispatch_one: "pv_client_msg_id entry \<noteq> i \<Longrightarrow> untouched i st (dispatch_one env local entry st)"
  by (simp add: dispatch_one_def Let_def untouched_fail untouched_send split: PendingDispatchDecision.split)
     (simp add: untouched_def drop_pending_def)

lemma untouched_dispatch_entries:
  "dispatch_entries env local entries made_progress st = (st', returned, progress) \<Longrightarrow>
   i \<notin> pv_client_msg_id ` set entries \<Longrightarrow> untouched i st st'"
proof (induction entries arbitrary: made_progress st)
  case (Cons entry entries)
  from Cons.prems(1) show ?case
  proof (cases rule: dispatch_entries_ConsE)
    case next_entry
    have "untouched i st (dispatch_one env local entry st)"
      using Cons.prems(2) by (intro untouched_dispatch_one) auto
    moreover have "untouched i (dispatch_one env local entry st) st'"
      using Cons.prems(2) by (intro Cons.IH [OF next_entry(1)]) simp
    ultimately show ?thesis by (rule untouched_trans)
  qed (simp_all add: untouched_def note_writer_full_def)
qed simp

lemma untouched_try_send_loop: "i \<notin> dispatchable st \<Longrightarrow> untouched i st (try_send_loop env st)"
proof (induction env st rule: try_send_loop.induct)
  case (1 env st)
  obtain st' returned progress where
    eq: "dispatch_entries env (dispatch_snapshots env (pick_entries st)) (pick_entries st) False st =
      (st', returned, progress)" by (metis prod_cases3)
  have st': "untouched i st st'"
    by (rule untouched_dispatch_entries [OF eq]) (use 1(2) in \<open>auto dest: pick_entries_dispatchable\<close>)
  have "i \<notin> dispatchable st'" using dispatch_entries_shrinks [OF eq] 1(2) by blast
  then show ?case
    using "1.IH" st' untouched_trans [OF st'] by (subst try_send_loop.simps) (simp add: eq)
qed

lemma untouched_try_send_next: "i \<notin> dispatchable st \<Longrightarrow> untouched i st (try_send_next env st)"
  by (simp add: try_send_next_def untouched_try_send_loop)

subsection \<open>One check\<close>

text \<open>The local store knows no outcome of any message.\<close>

definition silent :: "'e queue_env \<Rightarrow> bool" where
  "silent env \<longleftrightarrow> (\<forall>ids. qe_get_by_client_msg_ids env ids = Some [])"

lemma settle_none: "settle_reconciled env Map.empty entry st = None"
  by (simp add: settle_reconciled_def reconcile_in_flight_def Let_def)

lemma map_of_reinsert: "map_of xs k = Some v \<Longrightarrow> map_of (AList.update k v (AList.delete k xs)) = map_of xs"
  by (auto simp: update_conv delete_conv)

lemma reconcile_in_flight_silent:
  assumes "queue_inv (fst acc)"
  shows "untouched i (fst acc) (fst (reconcile_in_flight_entry env Map.empty k acc)) \<and>
    snd (reconcile_in_flight_entry env Map.empty k acc) = snd acc"
proof (cases "map_of (qs_in_flight (fst acc)) k")
  case (Some f)
  show ?thesis
    using holdable_in_flight(2) [OF assms Some] map_of_reinsert [OF Some]
    by (simp add: reconcile_in_flight_entry_def case_prod_unfold Some Let_def settle_none untouched_def
        in_flight_insert_def in_flight_remove_def)
qed (simp add: reconcile_in_flight_entry_def case_prod_unfold)

lemma reconcile_awaiting_silent:
  "untouched i (fst acc) (fst (reconcile_awaiting_entry env Map.empty k acc)) \<and>
    snd (reconcile_awaiting_entry env Map.empty k acc) = snd acc"
  by (cases "map_of (qs_awaiting_durable (fst acc)) k")
     (simp_all add: reconcile_awaiting_entry_def case_prod_unfold Let_def settle_none untouched_def
        awaiting_insert_def awaiting_remove_def)

text \<open>A fold that keeps the invariant, leaves the message alone and makes no progress.\<close>

lemma silent_fold:
  assumes step: "\<And>k acc. queue_inv (fst acc) \<Longrightarrow> queue_inv (fst (f k acc)) \<and> untouched i (fst acc) (fst (f k acc)) \<and> snd (f k acc) = snd acc"
    and "queue_inv st"
  obtains st' where "fold f ids (st, False) = (st', False)" "queue_inv st'" "untouched i st st'"
proof -
  have "queue_inv (fst (fold f ids acc)) \<and> untouched i (fst acc) (fst (fold f ids acc)) \<and> snd (fold f ids acc) = snd acc"
    if "queue_inv (fst acc)" for acc
    using that
  proof (induction ids arbitrary: acc)
    case (Cons k ids)
    note one = step [OF Cons.prems, of k]
    have "queue_inv (fst (f k acc))" using one by simp
    from Cons.IH [OF this] show ?case
      using one by (simp, blast intro: untouched_trans)
  qed simp
  from this [of "(st, False)"] assms(2) show ?thesis
    by (intro that [of "fst (fold f ids (st, False))"]) (simp_all add: prod_eq_iff)
qed

lemma reconcile_silent:
  assumes silent: "silent env" and inv: "queue_inv st"
  obtains st1 st2 where "reconcile_in_flight_terminal_states env st = Some (st1, False)"
    "reconcile_awaiting_durable_terminal_states env st1 = Some (st2, False)" "queue_inv st2" "untouched i st st2"
proof -
  have get: "qe_get_by_client_msg_ids env ids = Some []" for ids using silent by (simp add: silent_def)
  have empty: "snapshot_by_id [] = Map.empty" by (simp add: snapshot_by_id_def)
  obtain st1 where st1: "fold (reconcile_in_flight_entry env Map.empty) (map fst (qs_in_flight st)) (st, False) = (st1, False)"
      "queue_inv st1" "untouched i st st1"
    by (rule silent_fold [where f = "reconcile_in_flight_entry env Map.empty" and i = i and st = st])
       (simp_all only: inv inv_reconcile_in_flight_entry reconcile_in_flight_silent simp_thms)
  obtain st2 where st2: "fold (reconcile_awaiting_entry env Map.empty) (map fst (qs_awaiting_durable st1)) (st1, False) = (st2, False)"
      "queue_inv st2" "untouched i st1 st2"
    by (rule silent_fold [where f = "reconcile_awaiting_entry env Map.empty" and i = i and st = st1])
       (simp_all only: st1(2) inv_reconcile_awaiting_entry reconcile_awaiting_silent simp_thms)
  have "reconcile_in_flight_terminal_states env st = Some (st1, False)"
    using st1(1) by (auto simp: reconcile_in_flight_terminal_states_def get empty Let_def)
  moreover have "reconcile_awaiting_durable_terminal_states env st1 = Some (st2, False)"
    using st2(1) by (auto simp: reconcile_awaiting_durable_terminal_states_def get empty Let_def)
  ultimately show ?thesis using that st2(2) untouched_trans [OF st1(3) st2(3)] by blast
qed

lemma timeout_awaiting_untouched:
  assumes "queue_inv s" "map_of (qs_in_flight s) i = Some f"
  shows "queue_inv (timeout_awaiting_entry env k s) \<and> untouched i s (timeout_awaiting_entry env k s)"
proof (cases "map_of (qs_awaiting_durable s) k")
  case (Some a)
  have "i \<in> fst ` set (qs_in_flight s)" "k \<in> fst ` set (qs_awaiting_durable s)"
    using assms(2) Some by (metis map_of_SomeD rev_image_eqI fst_conv)+
  then have "k \<noteq> i" using inv_disjoint(1) [OF assms(1)] by blast
  then have id: "pv_client_msg_id (ad_entry a) \<noteq> i" using holdable_awaiting(2) [OF assms(1) Some] by simp
  have remove: "untouched i s (awaiting_remove k s)" by (simp add: untouched_def awaiting_remove_def)
  have "untouched i (awaiting_remove k s) (awaiting_insert a (awaiting_remove k s))"
    by (simp add: untouched_def awaiting_insert_def)
  then have "untouched i s (timeout_awaiting_entry env k s)"
    using untouched_expire [OF id] by (auto simp: timeout_awaiting_entry_def Some Let_def intro!: untouched_trans [OF remove])
  then show ?thesis using inv_timeout_awaiting_entry [OF assms(1)] by simp
qed (simp add: timeout_awaiting_entry_def assms(1))

lemma timeout_in_flight_untouched:
  assumes "queue_inv s" "k \<noteq> i"
  shows "queue_inv (timeout_in_flight_entry env k s) \<and> untouched i s (timeout_in_flight_entry env k s)"
proof (cases "map_of (qs_in_flight s) k")
  case (Some f)
  have id: "pv_client_msg_id (if_entry f) \<noteq> i" using holdable_in_flight(2) [OF assms(1) Some] assms(2) by simp
  have remove: "untouched i s (in_flight_remove k s)"
    using assms(2) by (simp add: untouched_def in_flight_remove_def delete_conv)
  have "untouched i (in_flight_remove k s) (in_flight_insert f (in_flight_remove k s))"
    using id by (simp add: untouched_def in_flight_insert_def update_conv)
  then have "untouched i s (timeout_in_flight_entry env k s)"
    using untouched_expire [OF id] by (auto simp: timeout_in_flight_entry_def Some Let_def intro!: untouched_trans [OF remove])
  then show ?thesis using inv_timeout_in_flight_entry [OF assms(1)] by simp
qed (simp add: timeout_in_flight_entry_def assms(1))

lemma timeouts_untouched:
  assumes "i \<notin> set ids" "queue_inv st"
  shows "queue_inv (fold (timeout_in_flight_entry env) ids st) \<and> untouched i st (fold (timeout_in_flight_entry env) ids st)"
  using assms
proof (induction ids arbitrary: st)
  case (Cons k ids)
  then have one: "queue_inv (timeout_in_flight_entry env k st)" "untouched i st (timeout_in_flight_entry env k st)"
    using timeout_in_flight_untouched [of st k i env] by auto
  from Cons.IH [OF _ one(1)] Cons.prems(1) show ?case
    using untouched_trans [OF one(2)] by simp
qed simp

lemma awaiting_timeouts_untouched:
  assumes "queue_inv st" "map_of (qs_in_flight st) i = Some f"
  shows "queue_inv (check_awaiting_durable_timeout env st) \<and> untouched i st (check_awaiting_durable_timeout env st)"
  unfolding check_awaiting_durable_timeout_def
proof (rule fold_preserves [where P = "\<lambda>s. queue_inv s \<and> untouched i st s"])
  fix k s
  assume s: "queue_inv s \<and> untouched i st s"
  then have "map_of (qs_in_flight s) i = Some f" using assms(2) by (simp add: untouched_def)
  then have "queue_inv (timeout_awaiting_entry env k s) \<and> untouched i s (timeout_awaiting_entry env k s)"
    using s by (intro timeout_awaiting_untouched) simp_all
  then show "queue_inv (timeout_awaiting_entry env k s) \<and> untouched i st (timeout_awaiting_entry env k s)"
    using s untouched_trans [of i st s] by blast
qed (simp add: assms(1))

text \<open>The state of one message after its attempt has timed out.\<close>

definition attempt_after :: "'e queue_env \<Rightarrow> string \<Rightarrow> 'e QueueState \<Rightarrow> 'e QueueState \<Rightarrow> bool" where
  "attempt_after env i st st' \<longleftrightarrow>
     qs_max_retries st' = qs_max_retries st \<and> qs_timeout_ms st' = qs_timeout_ms st \<and>
     qs_paused_since_ms st' = qs_paused_since_ms st \<and>
     (if qs_max_retries st \<le> retries_of st i
      then i \<notin> pending_ids (qs_pending st') \<and> i \<in> failed_in (qs_calls st')
      else retries_of st' i = sat_add (retries_of st i) 1 \<and>
        (\<exists>f. map_of (qs_in_flight st') i = Some f \<and> if_deadline_ms f = deadline_after env (qs_timeout_ms st)))"

lemma attempt_after_expire:
  assumes "pv_client_msg_id entry = i"
  shows "attempt_after env i st (expire_attempt env entry st)"
  using assms
  by (auto simp: attempt_after_def expire_attempt_def decide_timeout_expiry_def Let_def dispatch_send_attempt_def
      fail_entry_def publish_send_failed_def step_defs retries_of_def update_conv)

lemma attempt_after_untouched:
  assumes "untouched i st a" "attempt_after env i a b" "untouched i b c"
  shows "attempt_after env i st c"
proof -
  have "failed_in (qs_calls b) \<subseteq> failed_in (qs_calls c)"
    using assms(3) by (auto simp: untouched_def failed_in_def)
  moreover have "retries_of a i = retries_of st i" "retries_of c i = retries_of b i"
    using assms(1,3) by (simp_all add: untouched_def retries_of_def)
  ultimately show ?thesis
    using assms unfolding attempt_after_def untouched_def by (auto split: if_splits)
qed

lemma attempt_after_busy:
  assumes "attempt_after env i st st'"
  shows "i \<notin> dispatchable st'"
  using assms
  by (auto simp: attempt_after_def dispatchable_def set_excluded_ids split: if_splits dest!: map_of_SomeD intro: rev_image_eqI)

lemma check_timeout_due:
  assumes inv: "queue_inv st" and silent: "silent env" and running: "qs_paused_since_ms st = None"
    and f: "map_of (qs_in_flight st) i = Some f" and due: "if_deadline_ms f \<le> qe_now env"
  shows "attempt_after env i st (check_timeout env st)"
proof -
  obtain st1 st2 where r: "reconcile_in_flight_terminal_states env st = Some (st1, False)"
    "reconcile_awaiting_durable_terminal_states env st1 = Some (st2, False)" "queue_inv st2" "untouched i st st2"
    by (rule reconcile_silent [OF silent inv])
  then have f2: "map_of (qs_in_flight st2) i = Some f" using f by (simp add: untouched_def)
  define st3 where "st3 = check_awaiting_durable_timeout env st2"
  have st3: "queue_inv st3" "untouched i st st3"
    using awaiting_timeouts_untouched [OF r(3) f2, of env] untouched_trans [OF r(4)] unfolding st3_def by blast+
  then have f3: "map_of (qs_in_flight st3) i = Some f" using f by (simp add: untouched_def)
  then have "i \<in> set (map fst (qs_in_flight st3))" by (force dest: map_of_SomeD)
  then obtain xs ys where ids: "map fst (qs_in_flight st3) = xs @ i # ys" by (metis split_list)
  have "distinct (map fst (qs_in_flight st3))"
    using st3(1) by (simp add: queue_inv_def tables_ok_def distinct_excluded)
  then have outside: "i \<notin> set xs" "i \<notin> set ys" by (simp_all add: ids)
  define st4 where "st4 = fold (timeout_in_flight_entry env) xs st3"
  have st4: "queue_inv st4" "untouched i st st4"
    using timeouts_untouched [OF outside(1) st3(1), of env] untouched_trans [OF st3(2)] unfolding st4_def by blast+
  then have f4: "map_of (qs_in_flight st4) i = Some f" using f by (simp add: untouched_def)
  define st5 where "st5 = timeout_in_flight_entry env i st4"
  have st5: "st5 = expire_attempt env (if_entry f) (in_flight_remove i st4)"
    using due by (simp add: st5_def timeout_in_flight_entry_def f4 Let_def is_deadline_elapsed_def)
  have removed: "attempt_after env i (in_flight_remove i st4) st5"
    unfolding st5 by (rule attempt_after_expire [OF holdable_in_flight(2) [OF st4(1) f4]])
  have same: "qs_max_retries (in_flight_remove i st4) = qs_max_retries st4" "qs_timeout_ms (in_flight_remove i st4) = qs_timeout_ms st4"
      "qs_paused_since_ms (in_flight_remove i st4) = qs_paused_since_ms st4" "retries_of (in_flight_remove i st4) i = retries_of st4 i"
    by (simp_all add: in_flight_remove_def retries_of_def)
  from removed have "attempt_after env i st4 st5" unfolding attempt_after_def same .
  then have after5: "attempt_after env i st st5" by (rule attempt_after_untouched [OF st4(2) _ untouched_refl])
  have "queue_inv st5" unfolding st5_def by (rule inv_timeout_in_flight_entry [OF st4(1)])
  define st6 where "st6 = fold (timeout_in_flight_entry env) ys st5"
  have "untouched i st5 st6"
    using timeouts_untouched [OF outside(2) \<open>queue_inv st5\<close>, of env] unfolding st6_def by blast
  then have after6: "attempt_after env i st st6" by (rule attempt_after_untouched [OF untouched_refl after5])
  then have "untouched i st6 (try_send_next env st6)" by (intro untouched_try_send_next attempt_after_busy)
  then have "attempt_after env i st (try_send_next env st6)" by (rule attempt_after_untouched [OF untouched_refl after6])
  moreover have "check_timeout env st = try_send_next env st6"
    using running by (simp add: check_timeout_def r(1,2) Let_def ids st6_def st5_def st4_def flip: st3_def)
  ultimately show ?thesis by simp
qed

text \<open>A run of checks, each when the attempt made by the one before has timed out.\<close>

fun overdue :: "u64 \<Rightarrow> u64 \<Rightarrow> 'e queue_env list \<Rightarrow> bool" where
  "overdue deadline_ms timeout_ms [] \<longleftrightarrow> True"
| "overdue deadline_ms timeout_ms (env # envs) \<longleftrightarrow>
     silent env \<and> deadline_ms \<le> qe_now env \<and> overdue (deadline_after env timeout_ms) timeout_ms envs"

lemma checks_keep_failure:
  assumes "i \<notin> pending_ids (qs_pending st)" "i \<in> failed_in (qs_calls st)"
  shows "i \<notin> pending_ids (qs_pending (fold check_timeout envs st)) \<and> i \<in> failed_in (qs_calls (fold check_timeout envs st))"
  using assms
proof (induction envs arbitrary: st)
  case (Cons env envs)
  have "evolves env st (check_timeout env st)" by (rule evolves_check_timeout) simp
  then have "i \<notin> pending_ids (qs_pending (check_timeout env st))" "i \<in> failed_in (qs_calls (check_timeout env st))"
    using Cons.prems by (auto simp: evolves_def)
  then show ?case using Cons.IH by simp
qed simp

lemma overdue_checks_fail:
  assumes "queue_inv st" "qs_paused_since_ms st = None" "map_of (qs_in_flight st) i = Some f"
    "overdue (if_deadline_ms f) (qs_timeout_ms st) envs"
    "unat (qs_max_retries st) - unat (retries_of st i) < length envs"
  shows "i \<notin> pending_ids (qs_pending (fold check_timeout envs st)) \<and> i \<in> failed_in (qs_calls (fold check_timeout envs st))"
  using assms
proof (induction envs arbitrary: st f)
  case (Cons env envs)
  let ?st = "check_timeout env st"
  have after: "attempt_after env i st ?st"
    using Cons.prems by (intro check_timeout_due) auto
  show ?case
  proof (cases "qs_max_retries st \<le> retries_of st i")
    case True
    then have "i \<notin> pending_ids (qs_pending ?st)" "i \<in> failed_in (qs_calls ?st)" using after by (simp_all add: attempt_after_def)
    then show ?thesis using checks_keep_failure by simp
  next
    case False
    then obtain g where g: "retries_of ?st i = sat_add (retries_of st i) 1" "map_of (qs_in_flight ?st) i = Some g"
      "if_deadline_ms g = deadline_after env (qs_timeout_ms st)" using after by (auto simp: attempt_after_def)
    have less: "unat (retries_of st i) < unat (qs_max_retries st)" using False by (simp add: word_le_nat_alt)
    then have "unat (retries_of ?st i) = Suc (unat (retries_of st i))"
      using unat_bound32 [of "qs_max_retries st"] unfolding g(1) by (simp add: unat_sat_succ32)
    then have "unat (qs_max_retries ?st) - unat (retries_of ?st i) < length envs"
      using Cons.prems(5) less after by (simp add: attempt_after_def)
    then have "i \<notin> pending_ids (qs_pending (fold check_timeout envs ?st)) \<and>
        i \<in> failed_in (qs_calls (fold check_timeout envs ?st))"
      using Cons.prems after g by (intro Cons.IH [of ?st g] inv_check_timeout) (auto simp: attempt_after_def)
    then show ?thesis by simp
  qed
qed simp

section \<open>The outbox as a first-in-first-out list\<close>

lemma insort_by_last: "c y x \<noteq> OGreater \<Longrightarrow> insort_by c y (zs @ [x]) = insort_by c y zs @ [x]"
  by (induction zs) auto

lemma sort_by_last: "(\<And>y. y \<in> set ys \<Longrightarrow> c y x \<noteq> OGreater) \<Longrightarrow> sort_by c (ys @ [x]) = sort_by c ys @ [x]"
proof (induction ys)
  case (Cons y ys)
  then show ?case using insort_by_last [of c y x] by (simp add: sort_by_def)
qed (simp add: sort_by_def)

lemma pending_list_push:
  assumes "pv_client_msg_id entry \<notin> pending_ids st"
    and "\<And>e. e \<in> set (pending_list st) \<Longrightarrow> pv_enqueued_at_ms e < pv_enqueued_at_ms entry"
  shows "pending_list (pending_push entry st) = pending_list st @ [entry]"
proof -
  have "filter (\<lambda>(_, e). pv_client_msg_id e \<noteq> pv_client_msg_id entry) (pe_by_id st) = pe_by_id st"
    unfolding filter_id_conv
  proof
    fix x
    assume "x \<in> set (pe_by_id st)"
    then have "pv_client_msg_id (snd x) \<in> pending_ids st" unfolding pending_ids_def by (intro imageI)
    then show "case x of (_, e) \<Rightarrow> pv_client_msg_id e \<noteq> pv_client_msg_id entry" using assms(1) by (auto simp: case_prod_unfold)
  qed
  moreover have "compare_pending y (pe_next_seq st, entry) \<noteq> OGreater" if "y \<in> set (pe_by_id st)" for y
  proof -
    have "snd y \<in> set (pending_list st)" using that by (simp add: set_pending_list)
    from assms(2) [OF this] show ?thesis by (simp add: compare_pending_def then_with_neq_Greater)
  qed
  ultimately have "ordered (pending_push entry st) = ordered st @ [(pe_next_seq st, entry)]"
    unfolding ordered_def pending_push_def by (simp add: sort_by_last)
  then show ?thesis by (simp add: pending_list_def)
qed

lemma paused_enqueue:
  fixes st :: "'e QueueState"
  assumes paused: "qs_paused_since_ms st = Some t" and save: "\<And>m. qe_save_ok env m"
    and fresh: "im_client_msg_id msg \<notin> pending_ids (qs_pending st)" and clock: "clock_ok st"
    and room: "unat (qs_last_enqueued_at_ms st) + 1 < 2 ^ 64"
  defines "st' \<equiv> fst (handle_command env (Enqueue msg) st)"
  shows "map pv_message (pending_list (qs_pending st')) = map pv_message (pending_list (qs_pending st)) @ [msg]"
    "pending_ids (qs_pending st') = insert (im_client_msg_id msg) (pending_ids (qs_pending st))"
    "qs_paused_since_ms st' = Some t"
    "unat (qs_last_enqueued_at_ms st') = max (unat (qe_now env)) (unat (qs_last_enqueued_at_ms st) + 1)"
proof -
  let ?at = "max (qe_now env) (sat_add (qs_last_enqueued_at_ms st) 1)"
  define entry where "entry = \<lparr>pv_client_msg_id = im_client_msg_id msg, pv_conversation_id = im_conversation_id msg,
      pv_message = msg, pv_enqueued_at_ms = ?at\<rparr>"
  have succ: "unat (sat_add (qs_last_enqueued_at_ms st) 1) = unat (qs_last_enqueued_at_ms st) + 1"
    using room by (simp add: unat_sat_add)
  have keep: "qs_paused_since_ms (update_conversation_last_message env m s) = qs_paused_since_ms s"
    "qs_last_enqueued_at_ms (update_conversation_last_message env m s) = qs_last_enqueued_at_ms s" for m and s :: "'e QueueState"
    by (simp_all add: update_conversation_last_message_def Let_def call_def)
  have st': "qs_pending st' = pending_push entry (qs_pending st)" "qs_paused_since_ms st' = Some t"
    "qs_last_enqueued_at_ms st' = ?at"
    unfolding st'_def handle_command_def QueueCommand.case enqueue_def next_enqueue_ms_def Let_def prod.case
    using save paused
    by (simp_all add: try_send_next_def keep update_last_calls(2), simp_all add: call_def entry_def keep update_last_calls(2))
  have "qs_last_enqueued_at_ms st < sat_add (qs_last_enqueued_at_ms st) 1"
    unfolding word_less_nat_alt succ by simp
  then have "pv_enqueued_at_ms e < ?at" if "e \<in> set (pending_list (qs_pending st))" for e
    using clock that unfolding clock_ok_def by (meson le_less_trans less_max_iff_disj)
  then have "pending_list (pending_push entry (qs_pending st)) = pending_list (qs_pending st) @ [entry]"
    using fresh by (intro pending_list_push) (simp_all add: entry_def)
  then show "map pv_message (pending_list (qs_pending st')) = map pv_message (pending_list (qs_pending st)) @ [msg]"
    by (simp add: st' entry_def)
  show "pending_ids (qs_pending st') = insert (im_client_msg_id msg) (pending_ids (qs_pending st))"
    by (simp add: st' entry_def)
  show "qs_paused_since_ms st' = Some t" by (rule st')
  show "unat (qs_last_enqueued_at_ms st') = max (unat (qe_now env)) (unat (qs_last_enqueued_at_ms st) + 1)"
    unfolding st' succ [symmetric] by (simp add: max_def word_le_nat_alt)
qed

section \<open>The probe timer\<close>

lemma sat_add_le:
  fixes now :: u64
  assumes "now \<noteq> - 1"
  shows "sat_add x y \<le> now \<longleftrightarrow> unat x + unat y \<le> unat now"
proof -
  have "unat now \<noteq> unat (- 1 :: u64)" using assms unfolding word_unat_eq_iff .
  then have "unat now < 2 ^ 64 - 1" using unat_bound64 [of now] by (simp add: unat_minus_one_word)
  then show ?thesis by (auto simp: word_le_nat_alt unat_sat_add min_def)
qed

lemma le_sat_sub: "0 < unat c \<Longrightarrow> c \<le> sat_sub now x \<longleftrightarrow> unat x + unat c \<le> unat (now :: u64)"
  unfolding word_le_nat_alt unat_sat_sub by linarith

lemma probe_condition:
  fixes now :: u64
  assumes "now \<noteq> - 1"
  shows "should_probe gate now sents \<longleftrightarrow> (case next_due_ms gate sents of None \<Rightarrow> False | Some due \<Rightarrow> due \<le> now)"
proof -
  have stall: "SEND_STALL_PROBE_AFTER \<le> sat_sub now sent \<longleftrightarrow> sat_add sent SEND_STALL_PROBE_AFTER \<le> now" for sent
    unfolding sat_add_le [OF assms] by (rule le_sat_sub) (simp add: SEND_STALL_PROBE_AFTER_def)
  have gap: "sat_sub now probed < SEND_STALL_PROBE_MIN_INTERVAL \<longleftrightarrow> \<not> sat_add probed SEND_STALL_PROBE_MIN_INTERVAL \<le> now" for probed
    unfolding sat_add_le [OF assms] not_le [symmetric] by (subst le_sat_sub) (simp_all add: SEND_STALL_PROBE_MIN_INTERVAL_def)
  have earliest: "sat_add (fold min xs x) SEND_STALL_PROBE_AFTER \<le> now \<longleftrightarrow>
      sat_add x SEND_STALL_PROBE_AFTER \<le> now \<or> (\<exists>y\<in>set xs. sat_add y SEND_STALL_PROBE_AFTER \<le> now)" for x xs
  proof (induction xs arbitrary: x)
    case (Cons y ys)
    have "sat_add (min y x) SEND_STALL_PROBE_AFTER \<le> now \<longleftrightarrow>
        sat_add x SEND_STALL_PROBE_AFTER \<le> now \<or> sat_add y SEND_STALL_PROBE_AFTER \<le> now"
      unfolding sat_add_le [OF assms] by (auto simp: min_def word_le_nat_alt)
    then show ?case using Cons.IH [of "min y x"] by auto
  qed simp
  show ?thesis
  proof (cases "filter (\<lambda>sent. sent \<ge> pg_since_ms gate) sents")
    case Nil
    then show ?thesis by (auto simp: should_probe_def next_due_ms_def filter_empty_conv list_ex_iff)
  next
    case (Cons x xs)
    have "list_ex (\<lambda>sent. sent \<ge> pg_since_ms gate \<and> sat_sub now sent \<ge> SEND_STALL_PROBE_AFTER) sents \<longleftrightarrow>
        (\<exists>y\<in>set (filter (\<lambda>sent. sent \<ge> pg_since_ms gate) sents). sat_add y SEND_STALL_PROBE_AFTER \<le> now)"
      by (auto simp: list_ex_iff stall)
    also have "\<dots> \<longleftrightarrow> sat_add (fold min xs x) SEND_STALL_PROBE_AFTER \<le> now" by (simp add: Cons earliest)
    finally show ?thesis
      by (auto simp: should_probe_def next_due_ms_def Cons Let_def gap split: option.split)
  qed
qed

section \<open>The window\<close>

lemma length_update_le: "length (AList.update k v xs) \<le> Suc (length xs)"
  by (induction xs) auto

lemma dispatch_one_window:
  "qs_window (dispatch_one env local entry st) = qs_window st \<and>
   length (qs_in_flight (dispatch_one env local entry st)) \<le> Suc (length (qs_in_flight st))"
  by (simp add: dispatch_one_def Let_def fail_entry_def publish_send_failed_def dispatch_send_attempt_def step_defs
      length_update_le le_SucI split: PendingDispatchDecision.split)

definition within_window :: "'e QueueState \<Rightarrow> 'e QueueState \<Rightarrow> bool" where
  "within_window st st' \<longleftrightarrow> qs_window st' = qs_window st \<and>
     length (qs_in_flight st') \<le> max (length (qs_in_flight st)) (aw_current (qs_window st))"

lemma within_window_trans: "within_window a b \<Longrightarrow> within_window b c \<Longrightarrow> within_window a c"
  by (auto simp: within_window_def)

lemma dispatch_entries_window:
  "dispatch_entries env local entries made_progress st = (st', returned, progress) \<Longrightarrow> within_window st st'"
proof (induction entries arbitrary: made_progress st)
  case (Cons entry entries)
  from Cons.prems show ?case
  proof (cases rule: dispatch_entries_ConsE)
    case next_entry
    have "within_window st (dispatch_one env local entry st)"
      using dispatch_one_window [of env local entry st] next_entry(2) by (auto simp: within_window_def)
    then show ?thesis by (rule within_window_trans) (rule Cons.IH [OF next_entry(1)])
  qed (simp_all add: within_window_def note_writer_full_def)
qed (simp add: within_window_def)

lemma try_send_loop_window: "within_window st (try_send_loop env st)"
proof (induction env st rule: try_send_loop.induct)
  case (1 env st)
  obtain st' returned progress where
    eq: "dispatch_entries env (dispatch_snapshots env (pick_entries st)) (pick_entries st) False st =
      (st', returned, progress)" by (metis prod_cases3)
  note st' = dispatch_entries_window [OF eq]
  have "within_window st st" by (simp add: within_window_def)
  then show ?case
    using "1.IH" st' within_window_trans [OF st'] by (subst try_send_loop.simps) (simp add: eq)
qed

section \<open>An example queue\<close>

definition example_proto :: delivery_proto where
  "example_proto = \<lparr>dp_created = 1, dp_sent = 2, dp_failed = 9, dp_persisted = 4,
     dp_durability = (\<lambda>n. if n = 4 then DuPersisted else DuUnspecified),
     dp_error_code = (\<lambda>_. None), dp_code_name = (\<lambda>_. [])\<rparr>"

definition example_env :: "u64 \<Rightarrow> unit queue_env" where
  "example_env now = \<lparr>qe_proto = example_proto, qe_cancelled = OtherError None [], qe_now = now, qe_user = ''u'',
     qe_get_by_client_msg_ids = (\<lambda>_. Some []), qe_get_by_client_msg_id = (\<lambda>_. None), qe_save_ok = (\<lambda>_. True),
     qe_update_ok = (\<lambda>_ _. True), qe_heal_cross_account = (\<lambda>_ _. Some []), qe_heal_orphan = (\<lambda>_ _. Some []),
     qe_text_for_storage = (\<lambda>_. None)\<rparr>"

definition example_config :: "bool \<Rightarrow> queue_config" where
  "example_config paused = \<lparr>qc_timeout_secs = Some 10, qc_max_retries = Some 1, qc_max_in_flight = None,
     qc_start_paused = paused, qc_link_probe = True\<rparr>"

definition example_start :: "bool \<Rightarrow> unit QueueState" where
  "example_start paused = spawn (example_env 0) (example_config paused) PendingEntries_default"

definition example_queue :: "unit QueueState" where
  "example_queue =
     fst (handle_command (example_env 5) (Enqueue (example_row ''m'' 0 5 False False)) (example_start False))"

definition example_entry :: "unit PendingSendVo" where
  "example_entry = \<lparr>pv_client_msg_id = ''m'', pv_conversation_id = ''c'',
     pv_message = example_row ''m'' 0 5 False False, pv_enqueued_at_ms = 5\<rparr>"

lemma pending_ok_default: "pending_ok PendingEntries_default"
  by (simp add: pending_ok_def PendingEntries_default_def)

lemma example_reachable:
  "queue_reachable (example_config paused) PendingEntries_default (example_start paused)"
  "queue_reachable (example_config False) PendingEntries_default example_queue"
  unfolding example_start_def example_queue_def
  by (rule reach_spawn, rule reach_step [OF reach_spawn step_command])

lemma example_start_eq:
  "example_start paused = \<lparr>qs_pending = PendingEntries_default, qs_timeout_ms = 10000, qs_max_retries = 1,
     qs_max_in_flight = 32, qs_window = \<lparr>aw_current = 4, aw_max = 32, aw_consecutive_successes = 0\<rparr>,
     qs_in_flight = [], qs_awaiting_durable = [], qs_retry_count = Map.empty, qs_retry_backoff = [],
     qs_link_probe = True, qs_stall_probe_gate = \<lparr>pg_since_ms = 0, pg_last_probe_ms = None\<rparr>,
     qs_paused_since_ms = (if paused then Some 0 else None),
     qs_last_enqueued_at_ms = 0, qs_writer = [], qs_writer_full_warned_at_ms = 0,
     qs_dispatch_generation = 0, qs_calls = []\<rparr>"
  by (simp add: example_start_def spawn_def seed_enqueue_clock_def note_persisted_enqueue_times_def Let_def
      example_config_def example_env_def RELIABLE_QUEUE_MAX_IN_FLIGHT_def AdaptiveInFlightWindow_new_def
      ADAPTIVE_MIN_IN_FLIGHT_def ADAPTIVE_INITIAL_MAX_IN_FLIGHT_def PendingEntries_default_def pending_list_def
      ordered_def sort_by_def)

definition example_ready :: "unit QueueState" where
  "example_ready = (example_start False)\<lparr>qs_pending := \<lparr>pe_by_id = [(0, example_entry)], pe_next_seq = 1\<rparr>,
     qs_last_enqueued_at_ms := 5,
     qs_calls := [SaveBatch (optimistic_message 5 (example_row ''m'' 0 5 False False)),
       UpdateLastMessage ''c'' ''m'' ''u'' 5 None 0,
       PublishReceived (optimistic_message 5 (example_row ''m'' 0 5 False False))]\<rparr>"

definition example_sent :: "unit QueueState" where
  "example_sent = example_ready\<lparr>qs_in_flight := [(''m'', \<lparr>if_entry = example_entry, if_deadline_ms = 10005,
       if_sent_at_ms = 5, if_send_failed = False\<rparr>)],
     qs_writer := [\<lparr>sj_entry = example_entry, sj_retries = 0, sj_generation = 0\<rparr>]\<rparr>"

lemma example_dispatch:
  "pick_entries example_ready = [example_entry]"
  "dispatch_entries (example_env 5) Map.empty [example_entry] False example_ready = (example_sent, False, True)"
  "pick_entries example_sent = []"
proof -
  have [simp]: "trim ''u'' = ''u''" by code_simp
  show "pick_entries example_ready = [example_entry]"
    by (simp add: example_ready_def example_start_eq pick_entries_def list_oldest_excluding_def excluded_ids_def
        ordered_def sort_by_def)
  show "dispatch_entries (example_env 5) Map.empty [example_entry] False example_ready = (example_sent, False, True)"
    by (simp add: example_sent_def example_ready_def example_start_eq example_entry_def example_env_def example_row_def
        retries_of_def decide_pending_dispatch_def writer_capacity_def dispatch_send_attempt_def in_flight_insert_def
        deadline_after_def sat_add_def)
  show "pick_entries example_sent = []"
    by (simp add: example_sent_def example_ready_def example_start_eq pick_entries_def list_oldest_excluding_def
        excluded_ids_def ordered_def sort_by_def example_entry_def)
qed

lemma example_queue_eq: "example_queue = example_sent"
proof -
  have trims: "trim ''c'' = ''c''" "trim ''m'' = ''m''" by code_simp+
  have ready: "example_queue = try_send_next (example_env 5) example_ready"
    by (simp add: example_queue_def handle_command_def enqueue_def next_enqueue_ms_def Let_def example_ready_def
        example_start_eq example_entry_def example_env_def sat_add_def update_conversation_last_message_def call_def
        pending_push_def PendingEntries_default_def optimistic_message_def example_row_def trims
        conversation_projection_ts_def timeline_sort_ts_def)
  have "dispatch_snapshots (example_env 5) [example_entry] = Map.empty"
    by (simp add: dispatch_snapshots_def example_env_def snapshot_by_id_def)
  then have "try_send_loop (example_env 5) example_ready = try_send_loop (example_env 5) example_sent"
    by (subst try_send_loop.simps)
       (simp only: example_dispatch prod.case, simp add: example_ready_def example_start_eq)
  also have "\<dots> = example_sent" by (subst try_send_loop.simps) (simp add: example_dispatch)
  finally show ?thesis by (simp add: ready try_send_next_def) (simp add: example_ready_def example_start_eq)
qed

text \<open>Enqueueing: the push, then a dispatch that only takes out.\<close>

lemma enqueue_split:
  assumes "\<And>m. qe_save_ok env m"
  shows "\<exists>st1 new. evolves env st1 (fst (enqueue env msg st)) \<and> qs_calls st1 = qs_calls st @ new \<and> failed_in new = {} \<and>
    pending_ids (qs_pending st) \<subseteq> pending_ids (qs_pending st1)"
proof -
  define at where "at = max (qe_now env) (sat_add (qs_last_enqueued_at_ms st) 1)"
  define entry where "entry = \<lparr>pv_client_msg_id = im_client_msg_id msg, pv_conversation_id = im_conversation_id msg,
      pv_message = msg, pv_enqueued_at_ms = at\<rparr>"
  define st0 where "st0 = call (SaveBatch (optimistic_message at msg)) (st\<lparr>qs_last_enqueued_at_ms := at\<rparr>)"
  define st1 where "st1 = st0\<lparr>qs_pending := pending_push entry (qs_pending st0)\<rparr>"
  have "evolves env st1 (fst (enqueue env msg st))"
    unfolding enqueue_def next_enqueue_ms_def Let_def prod.case
    using assms
    by (simp only: simp_thms if_False fst_conv flip: at_def entry_def st0_def st1_def)
       (intro evolves_try_send_next evolves_call evolves_update_last; simp)
  moreover have "qs_calls st1 = qs_calls st @ [SaveBatch (optimistic_message at msg)]"
    by (simp add: st1_def st0_def call_def)
  moreover have "pending_ids (qs_pending st) \<subseteq> pending_ids (qs_pending st1)"
    by (auto simp: st1_def st0_def)
  ultimately show ?thesis by (intro exI [of _ st1] exI [of _ "[SaveBatch (optimistic_message at msg)]"]) simp
qed

section \<open>Properties\<close>



text \<open>C40. Every reachable state is well formed: each table files an entry under its own client message
  id, the outbox holds an id once, no retry count passes the budget, the window stays between one and
  the configured limit (itself between 1 and 1024), and no entry is newer than the enqueue clock.\<close>

theorem queue_state_well_formed:
  assumes "pending_ok store" "queue_reachable config store st"
  shows "list_all (\<lambda>(k, f). pv_client_msg_id (if_entry f) = k) (qs_in_flight st) \<and>
    list_all (\<lambda>(k, a). pv_client_msg_id (ad_entry a) = k) (qs_awaiting_durable st) \<and>
    distinct (map pv_client_msg_id (pending_list (qs_pending st))) \<and>
    ran (qs_retry_count st) \<subseteq> {..qs_max_retries st} \<and>
    aw_current (qs_window st) \<in> {1..qs_max_in_flight st} \<and> qs_max_in_flight st \<in> {1..1024} \<and>
    pv_enqueued_at_ms ` set (pending_list (qs_pending st)) \<subseteq> {..qs_last_enqueued_at_ms st}"
proof -
  have inv: "queue_inv st" by (rule reachable_inv [OF assms])
  then have "distinct (map pv_client_msg_id (pending_list (qs_pending st)))"
    by (intro memory.list_distinct) (simp add: queue_inv_def)
  moreover have "ran (qs_retry_count st) \<subseteq> {..qs_max_retries st}"
    using inv by (auto simp: queue_inv_def retries_ok_def ran_def)
  moreover have "pv_enqueued_at_ms ` set (pending_list (qs_pending st)) \<subseteq> {..qs_last_enqueued_at_ms st}"
    using inv by (auto simp: queue_inv_def clock_ok_def)
  ultimately show ?thesis
    using inv by (simp add: queue_inv_def tables_ok_def window_in_range_def list_all_iff)
qed

theorem queue_state_well_formed_witness:
  "aw_current (qs_window example_queue) \<in> {1..qs_max_in_flight example_queue} \<and>
   pv_enqueued_at_ms ` set (pending_list (qs_pending example_queue)) \<subseteq> {..qs_last_enqueued_at_ms example_queue}"
  using queue_state_well_formed [OF pending_ok_default example_reachable(2)] by simp



text \<open>C9. The queue does not idle while it could send: after \<open>try_send_next\<close> on a running link the
  window is full, or the writer is full, or every message of the outbox is in flight, awaiting its
  acknowledgement or backing off; and the messages in flight never exceed the window by it.\<close>

theorem no_sendable_message_waits:
  "(case qs_paused_since_ms st of
      Some t \<Rightarrow> try_send_next env st = st
    | None \<Rightarrow>
        (let st' = try_send_next env st in
         (aw_current (qs_window st') \<le> length (qs_in_flight st') \<or> writer_capacity st' = 0 \<or>
          pending_ids (qs_pending st') \<subseteq> set (excluded_ids st')) \<and>
         length (qs_in_flight st') \<le> max (length (qs_in_flight st)) (aw_current (qs_window st'))))"
  using try_send_loop_blocked [of env st] try_send_loop_window [of st env]
  by (auto simp: try_send_next_def send_blocked_def dispatchable_def within_window_def Let_def split: option.split)





text \<open>C17. While the link is down the outbox is a first-in-first-out list: messages with new ids are
  appended in the order in which they were enqueued, whatever the clock says, even when it stands
  still or runs backwards.\<close>

theorem offline_outbox_is_fifo:
  assumes "queue_inv st" "qs_paused_since_ms st = Some t"
    and "distinct (map (im_client_msg_id \<circ> snd) sends)"
    and "im_client_msg_id ` snd ` set sends \<inter> pending_ids (qs_pending st) = {}"
    and "\<And>env m. env \<in> fst ` set sends \<Longrightarrow> qe_save_ok env m"
    and "\<And>env. env \<in> fst ` set sends \<Longrightarrow> unat (qe_now env) + length sends < 2 ^ 64"
    and "unat (qs_last_enqueued_at_ms st) + length sends < 2 ^ 64"
  shows "map pv_message (pending_list (qs_pending
      (fold (\<lambda>(env, m) st. fst (handle_command env (Enqueue m) st)) sends st))) =
    map pv_message (pending_list (qs_pending st)) @ map snd sends"
  using assms
proof (induction sends arbitrary: st)
  case (Cons x sends)
  obtain env m where x: "x = (env, m)" by fastforce
  let ?st = "fst (handle_command env (Enqueue m) st)"
  have one: "map pv_message (pending_list (qs_pending ?st)) = map pv_message (pending_list (qs_pending st)) @ [m]"
    "pending_ids (qs_pending ?st) = insert (im_client_msg_id m) (pending_ids (qs_pending st))"
    "qs_paused_since_ms ?st = Some t"
    "unat (qs_last_enqueued_at_ms ?st) = max (unat (qe_now env)) (unat (qs_last_enqueued_at_ms st) + 1)"
    using paused_enqueue [of st t env m] Cons.prems by (simp_all add: x queue_inv_def)
  have "map pv_message (pending_list (qs_pending
      (fold (\<lambda>(env, m) st. fst (handle_command env (Enqueue m) st)) sends ?st))) =
    map pv_message (pending_list (qs_pending ?st)) @ map snd sends"
  proof (rule Cons.IH)
    show "queue_inv ?st" by (rule inv_handle_command [OF Cons.prems(1)])
    show "unat (qs_last_enqueued_at_ms ?st) + length sends < 2 ^ 64"
      using Cons.prems(6) [of env] Cons.prems(7) by (simp add: one(4) x)
    show "im_client_msg_id ` snd ` set sends \<inter> pending_ids (qs_pending ?st) = {}"
      using Cons.prems(3,4) by (simp add: one(2) x image_image) 
    show "unat (qe_now env') + length sends < 2 ^ 64" if "env' \<in> fst ` set sends" for env'
      using Cons.prems(6) [of env'] that by simp
  qed (use Cons.prems(3,5) one(3) in simp_all)
  then show ?case by (simp add: x one(1))
qed simp

theorem offline_outbox_is_fifo_witness:
  "(let a = example_row ''a'' 0 9 False False; b = example_row ''b'' 0 3 False False
    in map pv_message (pending_list (qs_pending
      (fold (\<lambda>(env, m) st. fst (handle_command env (Enqueue m) st)) [(example_env 9, a), (example_env 3, b)]
        (example_start True)))) = [a, b])"
proof -
  let ?sends = "[(example_env 9, example_row ''a'' 0 9 False False), (example_env 3, example_row ''b'' 0 3 False False)]"
  have inv: "queue_inv (example_start True)" by (rule reachable_inv [OF pending_ok_default example_reachable(1)])
  have start: "qs_paused_since_ms (example_start True) = Some 0" "pending_list (qs_pending (example_start True)) = []"
      "pending_ids (qs_pending (example_start True)) = {}" "qs_last_enqueued_at_ms (example_start True) = 0"
    by (simp_all add: example_start_eq PendingEntries_default_def pending_list_def ordered_def sort_by_def pending_ids_def)
  have "map pv_message (pending_list (qs_pending
      (fold (\<lambda>(env, m) st. fst (handle_command env (Enqueue m) st)) ?sends (example_start True)))) =
    map pv_message (pending_list (qs_pending (example_start True))) @ map snd ?sends"
  proof (rule offline_outbox_is_fifo [OF inv start(1)])
    show "distinct (map (im_client_msg_id \<circ> snd) ?sends)" by (simp add: example_row_def)
  qed (auto simp: start example_env_def)
  then show ?thesis by (simp only: Let_def start list.map append_Nil snd_conv)
qed

text \<open>The timer of the connection probe agrees with its condition: a probe is called for exactly
  from the moment that \<open>next_due_ms\<close> gives on, and never when it gives none.\<close>

theorem probe_timer_exact:
  assumes "now \<noteq> - 1"
  shows "should_probe gate now sents \<longleftrightarrow> (case next_due_ms gate sents of None \<Rightarrow> False | Some due \<Rightarrow> due \<le> now)"
  by (rule probe_condition [OF assms])

theorem probe_timer_exact_witness:
  "should_probe \<lparr>pg_since_ms = 10, pg_last_probe_ms = Some 500\<rparr> 30500 [5, 20000] \<and>
   \<not> should_probe \<lparr>pg_since_ms = 10, pg_last_probe_ms = Some 500\<rparr> 30499 [5, 20000]"
  by (subst (1 2) probe_timer_exact) (simp_all add: next_due_ms_def SEND_STALL_PROBE_AFTER_def
      SEND_STALL_PROBE_MIN_INTERVAL_def sat_add_def max_def)

end
