(* ===== verification/Net_Text.thy ===== *)
theory Net_Text
  imports Text
begin

text \<open>
  The operations of the Rust standard library on network texts that the access crate uses:
  \<open>str::split_once\<close>, \<open>strip_prefix\<close> and \<open>strip_suffix\<close>, \<open>String::from_utf8_lossy\<close>, and the
  textual forms of \<open>Ipv4Addr\<close> and \<open>Ipv6Addr\<close>. An address is the list of its octets or of its
  16-bit segments. The parsers return what they read and the rest of the input, as the
  \<open>Parser\<close> of \<open>core::net\<close> does.
\<close>

named_theorems net_simps \<open>operations on network texts\<close>

section \<open>Definitions\<close>

subsection \<open>Cutting strings\<close>

fun split_once :: "char \<Rightarrow> string \<Rightarrow> (string \<times> string) option" where
  "split_once c [] = None"
| "split_once c (x # xs) =
     (if x = c then Some ([], xs) else map_option (\<lambda>(h, t). (x # h, t)) (split_once c xs))"

definition strip_prefix :: "string \<Rightarrow> string \<Rightarrow> string option" where
  "strip_prefix p s = (if prefix p s then Some (drop (length p) s) else None)"

definition strip_suffix :: "string \<Rightarrow> string \<Rightarrow> string option" where
  "strip_suffix p s = (if suffix p s then Some (take (length s - length p) s) else None)"

subsection \<open>Bytes\<close>

definition is_ascii :: "char \<Rightarrow> bool" where
  "is_ascii c \<longleftrightarrow> (of_char c :: nat) < 128"

definition is_ascii_alphabetic :: "char \<Rightarrow> bool" where
  "is_ascii_alphabetic c \<longleftrightarrow>
     (let n = of_char c :: nat in 65 \<le> n \<and> n \<le> 90 \<or> 97 \<le> n \<and> n \<le> 122)"

text \<open>\<open>char::to_digit(16)\<close>.\<close>

definition hex_digit :: "char \<Rightarrow> nat option" where
  "hex_digit c =
     (let n = of_char c :: nat in
      if 48 \<le> n \<and> n \<le> 57 then Some (n - 48)
      else if 65 \<le> n \<and> n \<le> 70 then Some (n - 55)
      else if 97 \<le> n \<and> n \<le> 102 then Some (n - 87)
      else None)"

definition is_ascii_hexdigit :: "char \<Rightarrow> bool" where
  "is_ascii_hexdigit c \<longleftrightarrow> hex_digit c \<noteq> None"

subsection \<open>UTF-8\<close>

definition byte_in :: "string \<Rightarrow> nat \<Rightarrow> nat \<Rightarrow> bool" where
  "byte_in s lo hi \<longleftrightarrow> (case s of [] \<Rightarrow> False | c # _ \<Rightarrow> lo \<le> (of_char c :: nat) \<and> (of_char c :: nat) \<le> hi)"

text \<open>
  The range of the second byte that \<open>Utf8Chunks\<close> accepts after a lead byte of a sequence of
  two, three or four bytes, with the number of continuation bytes that follow it.
\<close>

definition utf8_lead :: "nat \<Rightarrow> (nat \<times> nat \<times> nat) option" where
  "utf8_lead b =
     (if 0xC2 \<le> b \<and> b \<le> 0xDF then Some (0x80, 0xBF, 0)
      else if b = 0xE0 then Some (0xA0, 0xBF, 1)
      else if 0xE1 \<le> b \<and> b \<le> 0xEC then Some (0x80, 0xBF, 1)
      else if b = 0xED then Some (0x80, 0x9F, 1)
      else if 0xEE \<le> b \<and> b \<le> 0xEF then Some (0x80, 0xBF, 1)
      else if b = 0xF0 then Some (0x90, 0xBF, 2)
      else if 0xF1 \<le> b \<and> b \<le> 0xF3 then Some (0x80, 0xBF, 2)
      else if b = 0xF4 then Some (0x80, 0x8F, 2)
      else None)"

fun continuations :: "nat \<Rightarrow> string \<Rightarrow> nat" where
  "continuations 0 s = 0"
| "continuations (Suc n) s = (if byte_in s 0x80 0xBF then Suc (continuations n (tl s)) else 0)"

text \<open>One step: how many bytes are taken and whether they are a character.\<close>

definition utf8_step :: "char \<Rightarrow> string \<Rightarrow> nat \<times> bool" where
  "utf8_step c s =
     (if is_ascii c then (1, True)
      else case utf8_lead (of_char c) of
        None \<Rightarrow> (1, False)
      | Some (lo, hi, n) \<Rightarrow>
          if byte_in s lo hi
          then let k = continuations n (tl s) in (2 + k, k = n)
          else (1, False))"

function from_utf8_lossy :: "string \<Rightarrow> string" where
  "from_utf8_lossy [] = []"
| "from_utf8_lossy (c # s) =
     (let (k, ok) = utf8_step c s in
      (if ok then take k (c # s) else [CHR 0xEF, CHR 0xBF, CHR 0xBD]) @
      from_utf8_lossy (drop k (c # s)))"
  by pat_completeness auto

termination
proof (relation "measure length")
  fix c :: char and s x k ok
  assume "x = utf8_step c s" "(k, ok) = x"
  then have "0 < k"
    by (auto simp: utf8_step_def Let_def split: if_splits option.splits)
  then show "(drop k (c # s), c # s) \<in> measure length"
    by simp
qed simp

function is_utf8 :: "string \<Rightarrow> bool" where
  "is_utf8 [] = True"
| "is_utf8 (c # s) = (let (k, ok) = utf8_step c s in ok \<and> is_utf8 (drop k (c # s)))"
  by pat_completeness auto

termination
proof (relation "measure length")
  fix c :: char and s x k ok
  assume "x = utf8_step c s" "(k, ok) = x"
  then have "0 < k"
    by (auto simp: utf8_step_def Let_def split: if_splits option.splits)
  then show "(drop k (c # s), c # s) \<in> measure length"
    by simp
qed simp

subsection \<open>IP addresses\<close>

datatype IpAddr = V4 "nat list" | V6 "nat list"

text \<open>
  \<open>read_number\<close>: at least one digit of the radix, at most \<open>max_digits\<close>, below the bound of the
  integer type, and no superfluous leading zero where the caller forbids it. Digits are read
  greedily, so one digit too many is a failure.
\<close>

definition radix_digit :: "nat \<Rightarrow> char \<Rightarrow> nat option" where
  "radix_digit radix c =
     (case hex_digit c of None \<Rightarrow> None | Some d \<Rightarrow> if d < radix then Some d else None)"

definition read_number :: "nat \<Rightarrow> nat \<Rightarrow> nat \<Rightarrow> bool \<Rightarrow> string \<Rightarrow> (nat \<times> string) option" where
  "read_number radix max_digits bound allow_zero_prefix s =
     (let ds = takeWhile (\<lambda>c. radix_digit radix c \<noteq> None) s;
          n = fold (\<lambda>c n. radix * n + the (radix_digit radix c)) ds 0 in
      if ds = [] \<or> max_digits < length ds \<or> bound \<le> n then None
      else if \<not> allow_zero_prefix \<and> hd ds = CHR ''0'' \<and> 1 < length ds then None
      else Some (n, drop (length ds) s))"

definition read_given_char :: "char \<Rightarrow> string \<Rightarrow> string option" where
  "read_given_char c s = (case s of [] \<Rightarrow> None | x # xs \<Rightarrow> if x = c then Some xs else None)"

definition read_separator ::
  "char \<Rightarrow> nat \<Rightarrow> (string \<Rightarrow> ('a \<times> string) option) \<Rightarrow> string \<Rightarrow> ('a \<times> string) option" where
  "read_separator sep index inner s =
     (if index = 0 then inner s
      else case read_given_char sep s of None \<Rightarrow> None | Some s \<Rightarrow> inner s)"

fun read_octets :: "nat \<Rightarrow> nat \<Rightarrow> string \<Rightarrow> (nat list \<times> string) option" where
  "read_octets 0 i s = Some ([], s)"
| "read_octets (Suc n) i s =
     (case read_separator (CHR ''.'') i (read_number 10 3 256 False) s of
        None \<Rightarrow> None
      | Some (octet, s) \<Rightarrow>
          (case read_octets n (Suc i) s of
             None \<Rightarrow> None
           | Some (octets, s) \<Rightarrow> Some (octet # octets, s)))"

definition read_ipv4_addr :: "string \<Rightarrow> (nat list \<times> string) option" where
  "read_ipv4_addr s = read_octets 4 0 s"

text \<open>
  \<open>read_groups\<close>: up to \<open>limit\<close> groups from index \<open>i\<close>, ended by an embedded IPv4 address where
  two groups are left; the groups, whether an IPv4 address ended them, and the rest.
\<close>

fun read_groups :: "nat \<Rightarrow> nat \<Rightarrow> string \<Rightarrow> nat list \<times> bool \<times> string" where
  "read_groups 0 i s = ([], False, s)"
| "read_groups (Suc left) i s =
     (case (if 0 < left then read_separator (CHR '':'') i read_ipv4_addr s else None) of
        Some ([a, b, c, d], s) \<Rightarrow> ([256 * a + b, 256 * c + d], True, s)
      | _ \<Rightarrow>
         (case read_separator (CHR '':'') i (read_number 16 4 65536 True) s of
            None \<Rightarrow> ([], False, s)
          | Some (g, s) \<Rightarrow>
              (case read_groups left (Suc i) s of (gs, v4, s) \<Rightarrow> (g # gs, v4, s))))"

definition read_ipv6_addr :: "string \<Rightarrow> (nat list \<times> string) option" where
  "read_ipv6_addr s =
     (case read_groups 8 0 s of (head, head_ipv4, rest) \<Rightarrow>
        if length head = 8 then Some (head, rest)
        else if head_ipv4 then None
        else case read_given_char (CHR '':'') rest of
               None \<Rightarrow> None
             | Some rest \<Rightarrow>
                 (case read_given_char (CHR '':'') rest of
                    None \<Rightarrow> None
                  | Some rest \<Rightarrow>
                      (case read_groups (8 - (length head + 1)) 0 rest of (tail, _, rest) \<Rightarrow>
                         Some (head @ replicate (8 - length head - length tail) 0 @ tail, rest))))"

definition parse_all :: "(string \<Rightarrow> ('a \<times> string) option) \<Rightarrow> string \<Rightarrow> 'a option" where
  "parse_all p s = (case p s of Some (a, []) \<Rightarrow> Some a | _ \<Rightarrow> None)"

definition parse_ipv4 :: "string \<Rightarrow> nat list option" where
  "parse_ipv4 s = (if 15 < length s then None else parse_all read_ipv4_addr s)"

definition parse_ipv6 :: "string \<Rightarrow> nat list option" where
  "parse_ipv6 s = parse_all read_ipv6_addr s"

definition parse_ip :: "string \<Rightarrow> IpAddr option" where
  "parse_ip s =
     parse_all (\<lambda>s. case read_ipv4_addr s of
                     Some (a, rest) \<Rightarrow> Some (V4 a, rest)
                   | None \<Rightarrow> map_option (\<lambda>(a, rest). (V6 a, rest)) (read_ipv6_addr s)) s"

text \<open>\<open>{:x}\<close> of a segment, and the canonical text of an IPv6 address.\<close>

definition lower_hex_digit :: "nat \<Rightarrow> char" where
  "lower_hex_digit d = (if d < 10 then char_of (48 + d) else char_of (87 + d))"

fun hex_text :: "nat \<Rightarrow> string" where
  "hex_text n = (if n < 16 then [lower_hex_digit n] else hex_text (n div 16) @ [lower_hex_digit (n mod 16)])"

declare hex_text.simps [simp del]

text \<open>The first longest run of zero segments: its start and its length.\<close>

fun zero_runs :: "nat \<Rightarrow> nat list \<Rightarrow> (nat \<times> nat) \<Rightarrow> (nat \<times> nat) \<Rightarrow> nat \<times> nat" where
  "zero_runs i [] longest current = longest"
| "zero_runs i (g # gs) longest current =
     (if g = 0 then
        let current = (if snd current = 0 then (i, 1) else (fst current, snd current + 1));
            longest = (if snd longest < snd current then current else longest) in
        zero_runs (Suc i) gs longest current
      else zero_runs (Suc i) gs longest (0, 0))"

definition ipv6_display :: "nat list \<Rightarrow> string" where
  "ipv6_display segments =
     (let (start, len) = zero_runs 0 segments (0, 0) (0, 0);
          text = (\<lambda>gs. join_on (CHR '':'') (map hex_text gs)) in
      if 1 < len
      then text (take start segments) @ ''::'' @ text (drop (start + len) segments)
      else text segments)"

definition to_ipv4_mapped :: "nat list \<Rightarrow> nat list option" where
  "to_ipv4_mapped segments =
     (if take 6 segments = [0, 0, 0, 0, 0, 0xFFFF]
      then Some [segments ! 6 div 256, segments ! 6 mod 256, segments ! 7 div 256, segments ! 7 mod 256]
      else None)"

section \<open>Lemmas\<close>

subsection \<open>Cutting strings\<close>

lemma split_once_None [net_simps]: "split_once c s = None \<longleftrightarrow> c \<notin> set s"
  by (induction s) auto

lemma split_once_append [net_simps]: "c \<notin> set h \<Longrightarrow> split_once c (h @ c # t) = Some (h, t)"
  by (induction h) auto

lemma split_once_Some: "split_once c s = Some (h, t) \<longleftrightarrow> s = h @ c # t \<and> c \<notin> set h"
proof (induction s arbitrary: h)
  case (Cons x s)
  show ?case
  proof (cases h)
    case Nil
    then show ?thesis by (cases "x = c") auto
  next
    case (Cons y ys)
    then show ?thesis using Cons.IH by (cases "x = c") auto
  qed
qed simp

lemma strip_prefix_append [net_simps]: "strip_prefix p (p @ s) = Some s"
  by (simp add: strip_prefix_def)

lemma strip_prefix_Some: "strip_prefix p s = Some t \<longleftrightarrow> s = p @ t"
  by (auto simp: strip_prefix_def prefix_def)

lemma strip_suffix_Some: "strip_suffix p s = Some t \<longleftrightarrow> s = t @ p"
  by (auto simp: strip_suffix_def suffix_def)

subsection \<open>UTF-8\<close>

lemma from_utf8_lossy_id [net_simps]: "is_utf8 s \<Longrightarrow> from_utf8_lossy s = s"
proof (induction s rule: is_utf8.induct)
  case (2 c s)
  then show ?case by (auto simp: Let_def split: prod.splits)
qed simp

lemma is_utf8_ascii: "list_all is_ascii s \<Longrightarrow> is_utf8 s"
  by (induction s) (simp_all add: utf8_step_def)

end
