(* ===== verification/Parsed_Url.thy ===== *)
theory Parsed_Url
  imports Net_Text
begin

text \<open>
  The URL parser of the access crate (\<open>access/src/parsed_url.rs\<close>): the accepted scheme, host,
  port, path, query and fragment, the percent-encoding of each part, the printed form, and the
  form-encoded query pairs of recovery links. The lemmas show that a parsed URL prints to a
  text that parses to the same URL, that its host has no byte another parser could read
  differently, and that form decoding undoes form encoding.
\<close>

section \<open>Definitions\<close>

datatype UrlError =
    ForbiddenCharacter
  | InvalidScheme
  | UnsupportedScheme
  | MissingAuthority
  | UserInfo
  | InvalidHost
  | InvalidPort
  | DotSegment

record ParsedUrl =
  url_scheme :: string
  url_host :: string
  url_ip :: "IpAddr option"
  url_port :: "nat option"
  url_path :: string
  url_query :: "string option"
  url_fragment :: "string option"

subsection \<open>Scheme\<close>

definition scheme_byte :: "char \<Rightarrow> bool" where
  "scheme_byte c \<longleftrightarrow> is_ascii_alphanumeric c \<or> c \<in> {CHR ''+'', CHR ''-'', CHR ''.''}"

definition parse_scheme :: "string \<Rightarrow> UrlError + string" where
  "parse_scheme raw =
     (if \<not> (raw \<noteq> [] \<and> is_ascii_alphabetic (hd raw) \<and> list_all scheme_byte raw) then Inl InvalidScheme
      else let scheme = to_ascii_lowercase raw in
           if scheme = ''file'' \<or> scheme = ''ftp'' then Inl UnsupportedScheme else Inr scheme)"

definition default_port :: "string \<Rightarrow> nat option" where
  "default_port scheme =
     (if scheme = ''http'' \<or> scheme = ''ws'' then Some 80
      else if scheme = ''https'' \<or> scheme = ''wss'' then Some 443
      else None)"

subsection \<open>Authority\<close>

definition split_tail :: "string \<Rightarrow> char \<Rightarrow> string \<times> string option" where
  "split_tail text separator =
     (case split_once separator text of
        None \<Rightarrow> (text, None)
      | Some (head, tail) \<Rightarrow> (head, Some tail))"

definition parse_port :: "string \<Rightarrow> UrlError + nat" where
  "parse_port raw =
     (if raw = [] \<or> \<not> list_all is_digit raw then Inl InvalidPort
      else if digits_value raw < 65536 then Inr (digits_value raw) else Inl InvalidPort)"

definition ipv6_text :: "nat list \<Rightarrow> string" where
  "ipv6_text address =
     (if to_ipv4_mapped address \<noteq> None
      then ''[::ffff:'' @ hex_text (address ! 6) @ '':'' @ hex_text (address ! 7) @ '']''
      else ''['' @ ipv6_display address @ '']'')"

definition host_byte :: "char \<Rightarrow> bool" where
  "host_byte c \<longleftrightarrow> is_ascii_alphanumeric c \<or> c \<in> {CHR ''.'', CHR ''-'', CHR ''_''}"

definition stem_of :: "string \<Rightarrow> string" where
  "stem_of s = (case strip_suffix ''.'' s of None \<Rightarrow> s | Some t \<Rightarrow> t)"

definition is_ipv4_number :: "string \<Rightarrow> bool" where
  "is_ipv4_number label \<longleftrightarrow>
     (case strip_prefix ''0x'' label of
        Some digits \<Rightarrow> list_all is_ascii_hexdigit digits
      | None \<Rightarrow> list_all is_digit label)"

definition parse_domain :: "string \<Rightarrow> bool \<Rightarrow> UrlError + (string \<times> IpAddr option)" where
  "parse_domain raw special =
     (if \<not> list_all host_byte raw \<or> list_ex (\<lambda>l. l = []) (split_on (CHR ''.'') (stem_of raw))
      then Inl InvalidHost
      else if \<not> special then Inr (raw, None)
      else let host = to_ascii_lowercase raw in
           if is_ipv4_number (last (split_on (CHR ''.'') (stem_of host)))
           then (case parse_ipv4 host of
                   None \<Rightarrow> Inl InvalidHost
                 | Some address \<Rightarrow> Inr (host, Some (V4 address)))
           else Inr (host, None))"

definition parse_authority ::
  "string \<Rightarrow> bool \<Rightarrow> UrlError + (string \<times> IpAddr option \<times> nat option)" where
  "parse_authority authority special =
     (if CHR ''@'' \<in> set authority then Inl UserInfo
      else case strip_prefix ''['' authority of
        Some rest \<Rightarrow>
          (case split_once (CHR '']'') rest of
             None \<Rightarrow> Inl InvalidHost
           | Some (literal, tail) \<Rightarrow>
               (case parse_ipv6 literal of
                  None \<Rightarrow> Inl InvalidHost
                | Some address \<Rightarrow>
                    (if tail = [] then Inr (ipv6_text address, Some (V6 address), None)
                     else case strip_prefix '':'' tail of
                       None \<Rightarrow> Inl InvalidHost
                     | Some port \<Rightarrow>
                         (case parse_port port of
                            Inl e \<Rightarrow> Inl e
                          | Inr p \<Rightarrow> Inr (ipv6_text address, Some (V6 address), Some p)))))
      | None \<Rightarrow>
          (case split_tail authority (CHR '':'') of (host, port) \<Rightarrow>
             (case parse_domain host special of
                Inl e \<Rightarrow> Inl e
              | Inr (host, ip) \<Rightarrow>
                  (case port of
                     None \<Rightarrow> Inr (host, ip, None)
                   | Some port \<Rightarrow>
                       (case parse_port port of
                          Inl e \<Rightarrow> Inl e
                        | Inr p \<Rightarrow> Inr (host, ip, Some p))))))"

subsection \<open>Percent-encoding\<close>

definition in_fragment_set :: "char \<Rightarrow> bool" where
  "in_fragment_set c \<longleftrightarrow> \<not> is_ascii c \<or> c \<in> {CHR 0x22, CHR ''<'', CHR ''>'', CHR 0x60}"

definition in_path_set :: "char \<Rightarrow> bool" where
  "in_path_set c \<longleftrightarrow> in_fragment_set c \<or> c \<in> {CHR ''#'', CHR ''?'', CHR ''{'', CHR ''}''}"

definition in_query_set :: "char \<Rightarrow> bool" where
  "in_query_set c \<longleftrightarrow> \<not> is_ascii c \<or> c \<in> {CHR 0x22, CHR ''#'', CHR ''<'', CHR ''>''}"

definition in_special_query_set :: "char \<Rightarrow> bool" where
  "in_special_query_set c \<longleftrightarrow> in_query_set c \<or> c = CHR 0x27"

definition upper_hex_digit :: "nat \<Rightarrow> char" where
  "upper_hex_digit d = (if d < 10 then char_of (48 + d) else char_of (55 + d))"

definition push_percent :: "char \<Rightarrow> string" where
  "push_percent c =
     [CHR ''%'', upper_hex_digit (of_char c div 16), upper_hex_digit (of_char c mod 16)]"

definition percent_encode :: "string \<Rightarrow> (char \<Rightarrow> bool) \<Rightarrow> string" where
  "percent_encode raw encoded = concat (map (\<lambda>c. if encoded c then push_percent c else [c]) raw)"

subsection \<open>Path\<close>

definition is_dot_segment :: "string \<Rightarrow> bool" where
  "is_dot_segment segment \<longleftrightarrow>
     list_ex (eq_ignore_ascii_case segment) [''.'', ''..'', ''%2e'', ''.%2e'', ''%2e.'', ''%2e%2e'']"

definition parse_path :: "string \<Rightarrow> bool \<Rightarrow> UrlError + string" where
  "parse_path raw special =
     (if list_ex is_dot_segment (split_on (CHR ''/'') raw) then Inl DotSegment
      else if special \<and> raw = [] then Inr ''/''
      else Inr (percent_encode raw in_path_set))"

subsection \<open>The whole URL\<close>

definition forbidden_byte :: "char \<Rightarrow> bool" where
  "forbidden_byte c \<longleftrightarrow> (of_char c :: nat) \<le> 32 \<or> c = CHR 0x7F \<or> c = CHR 0x5C"

text \<open>\<open>rest.split_at(rest.find('/').unwrap_or(rest.len()))\<close>.\<close>

definition split_authority :: "string \<Rightarrow> string \<times> string" where
  "split_authority rest =
     (takeWhile (\<lambda>c. c \<noteq> CHR ''/'') rest, dropWhile (\<lambda>c. c \<noteq> CHR ''/'') rest)"

definition url_parse :: "string \<Rightarrow> UrlError + ParsedUrl" where
  "url_parse input =
     (if list_ex forbidden_byte input then Inl ForbiddenCharacter
      else case split_once (CHR '':'') input of
        None \<Rightarrow> Inl InvalidScheme
      | Some (scheme, rest) \<Rightarrow>
        (case parse_scheme scheme of
           Inl e \<Rightarrow> Inl e
         | Inr scheme \<Rightarrow>
           (let special = default_port scheme \<noteq> None in
            case strip_prefix ''//'' rest of
              None \<Rightarrow> Inl MissingAuthority
            | Some rest \<Rightarrow>
              (case split_tail rest (CHR ''#'') of (rest, fragment) \<Rightarrow>
               case split_tail rest (CHR ''?'') of (rest, query) \<Rightarrow>
               case split_authority rest of (authority, path) \<Rightarrow>
               (case parse_authority authority special of
                  Inl e \<Rightarrow> Inl e
                | Inr (host, ip, port) \<Rightarrow>
                  (case parse_path path special of
                     Inl e \<Rightarrow> Inl e
                   | Inr path \<Rightarrow>
                       Inr \<lparr> url_scheme = scheme, url_host = host, url_ip = ip,
                             url_port = (case port of
                                           None \<Rightarrow> None
                                         | Some p \<Rightarrow> if default_port scheme \<noteq> Some p then Some p else None),
                             url_path = path,
                             url_query = map_option (\<lambda>q. percent_encode q
                                 (if special then in_special_query_set else in_query_set)) query,
                             url_fragment =
                               map_option (\<lambda>f. percent_encode f in_fragment_set) fragment \<rparr>))))))"

definition opt_text :: "string \<Rightarrow> string option \<Rightarrow> string" where
  "opt_text lead s = (case s of None \<Rightarrow> [] | Some t \<Rightarrow> lead @ t)"

definition url_display :: "ParsedUrl \<Rightarrow> string" where
  "url_display u =
     url_scheme u @ ''://'' @ url_host u @
     opt_text '':'' (map_option nat_digits (url_port u)) @ url_path u @
     opt_text ''?'' (url_query u) @ opt_text ''#'' (url_fragment u)"

subsection \<open>Form-encoded pairs\<close>

definition form_plain :: "char \<Rightarrow> bool" where
  "form_plain c \<longleftrightarrow>
     c \<in> {CHR ''*'', CHR ''-'', CHR ''.'', CHR ''_''} \<or> is_ascii_alphanumeric c"

definition form_encode :: "string \<Rightarrow> string" where
  "form_encode raw =
     concat (map (\<lambda>c. if c = CHR '' '' then ''+'' else if form_plain c then [c] else push_percent c) raw)"

fun form_bytes :: "string \<Rightarrow> string" where
  "form_bytes [] = []"
| "form_bytes (c # cs) =
     (if c = CHR ''+'' then CHR '' '' # form_bytes cs
      else if c = CHR ''%'' then
        (case cs of
           h # l # rest \<Rightarrow>
             (case (hex_digit h, hex_digit l) of
                (Some high, Some low) \<Rightarrow> char_of (high * 16 + low) # form_bytes rest
              | _ \<Rightarrow> c # form_bytes cs)
         | _ \<Rightarrow> c # form_bytes cs)
      else c # form_bytes cs)"

definition form_decode :: "string \<Rightarrow> string" where
  "form_decode raw = from_utf8_lossy (form_bytes raw)"

definition query_pairs :: "ParsedUrl \<Rightarrow> (string \<times> string) list" where
  "query_pairs u =
     map (\<lambda>pair. case split_once (CHR ''='') pair of
                   None \<Rightarrow> (form_decode pair, form_decode [])
                 | Some (name, val) \<Rightarrow> (form_decode name, form_decode val))
       (filter (\<lambda>pair. pair \<noteq> [])
         (split_on (CHR ''&'') (case url_query u of None \<Rightarrow> [] | Some q \<Rightarrow> q)))"

definition append_query_pair :: "string \<Rightarrow> string \<Rightarrow> ParsedUrl \<Rightarrow> ParsedUrl" where
  "append_query_pair name val u =
     (let query = (case url_query u of None \<Rightarrow> [] | Some q \<Rightarrow> q);
          query = (if query \<noteq> [] then query @ ''&'' else query) in
      u \<lparr> url_query := Some (query @ form_encode name @ ''='' @ form_encode val) \<rparr>)"

subsection \<open>Vocabulary of the lemmas\<close>

definition form_safe :: "char \<Rightarrow> bool" where
  "form_safe c \<longleftrightarrow> form_plain c \<or> c = CHR ''+'' \<or> c = CHR ''%''"

text \<open>The texts made of the segments \<open>.\<close> and \<open>%2e\<close>, in lower case.\<close>

fun dots :: "string \<Rightarrow> bool" where
  "dots [] = True"
| "dots (a # s) =
     (if a = CHR ''.'' then dots s
      else a = CHR ''%'' \<and> (case s of b # c # r \<Rightarrow> b = CHR ''2'' \<and> c = CHR ''e'' \<and> dots r | _ \<Rightarrow> False))"

text \<open>What a parsed URL promises of its parts, for hosts that are not IPv6 literals.\<close>

definition query_set_of :: "ParsedUrl \<Rightarrow> char \<Rightarrow> bool" where
  "query_set_of u = (if default_port (url_scheme u) \<noteq> None then in_special_query_set else in_query_set)"

definition url_canonical :: "ParsedUrl \<Rightarrow> bool" where
  "url_canonical u \<longleftrightarrow>
     parse_scheme (url_scheme u) = Inr (url_scheme u) \<and>
     parse_domain (url_host u) (default_port (url_scheme u) \<noteq> None) = Inr (url_host u, url_ip u) \<and>
     pred_option (\<lambda>p. p < 65536 \<and> default_port (url_scheme u) \<noteq> Some p) (url_port u) \<and>
     (url_path u = [] \<or> hd (url_path u) = CHR ''/'') \<and>
     parse_path (url_path u) (default_port (url_scheme u) \<noteq> None) = Inr (url_path u) \<and>
     list_all (\<lambda>c. \<not> forbidden_byte c \<and> c \<noteq> CHR ''#'' \<and> c \<noteq> CHR ''?'') (url_path u) \<and>
     pred_option (\<lambda>q. percent_encode q (query_set_of u) = q \<and>
                      list_all (\<lambda>c. \<not> forbidden_byte c \<and> c \<noteq> CHR ''#'') q) (url_query u) \<and>
     pred_option (\<lambda>f. percent_encode f in_fragment_set = f \<and>
                      list_all (\<lambda>c. \<not> forbidden_byte c) f) (url_fragment u)"

text \<open>A URL with an upper-case scheme and host, an explicit port and a byte to encode.\<close>

definition example_url :: string where
  "example_url = ''HTTPS://Api.Example.com:8443/v1/<x>?q=1''"

definition example_parsed :: ParsedUrl where
  "example_parsed = \<lparr> url_scheme = ''https'', url_host = ''api.example.com'', url_ip = None,
     url_port = Some 8443, url_path = ''/v1/%3Cx%3E'', url_query = Some ''q=1'', url_fragment = None \<rparr>"

section \<open>Lemmas\<close>

subsection \<open>Hexadecimal digits\<close>

lemma hex_upper_hex [net_simps]: "d < 16 \<Longrightarrow> hex_digit (upper_hex_digit d) = Some d"
  by (auto simp: hex_digit_def upper_hex_digit_def Let_def)

lemma upper_hex_alnum: "d < 16 \<Longrightarrow> is_ascii_alphanumeric (upper_hex_digit d)"
  by (auto simp: is_ascii_alphanumeric_def upper_hex_digit_def Let_def)

lemma of_char_nibbles: "(of_char c :: nat) div 16 < 16" "(of_char c :: nat) mod 16 < 16"
  using of_char_mod_256 [of c, where ?'a = nat] by (auto simp: less_mult_imp_div_less)

lemma push_percent_alnum:
  "set (push_percent c) \<subseteq> insert (CHR ''%'') {d. is_ascii_alphanumeric d}"
  by (simp add: push_percent_def upper_hex_alnum of_char_nibbles)

subsection \<open>Form encoding\<close>

lemma form_plain_not_special: "form_plain c \<Longrightarrow> c \<noteq> CHR ''+'' \<and> c \<noteq> CHR ''%'' \<and> c \<noteq> CHR '' ''"
  by (auto simp: form_plain_def is_ascii_alphanumeric_def)

lemma form_bytes_push_percent: "form_bytes (push_percent c @ s) = c # form_bytes s"
proof -
  have "char_of ((of_char c :: nat) div 16 * 16 + of_char c mod 16) = c"
    by simp
  then show ?thesis
    by (simp add: push_percent_def hex_upper_hex of_char_nibbles)
qed

theorem form_bytes_encode [net_simps]: "form_bytes (form_encode s) = s"
proof (induction s)
  case (Cons c s)
  then show ?case
    using form_plain_not_special [of c] form_bytes_push_percent [of c "form_encode s"]
    by (auto simp: form_encode_def)
qed (simp add: form_encode_def)

lemma form_decode_encode [net_simps]: "is_utf8 s \<Longrightarrow> form_decode (form_encode s) = s"
  by (simp add: form_decode_def net_simps)

lemma push_percent_safe: "list_all form_safe (push_percent c)"
  by (simp add: push_percent_def form_safe_def form_plain_def upper_hex_alnum of_char_nibbles)

lemma form_encode_safe: "list_all form_safe (form_encode s)"
proof (induction s)
  case (Cons c s)
  then show ?case
    using push_percent_safe [of c]
    by (simp add: form_encode_def) (simp add: form_safe_def)
qed (simp add: form_encode_def)

lemma form_encode_Nil: "form_encode s = [] \<longleftrightarrow> s = []"
  by (cases s) (auto simp: form_encode_def push_percent_def)

subsection \<open>Lower case\<close>

lemma ascii_lower_idem [simp]: "ascii_lower (ascii_lower c) = ascii_lower c"
  by (auto simp: ascii_lower_def Let_def)

lemma to_ascii_lowercase_idem [simp]: "to_ascii_lowercase (to_ascii_lowercase s) = to_ascii_lowercase s"
  by (simp add: to_ascii_lowercase_def)

lemma ascii_lower_alnum [simp]: "is_ascii_alphanumeric (ascii_lower c) = is_ascii_alphanumeric c"
  by (auto simp: ascii_lower_def is_ascii_alphanumeric_def Let_def)

lemma ascii_lower_alphabetic [simp]: "is_ascii_alphabetic (ascii_lower c) = is_ascii_alphabetic c"
  by (auto simp: ascii_lower_def is_ascii_alphabetic_def Let_def)

lemma ascii_lower_eq:
  assumes "ascii_lower d = d" "\<not> is_ascii_alphabetic d"
  shows "ascii_lower c = d \<longleftrightarrow> c = d"
proof
  assume "ascii_lower c = d"
  then have "\<not> is_ascii_alphabetic c"
    using assms(2) ascii_lower_alphabetic [of c] by simp
  then have "ascii_lower c = c"
    by (auto simp: ascii_lower_def is_ascii_alphabetic_def Let_def)
  with \<open>ascii_lower c = d\<close> show "c = d" by simp
qed (use assms in simp)

lemma ascii_lower_punct [simp]:
  "ascii_lower c = CHR ''.'' \<longleftrightarrow> c = CHR ''.''" "ascii_lower c = CHR ''-'' \<longleftrightarrow> c = CHR ''-''"
  "ascii_lower c = CHR ''_'' \<longleftrightarrow> c = CHR ''_''" "ascii_lower c = CHR ''+'' \<longleftrightarrow> c = CHR ''+''"
  "ascii_lower c = CHR ''%'' \<longleftrightarrow> c = CHR ''%''" "ascii_lower c = CHR ''2'' \<longleftrightarrow> c = CHR ''2''"
  by (rule ascii_lower_eq; simp add: ascii_lower_def is_ascii_alphabetic_def)+

lemma split_on_lower: "split_on (CHR ''.'') (to_ascii_lowercase s) = map to_ascii_lowercase (split_on (CHR ''.'') s)"
  by (induction s) (auto simp: to_ascii_lowercase_def split: list.splits)

lemma stem_of_snoc: "stem_of (t @ [c]) = (if c = CHR ''.'' then t else t @ [c])"
  by (auto simp: stem_of_def strip_suffix_def)

lemma stem_of_lower: "stem_of (to_ascii_lowercase s) = to_ascii_lowercase (stem_of s)"
proof (cases s rule: rev_cases)
  case (snoc t c)
  then show ?thesis
    by (simp add: to_ascii_lowercase_def stem_of_snoc)
qed (simp add: stem_of_def strip_suffix_def to_ascii_lowercase_def)

lemma host_byte_lower [simp]: "list_all host_byte (to_ascii_lowercase s) = list_all host_byte s"
  by (induction s) (auto simp: to_ascii_lowercase_def host_byte_def)

lemma to_ascii_lowercase_Nil [simp]: "to_ascii_lowercase s = [] \<longleftrightarrow> s = []"
  by (simp add: to_ascii_lowercase_def)

subsection \<open>Hosts and schemes are stable\<close>

lemma parse_domain_special: "parse_domain (to_ascii_lowercase raw) True = parse_domain raw True"
proof -
  have "list_ex (\<lambda>l. l = []) (map to_ascii_lowercase ls) = list_ex (\<lambda>l. l = []) ls" for ls
    by (induction ls) simp_all
  then show ?thesis
    unfolding parse_domain_def Let_def stem_of_lower split_on_lower
    by (simp add: comp_def cong: option.case_cong)
qed

lemma parse_domain_Inr:
  assumes "parse_domain raw special = Inr (host, ip)"
  shows "list_all host_byte raw" "raw \<noteq> []" "host = (if special then to_ascii_lowercase raw else raw)"
    "\<nexists>a. ip = Some (V6 a)"
proof -
  show "list_all host_byte raw" "raw \<noteq> []"
    using assms by (auto simp: parse_domain_def stem_of_def strip_suffix_def split: if_split_asm)
  show "host = (if special then to_ascii_lowercase raw else raw)" "\<nexists>a. ip = Some (V6 a)"
    using assms unfolding parse_domain_def Let_def
    by (auto split: if_split_asm option.split_asm)
qed

lemma parse_domain_idem:
  assumes "parse_domain raw special = Inr (host, ip)"
  shows "parse_domain host special = Inr (host, ip)"
  using assms parse_domain_Inr(3) [OF assms] parse_domain_special [of raw]
  by (cases special) simp_all

lemma parse_domain_bytes:
  assumes "parse_domain raw special = Inr (host, ip)"
  shows "list_all host_byte host" "host \<noteq> []"
  using parse_domain_Inr(1-3) [OF assms] by simp_all

lemma parse_scheme_Inr:
  "parse_scheme raw = Inr scheme \<longleftrightarrow>
     raw \<noteq> [] \<and> is_ascii_alphabetic (hd raw) \<and> list_all scheme_byte raw \<and>
     scheme = to_ascii_lowercase raw \<and> scheme \<noteq> ''file'' \<and> scheme \<noteq> ''ftp''"
  unfolding parse_scheme_def Let_def by (simp split: if_split) blast

lemma scheme_byte_lower [simp]: "list_all scheme_byte (to_ascii_lowercase s) = list_all scheme_byte s"
  by (induction s) (auto simp: to_ascii_lowercase_def scheme_byte_def)

lemma parse_scheme_idem:
  assumes "parse_scheme raw = Inr scheme"
  shows "parse_scheme scheme = Inr scheme"
proof -
  note facts = assms [unfolded parse_scheme_Inr]
  then have "is_ascii_alphabetic (hd scheme)"
    by (simp add: to_ascii_lowercase_def hd_map)
  then show ?thesis
    unfolding parse_scheme_Inr using facts by auto
qed

lemma parse_scheme_bytes: "parse_scheme raw = Inr scheme \<Longrightarrow> list_all scheme_byte scheme"
  unfolding parse_scheme_Inr by simp

subsection \<open>Percent-encoded parts are stable\<close>

lemma percent_encode_Nil [simp]: "percent_encode [] P = []"
  by (simp add: percent_encode_def)

lemma percent_encode_Cons:
  "percent_encode (c # s) P = (if P c then push_percent c else [c]) @ percent_encode s P"
  by (simp add: percent_encode_def)

lemma percent_encode_id: "\<not> list_ex P s \<Longrightarrow> percent_encode s P = s"
  by (induction s) (simp_all add: percent_encode_Cons)

lemma percent_encode_bytes:
  assumes "c \<in> set (percent_encode s P)"
  shows "c \<in> set s \<and> \<not> P c \<or> c = CHR ''%'' \<or> is_ascii_alphanumeric c"
  using assms
proof (induction s)
  case (Cons d s)
  then show ?case
    using push_percent_alnum [of d] by (auto simp: percent_encode_Cons split: if_split_asm)
qed simp

lemma encode_sets_keep:
  assumes "c = CHR ''%'' \<or> is_ascii_alphanumeric c"
  shows "\<not> in_path_set c" "\<not> in_special_query_set c" "\<not> in_query_set c" "\<not> in_fragment_set c"
    "\<not> forbidden_byte c" "c \<noteq> CHR ''#''" "c \<noteq> CHR ''?''" "c \<noteq> CHR ''/''"
  using assms
  by (auto simp: in_path_set_def in_special_query_set_def in_query_set_def in_fragment_set_def
      is_ascii_def forbidden_byte_def is_ascii_alphanumeric_def Let_def)

lemma percent_encode_idem:
  assumes "\<And>c. c = CHR ''%'' \<or> is_ascii_alphanumeric c \<Longrightarrow> \<not> P c"
  shows "percent_encode (percent_encode s P) P = percent_encode s P"
proof (rule percent_encode_id)
  show "\<not> list_ex P (percent_encode s P)"
    using percent_encode_bytes [of _ s P] assms by (auto simp: list_ex_iff)
qed

lemma is_dot_segment_dots: "is_dot_segment s \<Longrightarrow> dots (to_ascii_lowercase s)"
  by (auto simp: is_dot_segment_def eq_ignore_ascii_case_def to_ascii_lowercase_def ascii_lower_def)

lemma hex_digit_lower: "hex_digit (ascii_lower c) = hex_digit c"
  by (auto simp: hex_digit_def ascii_lower_def Let_def)

lemma lower_upper_hex:
  assumes "d < 16" "ascii_lower (upper_hex_digit d) = c"
  shows "Some d = hex_digit c"
  using hex_digit_lower [of "upper_hex_digit d"] hex_upper_hex [OF assms(1)] assms(2) by simp

lemma push_percent_not_dots:
  assumes "c \<noteq> CHR ''.''"
  shows "\<not> dots (to_ascii_lowercase (push_percent c @ s))"
proof
  assume "dots (to_ascii_lowercase (push_percent c @ s))"
  then have "ascii_lower (upper_hex_digit (of_char c div 16)) = CHR ''2''"
    "ascii_lower (upper_hex_digit (of_char c mod 16)) = CHR ''e''"
    by (simp_all add: push_percent_def to_ascii_lowercase_def ascii_lower_def [of "CHR ''%''"])
  then have "Some ((of_char c :: nat) div 16) = hex_digit (CHR ''2'')"
    "Some ((of_char c :: nat) mod 16) = hex_digit (CHR ''e'')"
    using lower_upper_hex of_char_nibbles by blast+
  then have "(of_char c :: nat) div 16 = 2" "(of_char c :: nat) mod 16 = 14"
    by (simp_all add: hex_digit_def)
  then have "(of_char c :: nat) = of_char (CHR ''.'')"
    using div_mult_mod_eq [of "of_char c :: nat" 16] by simp
  then have "c = CHR ''.''"
    by (simp only: of_char_eq_iff)
  with assms show False by simp
qed

text \<open>Percent-encoding a segment never makes it a dot segment.\<close>

lemma dots_percent_encode:
  assumes dot: "\<not> P (CHR ''.'')"
  shows "dots (to_ascii_lowercase (percent_encode s P)) \<Longrightarrow> percent_encode s P = s"
proof (induction s rule: length_induct)
  case (1 s)
  have no_percent: "c \<noteq> CHR ''.'' \<and> \<not> P c"
    if "dots (to_ascii_lowercase (percent_encode (c # r) P))" "c \<noteq> CHR ''.''" for c r
    using that push_percent_not_dots [of c "percent_encode r P"] dot
    by (auto simp: percent_encode_Cons)
  have plain: "\<not> P c \<and> ascii_lower c = a"
    if "to_ascii_lowercase (percent_encode (c # r) P) = a # t" "a \<noteq> CHR ''%''" for c r a t
    using that by (auto simp: percent_encode_Cons push_percent_def to_ascii_lowercase_def
        ascii_lower_def [of "CHR ''%''"] split: if_split_asm)
  show ?case
  proof (cases s)
    case (Cons c r)
    show ?thesis
    proof (cases "c = CHR ''.''")
      case True
      have "dots (to_ascii_lowercase (percent_encode r P))"
        using 1(2) dot unfolding Cons True
        by (simp add: percent_encode_Cons to_ascii_lowercase_def ascii_lower_def [of "CHR ''.''"])
      then show ?thesis
        using 1(1) Cons True dot by (simp add: percent_encode_Cons)
    next
      case False
      then have keep: "\<not> P c" using no_percent 1(2) Cons by blast
      have low: "to_ascii_lowercase (percent_encode s P) =
          ascii_lower c # to_ascii_lowercase (percent_encode r P)"
        using keep Cons by (simp add: percent_encode_Cons to_ascii_lowercase_def)
      obtain t where t: "to_ascii_lowercase (percent_encode r P) = CHR ''2'' # CHR ''e'' # t" "dots t"
        using 1(2) False unfolding low by (auto split: list.split_asm)
      obtain d r1 where r: "r = d # r1" using t by (cases r) (auto simp: to_ascii_lowercase_def)
      have d: "\<not> P d" using plain t(1) r by blast
      then have t1: "to_ascii_lowercase (percent_encode r1 P) = CHR ''e'' # t"
        using t(1) r by (simp add: percent_encode_Cons to_ascii_lowercase_def)
      obtain e r2 where r1: "r1 = e # r2" using t1 by (cases r1) (auto simp: to_ascii_lowercase_def)
      have e: "\<not> P e" using plain t1 r1 by blast
      then have "to_ascii_lowercase (percent_encode r2 P) = t"
        using t1 r1 by (simp add: percent_encode_Cons to_ascii_lowercase_def)
      then have "percent_encode r2 P = r2"
        using 1(1) t(2) Cons r r1 by simp
      then show ?thesis
        using Cons r r1 keep d e by (simp add: percent_encode_Cons)
    qed
  qed simp
qed

lemma is_dot_segment_encode:
  assumes "\<not> P (CHR ''.'')" "is_dot_segment (percent_encode s P)"
  shows "is_dot_segment s"
  using dots_percent_encode [OF assms(1) is_dot_segment_dots [OF assms(2)]] assms(2) by simp

lemma split_on_append_plain:
  assumes "c \<notin> set a"
  shows "split_on c (a @ s) = (a @ hd (split_on c s)) # tl (split_on c s)"
  using assms
proof (induction a)
  case Nil
  have "split_on c s \<noteq> []" by (cases s) (auto split: list.split)
  then show ?case by simp
qed auto

lemma split_on_encode:
  assumes "\<not> P c" "\<And>d. P d \<Longrightarrow> c \<notin> set (push_percent d)"
  shows "split_on c (percent_encode s P) = map (\<lambda>t. percent_encode t P) (split_on c s)"
proof (induction s)
  case (Cons d s)
  have ne: "split_on c s \<noteq> []" by (cases s) (auto split: list.split)
  then obtain x xs where xs: "split_on c s = x # xs" by (cases "split_on c s") auto
  show ?case
  proof (cases "P d")
    case True
    then have "d \<noteq> c" using assms(1) by auto
    then show ?thesis
      using True assms(2) [OF True] Cons.IH xs
      by (simp add: percent_encode_Cons split_on_append_plain)
  next
    case False
    then show ?thesis using Cons.IH xs by (auto simp: percent_encode_Cons)
  qed
qed simp

lemma slash_not_in_push_percent: "CHR ''/'' \<notin> set (push_percent c)"
  using push_percent_alnum [of c] encode_sets_keep(8) by blast

lemma parse_path_idem:
  assumes "parse_path raw special = Inr path"
  shows "parse_path path special = Inr path"
proof (cases "special \<and> raw = []")
  case True
  then have "path = ''/''" using assms by (simp add: parse_path_def split: if_split_asm)
  then show ?thesis
    by (simp add: parse_path_def is_dot_segment_def eq_ignore_ascii_case_def to_ascii_lowercase_def
        percent_encode_Cons in_path_set_def in_fragment_set_def is_ascii_def)
next
  case False
  then have path: "path = percent_encode raw in_path_set"
    and no_dots: "\<not> list_ex is_dot_segment (split_on (CHR ''/'') raw)"
    using assms by (auto simp: parse_path_def split: if_split_asm)
  have slash: "\<not> in_path_set (CHR ''/'')" "\<not> in_path_set (CHR ''.'')"
    by (simp_all add: in_path_set_def in_fragment_set_def is_ascii_def)
  have "\<not> list_ex is_dot_segment (split_on (CHR ''/'') path)"
    using no_dots is_dot_segment_encode [of in_path_set, OF slash(2)]
    unfolding path split_on_encode [of in_path_set, OF slash(1) slash_not_in_push_percent]
    by (auto simp: list_ex_iff)
  moreover have "path = [] \<longleftrightarrow> raw = []"
    unfolding path by (cases raw) (simp_all add: percent_encode_Cons push_percent_def)
  moreover have "percent_encode path in_path_set = path"
    unfolding path by (rule percent_encode_idem) (rule encode_sets_keep(1))
  ultimately show ?thesis using False by (auto simp: parse_path_def)
qed

subsection \<open>Printing and parsing\<close>

lemma scheme_byte_plain:
  "scheme_byte c \<Longrightarrow> \<not> forbidden_byte c \<and> c \<noteq> CHR '':''"
  by (auto simp: scheme_byte_def forbidden_byte_def is_ascii_alphanumeric_def Let_def)

lemma host_byte_plain:
  "host_byte c \<Longrightarrow> \<not> forbidden_byte c \<and> c \<notin> {CHR '':'', CHR ''#'', CHR ''?'', CHR ''/'', CHR ''@'', CHR ''[''}"
  by (auto simp: host_byte_def forbidden_byte_def is_ascii_alphanumeric_def Let_def)

lemma digit_plain:
  "is_digit c \<Longrightarrow> \<not> forbidden_byte c \<and> c \<notin> {CHR ''#'', CHR ''?'', CHR ''/'', CHR ''@''}"
  by (auto simp: is_digit_def forbidden_byte_def)

lemma parse_port_digits: "p < 65536 \<Longrightarrow> parse_port (nat_digits p) = Inr p"
  using nat_digits_correct [of p] by (simp add: parse_port_def)

lemma split_tail_text:
  assumes "sep \<notin> set a"
  shows "split_tail (a @ opt_text [sep] t) sep = (a, t)"
  using assms split_once_None [of sep a]
  by (cases t) (simp_all add: split_tail_def opt_text_def split_once_append)

lemma split_authority_append:
  assumes "CHR ''/'' \<notin> set a" "p = [] \<or> hd p = CHR ''/''"
  shows "split_authority (a @ p) = (a, p)"
proof -
  have "takeWhile (\<lambda>c. c \<noteq> CHR ''/'') (a @ p) = a @ takeWhile (\<lambda>c. c \<noteq> CHR ''/'') p"
    "dropWhile (\<lambda>c. c \<noteq> CHR ''/'') (a @ p) = dropWhile (\<lambda>c. c \<noteq> CHR ''/'') p"
    using assms(1) by (auto intro!: takeWhile_append2 dropWhile_append2)
  then show ?thesis
    using assms(2) by (cases p) (simp_all add: split_authority_def)
qed

lemma parse_authority_text:
  assumes "parse_domain host special = Inr (host, ip)" "pred_option (\<lambda>p. p < 65536) port"
  shows "parse_authority (host @ opt_text '':'' (map_option nat_digits port)) special =
    Inr (host, ip, port)"
proof -
  let ?tail = "opt_text '':'' (map_option nat_digits port)"
  have host: "list_all host_byte host" "host \<noteq> []"
    using parse_domain_bytes [OF assms(1)] by auto
  then have plain: "c \<in> set host \<Longrightarrow> c \<notin> {CHR '':'', CHR ''#'', CHR ''?'', CHR ''/'', CHR ''@'', CHR ''[''}" for c
    using host_byte_plain by (auto simp: list_all_iff)
  have "CHR ''@'' \<notin> set ?tail"
    using nat_digits_correct digit_plain
    by (cases port) (auto simp: opt_text_def list_all_iff)
  then have at: "CHR ''@'' \<notin> set (host @ ?tail)" using plain by auto
  have bracket: "strip_prefix ''['' (host @ ?tail) = None"
    using host(2) plain by (cases host) (auto simp: strip_prefix_def)
  have "split_tail (host @ ?tail) (CHR '':'') = (host, map_option nat_digits port)"
    using plain by (intro split_tail_text) auto
  then show ?thesis
    using at bracket assms by (cases port) (simp_all add: parse_authority_def parse_port_digits)
qed

lemma split_tail_parts:
  assumes "split_tail text sep = (a, t)"
  shows "sep \<notin> set a" "text = a @ opt_text [sep] t"
  using assms
  by (auto simp: split_tail_def opt_text_def split_once_None split_once_Some split: option.split_asm)

lemma parse_authority_domain:
  assumes "parse_authority authority special = Inr (host, ip, port)" "\<nexists>a. ip = Some (V6 a)"
  obtains raw where "parse_domain raw special = Inr (host, ip)" "pred_option (\<lambda>p. p < 65536) port"
proof -
  from assms show thesis
    by (auto simp: parse_authority_def parse_port_def intro: that
        split: if_split_asm option.split_asm prod.split_asm sum.split_asm)
qed

text \<open>The parts of an accepted URL.\<close>

lemma url_parse_parts:
  assumes "url_parse s = Inr u"
  obtains raw rest fragment query authority path port where
    "\<not> list_ex forbidden_byte s"
    "s = raw @ ''://'' @ rest" "parse_scheme raw = Inr (url_scheme u)"
    "rest = (authority @ path @ opt_text ''?'' query) @ opt_text ''#'' fragment"
    "CHR ''#'' \<notin> set (authority @ path @ opt_text ''?'' query)" "CHR ''?'' \<notin> set (authority @ path)"
    "path = [] \<or> hd path = CHR ''/''"
    "parse_authority authority (default_port (url_scheme u) \<noteq> None) = Inr (url_host u, url_ip u, port)"
    "url_port u = (case port of None \<Rightarrow> None
                   | Some p \<Rightarrow> if default_port (url_scheme u) \<noteq> Some p then Some p else None)"
    "parse_path path (default_port (url_scheme u) \<noteq> None) = Inr (url_path u)"
    "url_query u = map_option (\<lambda>q. percent_encode q (query_set_of u)) query"
    "url_fragment u = map_option (\<lambda>f. percent_encode f in_fragment_set) fragment"
proof -
  have allowed: "\<not> list_ex forbidden_byte s"
    using assms by (auto simp: url_parse_def split: if_split_asm)
  obtain raw rest0 where split: "split_once (CHR '':'') s = Some (raw, rest0)"
    using assms allowed by (auto simp: url_parse_def split: option.split_asm)
  obtain scheme where scheme: "parse_scheme raw = Inr scheme"
    using assms allowed split by (auto simp: url_parse_def split: sum.split_asm)
  obtain rest where rest: "strip_prefix ''//'' rest0 = Some rest"
    using assms allowed split scheme by (auto simp: url_parse_def Let_def split: option.split_asm)
  obtain r2 fragment where r2: "split_tail rest (CHR ''#'') = (r2, fragment)" by fastforce
  obtain r3 query where r3: "split_tail r2 (CHR ''?'') = (r3, query)" by fastforce
  obtain authority path where r4: "split_authority r3 = (authority, path)" by fastforce
  obtain host ip port where auth:
    "parse_authority authority (default_port scheme \<noteq> None) = Inr (host, ip, port)"
    using assms allowed split scheme rest r2 r3 r4
    by (auto simp: url_parse_def Let_def split: sum.split_asm)
  obtain path' where path: "parse_path path (default_port scheme \<noteq> None) = Inr path'"
    using assms allowed split scheme rest r2 r3 r4 auth
    by (auto simp: url_parse_def Let_def split: sum.split_asm)
  have u: "u = \<lparr> url_scheme = scheme, url_host = host, url_ip = ip,
       url_port = (case port of None \<Rightarrow> None | Some p \<Rightarrow> if default_port scheme \<noteq> Some p then Some p else None),
       url_path = path',
       url_query = map_option (\<lambda>q. percent_encode q
         (if default_port scheme \<noteq> None then in_special_query_set else in_query_set)) query,
       url_fragment = map_option (\<lambda>f. percent_encode f in_fragment_set) fragment \<rparr>"
    using assms allowed split scheme rest r2 r3 r4 auth path
    by (simp add: url_parse_def Let_def)
  have "r3 = authority @ path" "path = [] \<or> hd path = CHR ''/''"
    using r4 hd_dropWhile [of "\<lambda>c. c \<noteq> CHR ''/''" r3] by (auto simp: split_authority_def)
  moreover have "s = raw @ ''://'' @ rest"
    using split rest by (simp add: split_once_Some strip_prefix_Some)
  moreover note split_tail_parts [OF r2] split_tail_parts [OF r3]
  ultimately show thesis
    using allowed scheme auth path by (intro that) (auto simp: u query_set_of_def cong: option.case_cong)
qed

lemma percent_encode_allowed:
  assumes "\<not> list_ex forbidden_byte s"
  shows "list_all (\<lambda>c. \<not> forbidden_byte c) (percent_encode s P)"
  using assms percent_encode_bytes [of _ s P] encode_sets_keep(5)
  by (fastforce simp: list_all_iff list_ex_iff)

lemma percent_encode_avoids:
  assumes "d \<notin> set s" "\<And>c. c = CHR ''%'' \<or> is_ascii_alphanumeric c \<Longrightarrow> c \<noteq> d"
  shows "d \<notin> set (percent_encode s P)"
  using assms percent_encode_bytes [of d s P] by blast

lemma parse_path_bytes:
  assumes "parse_path raw special = Inr path" "raw = [] \<or> hd raw = CHR ''/''"
    "\<not> list_ex forbidden_byte raw" "CHR ''#'' \<notin> set raw" "CHR ''?'' \<notin> set raw"
  shows "path = [] \<or> hd path = CHR ''/''"
    "list_all (\<lambda>c. \<not> forbidden_byte c \<and> c \<noteq> CHR ''#'' \<and> c \<noteq> CHR ''?'') path"
proof -
  consider "path = ''/''" | "path = percent_encode raw in_path_set"
    using assms(1) by (auto simp: parse_path_def split: if_split_asm)
  then have "(path = [] \<or> hd path = CHR ''/'') \<and>
    list_all (\<lambda>c. \<not> forbidden_byte c \<and> c \<noteq> CHR ''#'' \<and> c \<noteq> CHR ''?'') path"
  proof cases
    case 1
    then show ?thesis by (simp add: forbidden_byte_def)
  next
    case 2
    have "CHR ''#'' \<notin> set path" "CHR ''?'' \<notin> set path"
      unfolding 2
      using percent_encode_avoids [OF assms(4) encode_sets_keep(6)]
        percent_encode_avoids [OF assms(5) encode_sets_keep(7)] by simp_all
    moreover have "list_all (\<lambda>c. \<not> forbidden_byte c) path"
      unfolding 2 using assms(3) by (rule percent_encode_allowed)
    moreover have "path = [] \<or> hd path = CHR ''/''"
      unfolding 2 using assms(2)
      by (cases raw) (auto simp: percent_encode_Cons in_path_set_def in_fragment_set_def is_ascii_def)
    ultimately show ?thesis by (auto simp: list_all_iff)
  qed
  then show "path = [] \<or> hd path = CHR ''/''"
    "list_all (\<lambda>c. \<not> forbidden_byte c \<and> c \<noteq> CHR ''#'' \<and> c \<noteq> CHR ''?'') path" by auto
qed

lemma query_set_keep: "c = CHR ''%'' \<or> is_ascii_alphanumeric c \<Longrightarrow> \<not> query_set_of u c"
  by (simp add: query_set_of_def encode_sets_keep)

lemma url_parse_canonical:
  assumes "url_parse s = Inr u" "\<nexists>a. url_ip u = Some (V6 a)"
  shows "url_canonical u"
proof -
  obtain raw rest fragment query authority path port where parts:
    "\<not> list_ex forbidden_byte s"
    "s = raw @ ''://'' @ rest" "parse_scheme raw = Inr (url_scheme u)"
    "rest = (authority @ path @ opt_text ''?'' query) @ opt_text ''#'' fragment"
    "CHR ''#'' \<notin> set (authority @ path @ opt_text ''?'' query)" "CHR ''?'' \<notin> set (authority @ path)"
    "path = [] \<or> hd path = CHR ''/''"
    "parse_authority authority (default_port (url_scheme u) \<noteq> None) = Inr (url_host u, url_ip u, port)"
    "url_port u = (case port of None \<Rightarrow> None
                   | Some p \<Rightarrow> if default_port (url_scheme u) \<noteq> Some p then Some p else None)"
    "parse_path path (default_port (url_scheme u) \<noteq> None) = Inr (url_path u)"
    "url_query u = map_option (\<lambda>q. percent_encode q (query_set_of u)) query"
    "url_fragment u = map_option (\<lambda>f. percent_encode f in_fragment_set) fragment"
    using assms(1) by (rule url_parse_parts)
  obtain domain where domain:
    "parse_domain domain (default_port (url_scheme u) \<noteq> None) = Inr (url_host u, url_ip u)"
    "pred_option (\<lambda>p. p < 65536) port"
    using parts(8) assms(2) by (rule parse_authority_domain)
  have forbidden: "\<not> list_ex forbidden_byte path" "pred_option (\<lambda>q. \<not> list_ex forbidden_byte q) query"
    "pred_option (\<lambda>f. \<not> list_ex forbidden_byte f) fragment"
    using parts(1) unfolding parts(2,4)
    by (cases query; cases fragment; simp add: opt_text_def)+
  have hash: "CHR ''#'' \<notin> set path" "pred_option (\<lambda>q. CHR ''#'' \<notin> set q) query" "CHR ''?'' \<notin> set path"
    using parts(5,6) by (cases query; simp add: opt_text_def)+
  note path = parse_path_bytes [OF parts(10,7) forbidden(1) hash(1,3)]
  have query: "pred_option (\<lambda>q. percent_encode q (query_set_of u) = q \<and>
      list_all (\<lambda>c. \<not> forbidden_byte c \<and> c \<noteq> CHR ''#'') q) (url_query u)"
  proof (cases query)
    case (Some q)
    have "CHR ''#'' \<notin> set (percent_encode q (query_set_of u))"
      using hash(2) Some by (intro percent_encode_avoids encode_sets_keep(6)) simp
    moreover have "list_all (\<lambda>c. \<not> forbidden_byte c) (percent_encode q (query_set_of u))"
      using forbidden(2) Some by (intro percent_encode_allowed) simp
    ultimately show ?thesis
      using Some percent_encode_idem [of "query_set_of u", OF query_set_keep]
      by (auto simp: parts(11) list_all_iff)
  qed (simp add: parts(11))
  have fragment: "pred_option (\<lambda>f. percent_encode f in_fragment_set = f \<and>
      list_all (\<lambda>c. \<not> forbidden_byte c) f) (url_fragment u)"
    using forbidden(3) percent_encode_allowed percent_encode_idem [of in_fragment_set, OF encode_sets_keep(4)]
    by (cases fragment) (simp_all add: parts(12))
  have port: "pred_option (\<lambda>p. p < 65536 \<and> default_port (url_scheme u) \<noteq> Some p) (url_port u)"
    using domain(2) by (cases port) (simp_all add: parts(9))
  show ?thesis
    unfolding url_canonical_def
    using parse_scheme_idem [OF parts(3)] parse_domain_idem [OF domain(1)]
      parse_path_idem [OF parts(10)] path query fragment port by blast
qed

lemma list_ex_opt_text: "list_ex P (opt_text [c] t) \<longleftrightarrow> t \<noteq> None \<and> (P c \<or> list_ex P (the t))"
  by (cases t) (simp_all add: opt_text_def)

lemma list_all_not: "list_all (\<lambda>c. \<not> P c) s \<longleftrightarrow> \<not> list_ex P s"
  by (induction s) auto

lemma url_canonical_allowed:
  assumes "url_canonical u"
  shows "\<not> list_ex forbidden_byte (url_display u)"
proof -
  note facts = assms [unfolded url_canonical_def]
  have plain: "\<not> forbidden_byte c" if "c \<in> {CHR '':'', CHR ''/'', CHR ''?'', CHR ''#''}" for c
    using that by (auto simp: forbidden_byte_def)
  have "list_all scheme_byte (url_scheme u)" "list_all host_byte (url_host u)"
    using facts parse_scheme_bytes parse_domain_bytes by blast+
  then have "\<not> list_ex forbidden_byte (url_scheme u)" "\<not> list_ex forbidden_byte (url_host u)"
    using scheme_byte_plain host_byte_plain by (auto simp: list_all_iff list_ex_iff)
  moreover have "\<not> list_ex forbidden_byte (nat_digits p)" for p
    using nat_digits_correct [of p] digit_plain by (auto simp: list_all_iff list_ex_iff)
  moreover have "\<not> list_ex forbidden_byte (url_path u)"
    using facts by (auto simp: list_all_iff list_ex_iff)
  moreover have "url_query u = None \<or> \<not> list_ex forbidden_byte (the (url_query u))"
    using facts by (cases "url_query u") (auto simp: list_all_iff list_ex_iff)
  moreover have "url_fragment u = None \<or> \<not> list_ex forbidden_byte (the (url_fragment u))"
    using facts by (cases "url_fragment u") (auto simp: list_all_iff list_ex_iff)
  ultimately show ?thesis
    using plain by (cases "url_port u") (auto simp: url_display_def list_ex_opt_text)
qed

lemma url_canonical_authority:
  assumes "url_canonical u"
    and "c \<in> set (url_host u @ opt_text '':'' (map_option nat_digits (url_port u)))"
  shows "c \<notin> {CHR ''#'', CHR ''?'', CHR ''/''}"
proof -
  have "list_all host_byte (url_host u)"
    using assms(1) parse_domain_bytes unfolding url_canonical_def by blast
  then have "host_byte c \<or> c = CHR '':'' \<or> is_digit c"
    using assms(2) nat_digits_correct
    by (cases "url_port u") (auto simp: opt_text_def list_all_iff)
  then show ?thesis using host_byte_plain digit_plain by auto
qed

lemma url_canonical_parse:
  assumes "url_canonical u"
  shows "url_parse (url_display u) = Inr u"
proof -
  note facts = assms [unfolded url_canonical_def]
  let ?special = "default_port (url_scheme u) \<noteq> None"
  let ?authority = "url_host u @ opt_text '':'' (map_option nat_digits (url_port u))"
  have scheme: "parse_scheme (url_scheme u) = Inr (url_scheme u)" using facts by blast
  have path: "parse_path (url_path u) ?special = Inr (url_path u)"
    "url_path u = [] \<or> hd (url_path u) = CHR ''/''"
    "CHR ''#'' \<notin> set (url_path u)" "CHR ''?'' \<notin> set (url_path u)"
    using facts by (auto simp: list_all_iff)
  note authority = url_canonical_authority [OF assms]
  have printed: "url_display u =
      url_scheme u @ CHR '':'' # ''//'' @
      ((?authority @ url_path u) @ opt_text ''?'' (url_query u)) @ opt_text ''#'' (url_fragment u)"
    by (simp add: url_display_def)
  have "CHR '':'' \<notin> set (url_scheme u)"
    using parse_scheme_bytes [OF scheme] scheme_byte_plain by (auto simp: list_all_iff)
  then have colon: "split_once (CHR '':'') (url_display u) = Some (url_scheme u, ''//'' @
      ((?authority @ url_path u) @ opt_text ''?'' (url_query u)) @ opt_text ''#'' (url_fragment u))"
    unfolding printed by (rule split_once_append)
  have "CHR ''#'' \<notin> set (opt_text ''?'' (url_query u))"
    using facts by (cases "url_query u") (auto simp: opt_text_def list_all_iff)
  then have hash: "split_tail (((?authority @ url_path u) @ opt_text ''?'' (url_query u)) @
      opt_text ''#'' (url_fragment u)) (CHR ''#'') =
      ((?authority @ url_path u) @ opt_text ''?'' (url_query u), url_fragment u)"
    using authority [of "CHR ''#''"] path(3) by (intro split_tail_text) auto
  have mark: "split_tail ((?authority @ url_path u) @ opt_text ''?'' (url_query u)) (CHR ''?'') =
      (?authority @ url_path u, url_query u)"
    using authority [of "CHR ''?''"] path(4) by (intro split_tail_text) auto
  have slash: "split_authority (?authority @ url_path u) = (?authority, url_path u)"
    using authority [of "CHR ''/''"] path(2) by (intro split_authority_append) auto
  have "pred_option (\<lambda>p. p < 65536) (url_port u)"
    using facts by (cases "url_port u") auto
  then have auth: "parse_authority ?authority ?special = Inr (url_host u, url_ip u, url_port u)"
    using facts by (intro parse_authority_text) blast+
  have port: "(case url_port u of None \<Rightarrow> None
      | Some p \<Rightarrow> if default_port (url_scheme u) \<noteq> Some p then Some p else None) = url_port u"
    using facts by (cases "url_port u") auto
  have query: "map_option (\<lambda>q. percent_encode q (if ?special then in_special_query_set else in_query_set))
      (url_query u) = url_query u"
    using facts unfolding query_set_of_def by (cases "url_query u") auto
  have fragment: "map_option (\<lambda>f. percent_encode f in_fragment_set) (url_fragment u) = url_fragment u"
    using facts by (cases "url_fragment u") auto
  show ?thesis
    unfolding url_parse_def colon if_not_P [OF url_canonical_allowed [OF assms]]
    by (simp only: option.case sum.case prod.case Let_def scheme strip_prefix_append hash mark slash
        auth path(1) port query fragment) simp
qed

subsection \<open>Properties\<close>

text \<open>C19. A text that the URL parser accepts (with a host that is not an IPv6 literal) is normalised
  once and for all: printing the parsed URL gives a text that parses to exactly the same URL, its
  host consists of letters, digits, dots, hyphens and underscores only, and an explicit port is
  never the default port of the scheme.
\<close>

theorem url_normal_form:
  assumes "url_parse s = Inr u" "url_ip u \<notin> range (Some \<circ> V6)"
  shows "url_parse (url_display u) = Inr u \<and> url_host u \<noteq> [] \<and> list_all host_byte (url_host u) \<and>
    (case url_port u of None \<Rightarrow> True | Some p \<Rightarrow> p < 65536 \<and> default_port (url_scheme u) \<noteq> Some p)"
proof -
  have "url_canonical u"
    using assms by (intro url_parse_canonical) auto
  moreover from this have "url_host u \<noteq> []" "list_all host_byte (url_host u)"
    using parse_domain_bytes unfolding url_canonical_def by blast+
  moreover have "(case url_port u of None \<Rightarrow> True
      | Some p \<Rightarrow> p < 65536 \<and> default_port (url_scheme u) \<noteq> Some p)"
    using calculation(1) unfolding url_canonical_def by (cases "url_port u") auto
  ultimately show ?thesis using url_canonical_parse by blast
qed

lemma example_url_parses: "url_parse example_url = Inr example_parsed"
  by code_simp

lemma example_not_v6: "url_ip example_parsed \<notin> range (Some \<circ> V6)"
  by (auto simp: example_parsed_def)

theorem url_normal_form_witness:
  "url_parse example_url = Inr example_parsed \<and>
   url_parse (url_display example_parsed) = Inr example_parsed"
  using url_normal_form [OF example_url_parses example_not_v6] example_url_parses by blast

end
