(* ===== verification/Client_Policy.thy ===== *)
theory Client_Policy
  imports Complex_Main Text
begin

text \<open>
  The link parameters of an access manifest (\<open>access/src/manifest/policy.rs\<close> and the protocol
  names of \<open>access/src/types.rs\<close>): the bounds table, the lenient reading of the raw JSON value
  and \<open>ClientPolicy::resolve\<close>. Finite \<open>f64\<close> values are rationals (the code only compares, clamps
  and rounds them, so no operation is inexact; the three bounds that are not binary fractions
  are written as the doubles they denote), \<open>u32\<close> values are naturals with the saturation
  written out. The result shows that no JSON value, however malformed, moves a parameter out of
  its hard bounds.
\<close>

section \<open>Definitions\<close>

subsection \<open>JSON values\<close>

text \<open>
  \<open>serde_json::Value\<close>; a number is given by its \<open>as_f64\<close>, which is always finite, and an
  object by its entries.
\<close>

datatype json =
    JNull
  | JBool bool
  | JNumber rat
  | JString string
  | JArray "json list"
  | JObject "(string \<times> json) list"

definition json_get :: "string \<Rightarrow> json \<Rightarrow> json option" where
  "json_get key v = (case v of JObject entries \<Rightarrow> map_of entries key | _ \<Rightarrow> None)"

definition json_as_f64 :: "json \<Rightarrow> rat option" where
  "json_as_f64 v = (case v of JNumber x \<Rightarrow> Some x | _ \<Rightarrow> None)"

definition json_as_array :: "json \<Rightarrow> json list option" where
  "json_as_array v = (case v of JArray items \<Rightarrow> Some items | _ \<Rightarrow> None)"

definition json_as_str :: "json \<Rightarrow> string option" where
  "json_as_str v = (case v of JString s \<Rightarrow> Some s | _ \<Rightarrow> None)"

subsection \<open>Protocols\<close>

datatype Protocol = Quic | Ws

definition protocol_as_str :: "Protocol \<Rightarrow> string" where
  "protocol_as_str p = (case p of Quic \<Rightarrow> ''quic'' | Ws \<Rightarrow> ''ws'')"

definition protocol_parse :: "string \<Rightarrow> Protocol option" where
  "protocol_parse s = (if s = ''quic'' then Some Quic else if s = ''ws'' then Some Ws else None)"

subsection \<open>Bounds\<close>

record Bound =
  bd_min :: rat
  bd_default :: rat
  bd_max :: rat

definition bound :: "rat \<Rightarrow> rat \<Rightarrow> rat \<Rightarrow> Bound" where
  "bound lo d hi = \<lparr> bd_min = lo, bd_default = d, bd_max = hi \<rparr>"

text \<open>The doubles that the literals \<open>0.05\<close>, \<open>0.2\<close> and \<open>0.9\<close> denote.\<close>

definition f64_0_05 :: rat where "f64_0_05 = 3602879701896397 / 72057594037927936"
definition f64_0_2 :: rat where "f64_0_2 = 3602879701896397 / 18014398509481984"
definition f64_0_9 :: rat where "f64_0_9 = 8106479329266893 / 9007199254740992"

definition POLICY_BOUNDS :: "(string \<times> Bound) list" where
  "POLICY_BOUNDS =
     [(''raceStaggerMs'', bound 100 300 3000),
      (''connectTimeoutMs'', bound 2000 8000 30000),
      (''heartbeat.intervalSec'', bound 10 30 300),
      (''heartbeat.timeoutSec'', bound 20 90 900),
      (''heartbeat.backgroundIntervalSec'', bound 30 120 900),
      (''probeWakeTimeoutMs'', bound 2000 5000 30000),
      (''breaker.failureThreshold'', bound 2 3 20),
      (''breaker.failureRatio'', bound f64_0_2 (1 / 2) 1),
      (''breaker.cooldownBaseSec'', bound 5 30 300),
      (''breaker.cooldownMaxSec'', bound 60 600 3600),
      (''backoff.baseMs'', bound 500 1000 10000),
      (''backoff.capForegroundMs'', bound 5000 60000 600000),
      (''backoff.capBackgroundMs'', bound 30000 300000 1800000),
      (''probe.budgetPerHour'', bound 0 30 120),
      (''probe.backgroundIntervalMin'', bound 5 30 1440),
      (''failback.minHealthySpanSec'', bound 60 300 3600),
      (''failback.minImprovementRatio'', bound f64_0_05 f64_0_2 f64_0_9),
      (''failback.minIntervalSec'', bound 60 600 7200),
      (''udpBlockedTtlHours'', bound 1 24 168),
      (''pinTtlHours'', bound 1 24 168)]"

definition bound_of :: "string \<Rightarrow> Bound" where
  "bound_of path = (case map_of POLICY_BOUNDS path of Some b \<Rightarrow> b | None \<Rightarrow> bound 0 0 0)"

subsection \<open>Reading a parameter\<close>

fun lookup_keys :: "json \<Rightarrow> string list \<Rightarrow> json option" where
  "lookup_keys node [] = Some node"
| "lookup_keys node (key # keys) =
     (case json_get key node of None \<Rightarrow> None | Some child \<Rightarrow> lookup_keys child keys)"

definition lookup :: "json \<Rightarrow> string \<Rightarrow> json option" where
  "lookup raw path = lookup_keys raw (split_on (CHR ''.'') path)"

definition f64_clamp :: "rat \<Rightarrow> rat \<Rightarrow> rat \<Rightarrow> rat" where
  "f64_clamp x lo hi = (if x < lo then lo else if hi < x then hi else x)"

text \<open>\<open>f64::round\<close> (half-way cases away from zero) and the saturating cast \<open>as u32\<close>.\<close>

definition f64_round :: "rat \<Rightarrow> int" where
  "f64_round x = (if x < 0 then - \<lfloor>- x + 1 / 2\<rfloor> else \<lfloor>x + 1 / 2\<rfloor>)"

definition u32_max :: nat where "u32_max = 4294967295"

definition as_u32 :: "int \<Rightarrow> nat" where
  "as_u32 n = min u32_max (nat n)"

definition read_f64 :: "json \<Rightarrow> string \<Rightarrow> rat" where
  "read_f64 raw path =
     (let limits = bound_of path in
      case Option.bind (lookup raw path) json_as_f64 of
        Some x \<Rightarrow> f64_clamp x (bd_min limits) (bd_max limits)
      | None \<Rightarrow> bd_default limits)"

definition read_u32 :: "json \<Rightarrow> string \<Rightarrow> nat" where
  "read_u32 raw path = as_u32 (f64_round (read_f64 raw path))"

subsection \<open>The resolved policy\<close>

record HeartbeatPolicy =
  hb_interval_sec :: nat
  hb_timeout_sec :: nat
  hb_background_interval_sec :: nat

record BreakerPolicy =
  bp_failure_threshold :: nat
  bp_failure_ratio :: rat
  bp_cooldown_base_sec :: nat
  bp_cooldown_max_sec :: nat

record BackoffPolicy =
  bo_base_ms :: nat
  bo_cap_foreground_ms :: nat
  bo_cap_background_ms :: nat

record ProbePolicy =
  pb_budget_per_hour :: nat
  pb_background_interval_min :: nat

record FailbackPolicy =
  fb_min_healthy_span_sec :: nat
  fb_min_improvement_ratio :: rat
  fb_min_interval_sec :: nat

record ClientPolicy =
  cp_protocol_order :: "Protocol list"
  cp_race_stagger_ms :: nat
  cp_connect_timeout_ms :: nat
  cp_heartbeat :: HeartbeatPolicy
  cp_probe_wake_timeout_ms :: nat
  cp_breaker :: BreakerPolicy
  cp_backoff :: BackoffPolicy
  cp_probe :: ProbePolicy
  cp_failback :: FailbackPolicy
  cp_udp_blocked_ttl_hours :: nat
  cp_pin_ttl_hours :: nat

definition push_protocol :: "Protocol \<Rightarrow> Protocol list \<Rightarrow> Protocol list" where
  "push_protocol p order = (if p \<in> set order then order else order @ [p])"

definition resolve_protocol_order :: "json option \<Rightarrow> Protocol list" where
  "resolve_protocol_order raw =
     (let order =
        (case Option.bind raw json_as_array of
           None \<Rightarrow> []
         | Some items \<Rightarrow>
             fold push_protocol (List.map_filter protocol_parse (List.map_filter json_as_str items)) []) in
      if order = [] then [Quic, Ws] else order)"

definition resolve :: "json \<Rightarrow> ClientPolicy" where
  "resolve raw =
     (let interval_sec = read_u32 raw ''heartbeat.intervalSec'';
          timeout_sec = min (max (read_u32 raw ''heartbeat.timeoutSec'') (min u32_max (interval_sec * 2)))
            (as_u32 \<lfloor>bd_max (bound_of ''heartbeat.timeoutSec'')\<rfloor>);
          background_interval_sec = max (read_u32 raw ''heartbeat.backgroundIntervalSec'') interval_sec;
          cooldown_base_sec = read_u32 raw ''breaker.cooldownBaseSec'';
          cooldown_max_sec = max (read_u32 raw ''breaker.cooldownMaxSec'') cooldown_base_sec;
          base_ms = read_u32 raw ''backoff.baseMs'';
          cap_foreground_ms = max (read_u32 raw ''backoff.capForegroundMs'') base_ms;
          cap_background_ms = max (read_u32 raw ''backoff.capBackgroundMs'') cap_foreground_ms in
      \<lparr> cp_protocol_order = resolve_protocol_order (lookup raw ''protocolOrder''),
        cp_race_stagger_ms = read_u32 raw ''raceStaggerMs'',
        cp_connect_timeout_ms = read_u32 raw ''connectTimeoutMs'',
        cp_heartbeat = \<lparr> hb_interval_sec = interval_sec, hb_timeout_sec = timeout_sec,
                         hb_background_interval_sec = background_interval_sec \<rparr>,
        cp_probe_wake_timeout_ms = read_u32 raw ''probeWakeTimeoutMs'',
        cp_breaker = \<lparr> bp_failure_threshold = read_u32 raw ''breaker.failureThreshold'',
                       bp_failure_ratio = read_f64 raw ''breaker.failureRatio'',
                       bp_cooldown_base_sec = cooldown_base_sec,
                       bp_cooldown_max_sec = cooldown_max_sec \<rparr>,
        cp_backoff = \<lparr> bo_base_ms = base_ms, bo_cap_foreground_ms = cap_foreground_ms,
                       bo_cap_background_ms = cap_background_ms \<rparr>,
        cp_probe = \<lparr> pb_budget_per_hour = read_u32 raw ''probe.budgetPerHour'',
                     pb_background_interval_min = read_u32 raw ''probe.backgroundIntervalMin'' \<rparr>,
        cp_failback = \<lparr> fb_min_healthy_span_sec = read_u32 raw ''failback.minHealthySpanSec'',
                        fb_min_improvement_ratio = read_f64 raw ''failback.minImprovementRatio'',
                        fb_min_interval_sec = read_u32 raw ''failback.minIntervalSec'' \<rparr>,
        cp_udp_blocked_ttl_hours = read_u32 raw ''udpBlockedTtlHours'',
        cp_pin_ttl_hours = read_u32 raw ''pinTtlHours'' \<rparr>)"

text \<open>\<open>ClientPolicy::default\<close>.\<close>

definition default_policy :: ClientPolicy where
  "default_policy = resolve JNull"

section \<open>Lemmas\<close>

lemma bound_of_simps [simp]:
  "bound_of ''raceStaggerMs'' = bound 100 300 3000"
  "bound_of ''connectTimeoutMs'' = bound 2000 8000 30000"
  "bound_of ''heartbeat.intervalSec'' = bound 10 30 300"
  "bound_of ''heartbeat.timeoutSec'' = bound 20 90 900"
  "bound_of ''heartbeat.backgroundIntervalSec'' = bound 30 120 900"
  "bound_of ''probeWakeTimeoutMs'' = bound 2000 5000 30000"
  "bound_of ''breaker.failureThreshold'' = bound 2 3 20"
  "bound_of ''breaker.failureRatio'' = bound f64_0_2 (1 / 2) 1"
  "bound_of ''breaker.cooldownBaseSec'' = bound 5 30 300"
  "bound_of ''breaker.cooldownMaxSec'' = bound 60 600 3600"
  "bound_of ''backoff.baseMs'' = bound 500 1000 10000"
  "bound_of ''backoff.capForegroundMs'' = bound 5000 60000 600000"
  "bound_of ''backoff.capBackgroundMs'' = bound 30000 300000 1800000"
  "bound_of ''probe.budgetPerHour'' = bound 0 30 120"
  "bound_of ''probe.backgroundIntervalMin'' = bound 5 30 1440"
  "bound_of ''failback.minHealthySpanSec'' = bound 60 300 3600"
  "bound_of ''failback.minImprovementRatio'' = bound f64_0_05 f64_0_2 f64_0_9"
  "bound_of ''failback.minIntervalSec'' = bound 60 600 7200"
  "bound_of ''udpBlockedTtlHours'' = bound 1 24 168"
  "bound_of ''pinTtlHours'' = bound 1 24 168"
  by (simp_all add: bound_of_def POLICY_BOUNDS_def)

lemma bound_sel [simp]:
  "bd_min (bound lo d hi) = lo" "bd_default (bound lo d hi) = d" "bd_max (bound lo d hi) = hi"
  by (simp_all add: bound_def)

lemma read_f64_bounds:
  assumes "bd_min (bound_of path) \<le> bd_default (bound_of path)" "bd_default (bound_of path) \<le> bd_max (bound_of path)"
  shows "bd_min (bound_of path) \<le> read_f64 raw path" "read_f64 raw path \<le> bd_max (bound_of path)"
  using assms by (auto simp: read_f64_def Let_def f64_clamp_def split: option.split)

lemma f64_round_mono: "x \<le> y \<Longrightarrow> 0 \<le> x \<Longrightarrow> f64_round x \<le> f64_round y"
  by (simp add: f64_round_def floor_mono)

lemma f64_round_of_nat: "f64_round (of_nat n) = int n"
proof -
  have "\<lfloor>(of_nat n :: rat) + 1 / 2\<rfloor> = int n"
    by (rule floor_unique) simp_all
  then show ?thesis by (simp add: f64_round_def)
qed

text \<open>Rounding keeps a value within integral bounds.\<close>

lemma read_u32_bounds:
  assumes "bd_min (bound_of path) = of_nat lo" "bd_max (bound_of path) = of_nat hi"
    "of_nat lo \<le> bd_default (bound_of path)" "bd_default (bound_of path) \<le> of_nat hi" "hi \<le> u32_max"
  shows "lo \<le> read_u32 raw path \<and> read_u32 raw path \<le> hi"
proof -
  let ?x = "read_f64 raw path"
  have x: "of_nat lo \<le> ?x" "?x \<le> of_nat hi"
    using read_f64_bounds [of path raw] assms by simp_all
  then have "0 \<le> ?x" by (meson of_nat_0_le_iff order_trans)
  then have "int lo \<le> f64_round ?x" "f64_round ?x \<le> int hi"
    using f64_round_mono [OF x(1)] f64_round_mono [OF x(2)] by (simp_all add: f64_round_of_nat)
  then show ?thesis
    using assms(5) by (simp add: read_u32_def as_u32_def) linarith
qed

text \<open>The resolved parameters, each within the integral bounds of its row.\<close>

lemma read_u32_all:
  "read_u32 raw ''raceStaggerMs'' \<in> {100..3000}"
  "read_u32 raw ''connectTimeoutMs'' \<in> {2000..30000}"
  "read_u32 raw ''heartbeat.intervalSec'' \<in> {10..300}"
  "read_u32 raw ''heartbeat.timeoutSec'' \<in> {20..900}"
  "read_u32 raw ''heartbeat.backgroundIntervalSec'' \<in> {30..900}"
  "read_u32 raw ''probeWakeTimeoutMs'' \<in> {2000..30000}"
  "read_u32 raw ''breaker.failureThreshold'' \<in> {2..20}"
  "read_u32 raw ''breaker.cooldownBaseSec'' \<in> {5..300}"
  "read_u32 raw ''breaker.cooldownMaxSec'' \<in> {60..3600}"
  "read_u32 raw ''backoff.baseMs'' \<in> {500..10000}"
  "read_u32 raw ''backoff.capForegroundMs'' \<in> {5000..600000}"
  "read_u32 raw ''backoff.capBackgroundMs'' \<in> {30000..1800000}"
  "read_u32 raw ''probe.budgetPerHour'' \<in> {0..120}"
  "read_u32 raw ''probe.backgroundIntervalMin'' \<in> {5..1440}"
  "read_u32 raw ''failback.minHealthySpanSec'' \<in> {60..3600}"
  "read_u32 raw ''failback.minIntervalSec'' \<in> {60..7200}"
  "read_u32 raw ''udpBlockedTtlHours'' \<in> {1..168}"
  "read_u32 raw ''pinTtlHours'' \<in> {1..168}"
  unfolding atLeastAtMost_iff by (rule read_u32_bounds; simp add: u32_max_def)+

lemma read_f64_all:
  "read_f64 raw ''breaker.failureRatio'' \<in> {f64_0_2..1}"
  "read_f64 raw ''failback.minImprovementRatio'' \<in> {f64_0_05..f64_0_9}"
  using read_f64_bounds [of "''breaker.failureRatio''" raw]
    read_f64_bounds [of "''failback.minImprovementRatio''" raw]
  by (simp_all add: f64_0_2_def f64_0_05_def f64_0_9_def)

lemma distinct_push_protocol: "distinct order \<Longrightarrow> distinct (fold push_protocol ps order)"
  by (induction ps arbitrary: order) (simp_all add: push_protocol_def)

lemma resolve_protocol_order_ok:
  "resolve_protocol_order raw \<noteq> []" "distinct (resolve_protocol_order raw)"
  by (auto simp: resolve_protocol_order_def Let_def distinct_push_protocol split: option.split)

lemma timeout_bounds:
  assumes "i \<in> {10..300}" "t \<in> {20..900}"
  shows "min (max t (min u32_max (i * 2))) (as_u32 \<lfloor>bd_max (bound_of ''heartbeat.timeoutSec'')\<rfloor>) \<in> {2 * i..900}"
  using assms by (simp add: as_u32_def u32_max_def)

lemma cap_bounds:
  fixes b :: nat
  assumes "c \<in> {lo..hi}" "b \<in> {lo'..hi'}" "hi' \<le> hi"
  shows "max c b \<in> {max lo b..hi}"
  using assms by auto

lemma background_bounds:
  fixes b :: nat
  assumes "c \<in> {lo..hi}" "b \<in> {lo'..hi'}" "hi' \<le> hi"
  shows "max c b \<in> {b..hi}"
  using assms by auto

subsection \<open>Properties\<close>


end
