(* ===== verification/Access_Manifest.thy ===== *)
theory Access_Manifest
  imports Parsed_Url Client_Policy
begin

text \<open>
  The access manifest (\<open>access/src/manifest/access.rs\<close>, \<open>recovery.rs\<close>, \<open>schema.rs\<close>): its data,
  the structural validation that runs before signing and after verifying, the home cell, the
  refresh interval, and the recovery manifest that expands to an access manifest. The readers
  of JSON and of RFC 3339 times (\<open>serde_json\<close>, \<open>chrono\<close>) are parameters. The lemmas show what an
  accepted manifest guarantees to the code that selects access points from it.
\<close>

section \<open>Definitions\<close>

subsection \<open>Limits and schemas\<close>

definition MAX_DOCUMENT_BYTES :: nat where "MAX_DOCUMENT_BYTES = 64 * 1024"
definition MAX_SIGNATURES :: nat where "MAX_SIGNATURES = 8"
definition MAX_KEY_CERTS :: nat where "MAX_KEY_CERTS = 8"
definition MAX_KEY_CERT_BOOTSTRAP_IDS :: nat where "MAX_KEY_CERT_BOOTSTRAP_IDS = 256"
definition MAX_TRUST_ROOTS :: nat where "MAX_TRUST_ROOTS = 8"
definition MAX_REGIONS :: nat where "MAX_REGIONS = 32"
definition MAX_CELLS_PER_REGION :: nat where "MAX_CELLS_PER_REGION = 64"
definition MAX_ACCESS_POINTS :: nat where "MAX_ACCESS_POINTS = 256"
definition MAX_TAGS_PER_AP :: nat where "MAX_TAGS_PER_AP = 16"
definition MAX_IP_HINTS_PER_AP :: nat where "MAX_IP_HINTS_PER_AP = 8"
definition MAX_SPKI_PINS_PER_AP :: nat where "MAX_SPKI_PINS_PER_AP = 8"
definition MAX_BOOTSTRAP_SOURCES :: nat where "MAX_BOOTSTRAP_SOURCES = 16"

definition ACCESS_SCHEMA :: string where "ACCESS_SCHEMA = ''flare.access.v1''"
definition KEYCERT_SCHEMA :: string where "KEYCERT_SCHEMA = ''flare.keycert.v1''"
definition KEYSTATE_SCHEMA :: string where "KEYSTATE_SCHEMA = ''flare.keystate.v1''"
definition RECOVERY_SCHEMA :: string where "RECOVERY_SCHEMA = ''flare.recovery.v1''"
definition RELEASE_SCHEMA :: string where "RELEASE_SCHEMA = ''flare.release.v1''"

definition ACCESS_PAYLOAD_TYPE :: string where
  "ACCESS_PAYLOAD_TYPE = ''application/vnd.flare.access.v1+json''"
definition KEYCERT_PAYLOAD_TYPE :: string where
  "KEYCERT_PAYLOAD_TYPE = ''application/vnd.flare.keycert.v1+json''"
definition KEYSTATE_PAYLOAD_TYPE :: string where
  "KEYSTATE_PAYLOAD_TYPE = ''application/vnd.flare.keystate.v1+json''"
definition RELEASE_PAYLOAD_TYPE :: string where
  "RELEASE_PAYLOAD_TYPE = ''application/vnd.flare.release.v1+json''"
definition RECOVERY_PAYLOAD_TYPE :: string where
  "RECOVERY_PAYLOAD_TYPE = ''application/vnd.flare.recovery.v1+json''"

datatype DocType = DocAccess | DocKeyState | DocRelease

definition payload_type :: "DocType \<Rightarrow> string" where
  "payload_type doc =
     (case doc of
        DocAccess \<Rightarrow> ACCESS_PAYLOAD_TYPE
      | DocKeyState \<Rightarrow> KEYSTATE_PAYLOAD_TYPE
      | DocRelease \<Rightarrow> RELEASE_PAYLOAD_TYPE)"

definition cert_usage :: "DocType \<Rightarrow> string option" where
  "cert_usage doc =
     (case doc of DocAccess \<Rightarrow> Some ''access'' | DocRelease \<Rightarrow> Some ''release'' | DocKeyState \<Rightarrow> None)"

subsection \<open>Data\<close>

datatype ApStatus = ApActive | ApDraining | ApDisabled | ApUnknown

datatype ServiceKind = ImWs | ImQuic | CoreApi | SocialApi | Media | Ping

definition all_service_kinds :: "ServiceKind list" where
  "all_service_kinds = [ImWs, ImQuic, CoreApi, SocialApi, Media, Ping]"

definition service_kind_str :: "ServiceKind \<Rightarrow> string" where
  "service_kind_str k =
     (case k of ImWs \<Rightarrow> ''imWs'' | ImQuic \<Rightarrow> ''imQuic'' | CoreApi \<Rightarrow> ''coreApi''
      | SocialApi \<Rightarrow> ''socialApi'' | Media \<Rightarrow> ''media'' | Ping \<Rightarrow> ''ping'')"

record Services =
  sv_im_ws :: "string option"
  sv_im_quic :: "nat option"
  sv_core_api :: "string option"
  sv_social_api :: "string option"
  sv_media :: "string option"
  sv_ping :: "string option"

definition services_path :: "ServiceKind \<Rightarrow> Services \<Rightarrow> string option" where
  "services_path k s =
     (case k of ImWs \<Rightarrow> sv_im_ws s | CoreApi \<Rightarrow> sv_core_api s | SocialApi \<Rightarrow> sv_social_api s
      | Media \<Rightarrow> sv_media s | Ping \<Rightarrow> sv_ping s | ImQuic \<Rightarrow> None)"

record AccessPoint =
  ap_id :: string
  ap_host :: string
  ap_ip_hints :: "string list"
  ap_spki_pins :: "string list"
  ap_weight :: nat
  ap_priority :: nat
  ap_status :: ApStatus
  ap_tags :: "string list"
  ap_services :: Services

record Cell =
  cell_id :: string
  cell_access_points :: "AccessPoint list"

record Region =
  rg_id :: string
  rg_display_name :: "(string \<times> string) list"
  rg_cells :: "Cell list"

record Placement =
  pl_home_cell :: string
  pl_allowed_regions :: "string list"

record BootstrapSource =
  bs_kind :: string
  bs_url :: "string option"
  bs_name :: "string option"
  bs_resolvers :: "string list"
  bs_ip_hints :: "string list"

definition https_source :: "string \<Rightarrow> BootstrapSource" where
  "https_source url = \<lparr> bs_kind = ''https'', bs_url = Some url, bs_name = None, bs_resolvers = [], bs_ip_hints = [] \<rparr>"

definition well_known_source :: BootstrapSource where
  "well_known_source = \<lparr> bs_kind = ''wellKnown'', bs_url = None, bs_name = None, bs_resolvers = [], bs_ip_hints = [] \<rparr>"

record BootstrapSection =
  bt_sources :: "BootstrapSource list"
  bt_refresh_interval_sec :: "nat option"

record AccessManifest =
  am_schema :: string
  am_bootstrap_id :: string
  am_app_id :: string
  am_serial :: u64
  am_issued_at :: string
  am_expires_at :: string
  am_regions :: "Region list"
  am_placement :: Placement
  am_bootstrap :: BootstrapSection
  am_client_policy :: json
  am_release :: "string list option"

record ManifestTimes =
  mt_issued_at_ms :: i64
  mt_expires_at_ms :: i64

datatype ManifestError =
    MeJson string
  | MeUnsupportedSchema string
  | MeInvalid string string

text \<open>
  The readers that third-party crates provide: RFC 3339 times in Unix milliseconds
  (\<open>chrono\<close>), the schema header and the documents in JSON (\<open>serde_json\<close>, with its error text).
\<close>

record manifest_readers =
  rd_rfc3339_ms :: "string \<Rightarrow> i64 option"
  rd_schema_header :: "string \<Rightarrow> string + string"
  rd_access_json :: "string \<Rightarrow> string + AccessManifest"

subsection \<open>Identifiers, hosts and paths\<close>

definition id_byte :: "char \<Rightarrow> bool" where
  "id_byte c \<longleftrightarrow> is_ascii_alphanumeric c \<or> c \<in> {CHR ''.'', CHR ''_'', CHR '':'', CHR ''-''}"

definition is_valid_id :: "string \<Rightarrow> bool" where
  "is_valid_id s \<longleftrightarrow>
     s \<noteq> [] \<and> length s \<le> 64 \<and> is_ascii_alphanumeric (hd s) \<and> list_all id_byte s"

definition is_valid_bootstrap_id :: "string \<Rightarrow> bool" where
  "is_valid_bootstrap_id s \<longleftrightarrow>
     length s = 16 \<and>
     list_all (\<lambda>c. let n = of_char c :: nat in 48 \<le> n \<and> n \<le> 57 \<or> 97 \<le> n \<and> n \<le> 102) s"

definition is_valid_label :: "string \<Rightarrow> bool" where
  "is_valid_label label \<longleftrightarrow>
     label \<noteq> [] \<and> length label \<le> 63 \<and> hd label \<noteq> CHR ''-'' \<and> last label \<noteq> CHR ''-'' \<and>
     list_all (\<lambda>c. is_ascii_alphanumeric c \<or> c = CHR ''-'') label"

definition is_valid_public_host :: "string \<Rightarrow> bool" where
  "is_valid_public_host host \<longleftrightarrow>
     host \<noteq> [] \<and> length host \<le> 253 \<and> parse_ip host = None \<and>
     (let labels = split_on (CHR ''.'') host in list_all is_valid_label labels \<and> 2 \<le> length labels)"

text \<open>\<open>char::is_whitespace\<close> and \<open>char::is_control\<close> on a character given by its UTF-8 bytes.\<close>

definition char_is_whitespace :: "string \<Rightarrow> bool" where
  "char_is_whitespace ch \<longleftrightarrow> ch \<in> set white_space"

definition char_is_control :: "string \<Rightarrow> bool" where
  "char_is_control ch \<longleftrightarrow>
     (case map of_char ch :: nat list of
        [a] \<Rightarrow> a < 32 \<or> a = 127
      | [a, b] \<Rightarrow> a = 0xC2 \<and> 0x80 \<le> b \<and> b \<le> 0x9F
      | _ \<Rightarrow> False)"

definition is_valid_path :: "string \<Rightarrow> bool" where
  "is_valid_path path \<longleftrightarrow>
     prefix ''/'' path \<and> length path \<le> 256 \<and>
     \<not> list_ex (\<lambda>ch. char_is_whitespace ch \<or> char_is_control ch \<or> ch = ''?'' \<or> ch = ''#'') (chars path)"

subsection \<open>Validation\<close>

definition validate_ip_hints :: "string list \<Rightarrow> string \<Rightarrow> ManifestError option" where
  "validate_ip_hints ip_hints field =
     fail_if (MAX_IP_HINTS_PER_AP < length ip_hints \<or> list_ex (\<lambda>hint. parse_ip hint = None) ip_hints)
       (MeInvalid (field @ ''.ipHints'') ''too many or not IP addresses'')"

definition is_https :: "string \<Rightarrow> bool" where
  "is_https url \<longleftrightarrow> (case url_parse url of Inl _ \<Rightarrow> False | Inr u \<Rightarrow> url_scheme u = ''https'')"

definition validate_source :: "BootstrapSource \<Rightarrow> string \<Rightarrow> ManifestError option" where
  "validate_source source field =
     (if bs_kind source = ''https'' then
        first_error
          [fail_if (\<not> (case bs_url source of None \<Rightarrow> False | Some url \<Rightarrow> is_https url))
             (MeInvalid (field @ ''.url'') ''https source needs an https URL''),
           validate_ip_hints (bs_ip_hints source) field]
      else if bs_kind source = ''dohTxt'' then
        (let name_ok = (case bs_name source of None \<Rightarrow> False | Some name \<Rightarrow> name \<noteq> [] \<and> length name \<le> 253);
             resolvers_ok = (bs_resolvers source \<noteq> [] \<and> length (bs_resolvers source) \<le> 8 \<and>
                             list_all is_https (bs_resolvers source)) in
         fail_if (\<not> name_ok \<or> \<not> resolvers_ok)
           (MeInvalid field ''dohTxt source needs a name and https resolvers''))
      else None)"

definition quoted :: "string \<Rightarrow> string" where
  "quoted s = CHR 0x27 # s @ [CHR 0x27]"

definition PATH_REASON :: string where
  "PATH_REASON = ''path must start with '' @ quoted ''/'' @ '' and contain no whitespace, '' @
     quoted ''?'' @ '' or '' @ quoted ''#''"

definition validate_access_point :: "AccessPoint \<Rightarrow> string \<Rightarrow> ManifestError option" where
  "validate_access_point ap field =
     first_error
       ([fail_if (\<not> is_valid_public_host (ap_host ap))
           (MeInvalid (field @ ''.host'') ''must be a DNS name with at least one dot, not an IP literal''),
         fail_if (1000 < ap_weight ap) (MeInvalid (field @ ''.weight'') ''must be 0-1000''),
         fail_if (100 < ap_priority ap) (MeInvalid (field @ ''.priority'') ''must be 0-100''),
         fail_if (MAX_TAGS_PER_AP < length (ap_tags ap) \<or>
                  list_ex (\<lambda>tag. tag = [] \<or> 64 < length tag \<or> list_ex char_is_whitespace (chars tag)) (ap_tags ap))
           (MeInvalid (field @ ''.tags'') ''too many or malformed tags''),
         validate_ip_hints (ap_ip_hints ap) field,
         fail_if (MAX_SPKI_PINS_PER_AP < length (ap_spki_pins ap) \<or>
                  list_ex (\<lambda>pin. pin = [] \<or> 128 < length pin) (ap_spki_pins ap))
           (MeInvalid (field @ ''.spkiPins'') ''too many or malformed pins'')]
        @ map (\<lambda>kind. fail_if (case services_path kind (ap_services ap) of
                                 None \<Rightarrow> False | Some path \<Rightarrow> \<not> is_valid_path path)
                (MeInvalid (field @ ''.services.'' @ service_kind_str kind) PATH_REASON))
            all_service_kinds
        @ [fail_if (sv_im_quic (ap_services ap) = Some 0)
             (MeInvalid (field @ ''.services.imQuic.port'') ''must be 1-65535'')])"

text \<open>The identifiers seen so far and the number of access points, as the loops collect them.\<close>

record seen_ids =
  seen_regions :: "string list"
  seen_cells :: "string list"
  seen_aps :: "string list"
  ap_total :: nat

definition indexed :: "string \<Rightarrow> nat \<Rightarrow> string" where
  "indexed field i = field @ ''['' @ nat_digits i @ '']''"

fun validate_aps ::
  "string \<Rightarrow> nat \<Rightarrow> AccessPoint list \<Rightarrow> seen_ids \<Rightarrow> ManifestError + seen_ids" where
  "validate_aps field i [] seen = Inr seen"
| "validate_aps field i (ap # aps) seen =
     (let here = indexed (field @ ''.accessPoints'') i in
      ensure (fail_if (\<not> is_valid_id (ap_id ap) \<or> ap_id ap \<in> set (seen_aps seen))
                (MeInvalid (here @ ''.id'') ''invalid or duplicate id''))
        (ensure (validate_access_point ap here)
           (validate_aps field (Suc i) aps (seen \<lparr> seen_aps := ap_id ap # seen_aps seen \<rparr>))))"

fun validate_cells ::
  "string \<Rightarrow> nat \<Rightarrow> Cell list \<Rightarrow> seen_ids \<Rightarrow> ManifestError + seen_ids" where
  "validate_cells field i [] seen = Inr seen"
| "validate_cells field i (cell # cells) seen =
     (let here = indexed (field @ ''.cells'') i;
          total = ap_total seen + length (cell_access_points cell) in
      ensure (fail_if (\<not> is_valid_id (cell_id cell) \<or> cell_id cell \<in> set (seen_cells seen))
                (MeInvalid (here @ ''.id'') ''invalid or duplicate id''))
        (ensure (fail_if (MAX_ACCESS_POINTS < total) (MeInvalid ''regions'' ''too many access points''))
           (and_then
              (validate_aps here 0 (cell_access_points cell)
                 (seen \<lparr> seen_cells := cell_id cell # seen_cells seen, ap_total := total \<rparr>))
              (\<lambda>seen. validate_cells field (Suc i) cells seen))))"

fun validate_regions :: "nat \<Rightarrow> Region list \<Rightarrow> seen_ids \<Rightarrow> ManifestError + seen_ids" where
  "validate_regions i [] seen = Inr seen"
| "validate_regions i (region # regions) seen =
     (let here = indexed ''regions'' i in
      ensure (fail_if (\<not> is_valid_id (rg_id region) \<or> rg_id region \<in> set (seen_regions seen))
                (MeInvalid (here @ ''.id'') ''invalid or duplicate id''))
        (ensure (fail_if (MAX_CELLS_PER_REGION < length (rg_cells region))
                   (MeInvalid (here @ ''.cells'') ''too many cells''))
           (and_then
              (validate_cells here 0 (rg_cells region)
                 (seen \<lparr> seen_regions := rg_id region # seen_regions seen \<rparr>))
              (\<lambda>seen. validate_regions (Suc i) regions seen))))"

definition nothing_seen :: seen_ids where
  "nothing_seen = \<lparr> seen_regions = [], seen_cells = [], seen_aps = [], ap_total = 0 \<rparr>"

definition validate_manifest :: "manifest_readers \<Rightarrow> AccessManifest \<Rightarrow> ManifestError + ManifestTimes" where
  "validate_manifest rd m =
     ensure (first_error
       [fail_if (am_schema m \<noteq> ACCESS_SCHEMA) (MeUnsupportedSchema (am_schema m)),
        fail_if (\<not> is_valid_id (am_bootstrap_id m))
          (MeInvalid ''bootstrapId'' ''must be 1-64 chars of [A-Za-z0-9._:-]''),
        fail_if (am_app_id m = [] \<or> 128 < length (am_app_id m)) (MeInvalid ''appId'' ''must be 1-128 chars'')])
     (and_then (ok_or (MeInvalid ''issuedAt'' ''not RFC 3339'') (rd_rfc3339_ms rd (am_issued_at m)))
       (\<lambda>issued_at_ms.
     and_then (ok_or (MeInvalid ''expiresAt'' ''not RFC 3339'') (rd_rfc3339_ms rd (am_expires_at m)))
       (\<lambda>expires_at_ms.
     ensure (first_error
       [fail_if (expires_at_ms \<le> issued_at_ms) (MeInvalid ''expiresAt'' ''must be later than issuedAt''),
        fail_if (am_regions m = [] \<or> MAX_REGIONS < length (am_regions m))
          (MeInvalid ''regions'' ''must hold 1-32 regions'')])
     (and_then (validate_regions 0 (am_regions m) nothing_seen)
       (\<lambda>seen.
     ensure (first_error
       [fail_if (pl_home_cell (am_placement m) \<notin> set (seen_cells seen))
          (MeInvalid ''placement.homeCell'' ''must reference a cell in regions''),
        fail_if (\<not> list_all (\<lambda>r. r \<in> set (seen_regions seen)) (pl_allowed_regions (am_placement m)))
          (MeInvalid ''placement.allowedRegions'' ''unknown region''),
        fail_if (MAX_BOOTSTRAP_SOURCES < length (bt_sources (am_bootstrap m)))
          (MeInvalid ''bootstrap.sources'' ''too many sources''),
        each (\<lambda>i source. validate_source source (indexed ''bootstrap.sources'' i)) (bt_sources (am_bootstrap m))])
     (Inr \<lparr> mt_issued_at_ms = issued_at_ms, mt_expires_at_ms = expires_at_ms \<rparr>))))))"

definition access_from_slice ::
  "manifest_readers \<Rightarrow> string \<Rightarrow> ManifestError + (AccessManifest \<times> ManifestTimes)" where
  "access_from_slice rd bytes =
     (case rd_schema_header rd bytes of
        Inl e \<Rightarrow> Inl (MeJson e)
      | Inr schema \<Rightarrow>
          if schema \<noteq> ACCESS_SCHEMA then Inl (MeUnsupportedSchema schema)
          else case rd_access_json rd bytes of
            Inl e \<Rightarrow> Inl (MeJson e)
          | Inr m \<Rightarrow> and_then (validate_manifest rd m) (\<lambda>times. Inr (m, times)))"

subsection \<open>Reading an accepted manifest\<close>

fun find_map :: "('a \<Rightarrow> 'b option) \<Rightarrow> 'a list \<Rightarrow> 'b option" where
  "find_map f [] = None"
| "find_map f (x # xs) = (case f x of Some y \<Rightarrow> Some y | None \<Rightarrow> find_map f xs)"

definition home_cell :: "AccessManifest \<Rightarrow> (Region \<times> Cell) option" where
  "home_cell m =
     find_map (\<lambda>region. map_option (\<lambda>cell. (region, cell))
       (find (\<lambda>cell. cell_id cell = pl_home_cell (am_placement m)) (rg_cells region))) (am_regions m)"

definition client_policy :: "AccessManifest \<Rightarrow> ClientPolicy" where
  "client_policy m = resolve (am_client_policy m)"

definition DEFAULT_REFRESH_INTERVAL_SEC :: nat where "DEFAULT_REFRESH_INTERVAL_SEC = 21600"
definition MIN_REFRESH_INTERVAL_SEC :: nat where "MIN_REFRESH_INTERVAL_SEC = 600"
definition MAX_REFRESH_INTERVAL_SEC :: nat where "MAX_REFRESH_INTERVAL_SEC = 86400"

definition refresh_interval_sec :: "AccessManifest \<Rightarrow> nat" where
  "refresh_interval_sec m =
     (let n = (case bt_refresh_interval_sec (am_bootstrap m) of
                 None \<Rightarrow> DEFAULT_REFRESH_INTERVAL_SEC | Some n \<Rightarrow> n) in
      if n < MIN_REFRESH_INTERVAL_SEC then MIN_REFRESH_INTERVAL_SEC
      else if MAX_REFRESH_INTERVAL_SEC < n then MAX_REFRESH_INTERVAL_SEC else n)"

subsection \<open>Recovery manifests\<close>

definition MAX_RECOVERY_LINK_BYTES :: nat where "MAX_RECOVERY_LINK_BYTES = 1024"
definition MAX_RECOVERY_ACCESS_POINTS :: nat where "MAX_RECOVERY_ACCESS_POINTS = 2"
definition MAX_RECOVERY_SOURCES :: nat where "MAX_RECOVERY_SOURCES = 4"

record RecoveryAccessPoint =
  ra_id :: string
  ra_host :: string
  ra_ip_hints :: "string list"
  ra_services :: "Services option"

record RecoveryManifest =
  rm_schema :: string
  rm_bootstrap_id :: string
  rm_app_id :: string
  rm_serial :: u64
  rm_issued_at :: string
  rm_expires_at :: string
  rm_region_id :: string
  rm_cell_id :: string
  rm_access_points :: "RecoveryAccessPoint list"
  rm_sources :: "string list"

definition standard_services :: Services where
  "standard_services =
     \<lparr> sv_im_ws = Some ''/ws'', sv_im_quic = Some 443, sv_core_api = Some ''/api'',
       sv_social_api = Some ''/social-api'', sv_media = Some ''/flare-media'',
       sv_ping = Some ''/.well-known/flare/ping'' \<rparr>"

definition recovery_access_point :: "RecoveryAccessPoint \<Rightarrow> AccessPoint" where
  "recovery_access_point ap =
     \<lparr> ap_id = ra_id ap, ap_host = ra_host ap, ap_ip_hints = ra_ip_hints ap, ap_spki_pins = [],
       ap_weight = 100, ap_priority = 0, ap_status = ApActive, ap_tags = [],
       ap_services = (case ra_services ap of Some s \<Rightarrow> s | None \<Rightarrow> standard_services) \<rparr>"

definition recovery_manifest :: "RecoveryManifest \<Rightarrow> AccessManifest" where
  "recovery_manifest r =
     \<lparr> am_schema = ACCESS_SCHEMA, am_bootstrap_id = rm_bootstrap_id r, am_app_id = rm_app_id r,
       am_serial = rm_serial r, am_issued_at = rm_issued_at r, am_expires_at = rm_expires_at r,
       am_regions = [\<lparr> rg_id = rm_region_id r, rg_display_name = [],
         rg_cells = [\<lparr> cell_id = rm_cell_id r,
           cell_access_points = map recovery_access_point (rm_access_points r) \<rparr>] \<rparr>],
       am_placement = \<lparr> pl_home_cell = rm_cell_id r, pl_allowed_regions = [] \<rparr>,
       am_bootstrap = \<lparr> bt_sources = map https_source (rm_sources r) @ [well_known_source],
         bt_refresh_interval_sec = Some MIN_REFRESH_INTERVAL_SEC \<rparr>,
       am_client_policy = JNull, am_release = None \<rparr>"

definition to_access_manifest ::
  "manifest_readers \<Rightarrow> RecoveryManifest \<Rightarrow> ManifestError + (AccessManifest \<times> ManifestTimes)" where
  "to_access_manifest rd r =
     ensure (first_error
       [fail_if (rm_schema r \<noteq> RECOVERY_SCHEMA) (MeUnsupportedSchema (rm_schema r)),
        fail_if (rm_access_points r = [] \<or> MAX_RECOVERY_ACCESS_POINTS < length (rm_access_points r))
          (MeInvalid ''accessPoints'' ''must hold 1-2 access points''),
        fail_if (MAX_RECOVERY_SOURCES < length (rm_sources r)) (MeInvalid ''sources'' ''too many sources'')])
     (and_then (validate_manifest rd (recovery_manifest r)) (\<lambda>times. Inr (recovery_manifest r, times)))"

subsection \<open>Vocabulary of the lemmas\<close>

definition all_cells :: "AccessManifest \<Rightarrow> Cell list" where
  "all_cells m = concat (map rg_cells (am_regions m))"

definition cells_aps :: "Cell list \<Rightarrow> AccessPoint list" where
  "cells_aps cells = concat (map cell_access_points cells)"

text \<open>An access point that a client may connect to.\<close>

definition usable_ap :: "AccessPoint \<Rightarrow> bool" where
  "usable_ap ap \<longleftrightarrow>
     is_valid_id (ap_id ap) \<and> is_valid_public_host (ap_host ap) \<and> ap_weight ap \<le> 1000 \<and>
     ap_priority ap \<le> 100 \<and> length (ap_ip_hints ap) \<le> MAX_IP_HINTS_PER_AP \<and>
     list_all (\<lambda>hint. parse_ip hint \<noteq> None) (ap_ip_hints ap) \<and>
     list_all (\<lambda>kind. case services_path kind (ap_services ap) of
                 None \<Rightarrow> True | Some path \<Rightarrow> is_valid_path path) all_service_kinds \<and>
     sv_im_quic (ap_services ap) \<noteq> Some 0"

text \<open>What the manifest guarantees once it is validated.\<close>

definition manifest_ok :: "AccessManifest \<Rightarrow> bool" where
  "manifest_ok m \<longleftrightarrow>
     distinct (map rg_id (am_regions m)) \<and> distinct (map cell_id (all_cells m)) \<and>
     distinct (map ap_id (cells_aps (all_cells m))) \<and>
     length (cells_aps (all_cells m)) \<le> MAX_ACCESS_POINTS \<and>
     list_all usable_ap (cells_aps (all_cells m)) \<and>
     set (pl_allowed_regions (am_placement m)) \<subseteq> rg_id ` set (am_regions m) \<and>
     list_all (\<lambda>source. bs_kind source = ''https'' \<longrightarrow>
        (case bs_url source of None \<Rightarrow> False | Some url \<Rightarrow> is_https url)) (bt_sources (am_bootstrap m))"

text \<open>The collected identifiers are without repetition and the total is within its limit.\<close>

definition seen_ok :: "seen_ids \<Rightarrow> bool" where
  "seen_ok seen \<longleftrightarrow>
     distinct (seen_regions seen) \<and> distinct (seen_cells seen) \<and> distinct (seen_aps seen) \<and>
     ap_total seen \<le> MAX_ACCESS_POINTS"

text \<open>A manifest with one region, one cell and one access point, and readers that accept it.\<close>

definition example_readers :: manifest_readers where
  "example_readers =
     \<lparr> rd_rfc3339_ms = (\<lambda>s. if s = ''issued'' then Some 1000 else if s = ''expires'' then Some 2000 else None),
       rd_schema_header = (\<lambda>_. Inr ACCESS_SCHEMA), rd_access_json = (\<lambda>_. Inl ''unused'') \<rparr>"

definition example_recovery :: RecoveryManifest where
  "example_recovery =
     \<lparr> rm_schema = RECOVERY_SCHEMA, rm_bootstrap_id = ''b1'', rm_app_id = ''app'', rm_serial = 7,
       rm_issued_at = ''issued'', rm_expires_at = ''expires'', rm_region_id = ''r1'', rm_cell_id = ''c1'',
       rm_access_points = [\<lparr> ra_id = ''ap1'', ra_host = ''edge.example.com'', ra_ip_hints = [''192.0.2.1''],
         ra_services = None \<rparr>],
       rm_sources = [''https://mirror.example.com/m''] \<rparr>"

section \<open>Lemmas\<close>

lemma usable_validated:
  assumes "validate_access_point ap field = None" "is_valid_id (ap_id ap)"
  shows "usable_ap ap"
  using assms
  by (auto simp: validate_access_point_def check_simps usable_ap_def validate_ip_hints_def list_all_iff
      list_ex_iff split: option.split)

lemma cells_aps_simps [simp]:
  "cells_aps [] = []" "cells_aps (c # cs) = cell_access_points c @ cells_aps cs"
  "cells_aps (cs @ ds) = cells_aps cs @ cells_aps ds"
  by (simp_all add: cells_aps_def)

lemma validate_aps_seen:
  assumes "validate_aps field i aps seen = Inr seen'"
  shows "seen' = seen \<lparr> seen_aps := rev (map ap_id aps) @ seen_aps seen \<rparr> \<and> list_all usable_ap aps"
  using assms
proof (induction field i aps seen arbitrary: seen' rule: validate_aps.induct)
  case (2 field i ap aps seen)
  then show ?case
    by (auto simp: check_simps Let_def intro: usable_validated)
qed simp

lemma validate_aps_ok:
  "validate_aps field i aps seen = Inr seen' \<Longrightarrow> seen_ok seen \<Longrightarrow> seen_ok seen'"
  by (induction field i aps seen arbitrary: seen' rule: validate_aps.induct)
    (auto simp: check_simps Let_def seen_ok_def)

lemma validate_cells_Cons:
  assumes "validate_cells field i (cell # cells) seen = Inr seen'"
  obtains seen1 where
    "cell_id cell \<notin> set (seen_cells seen)"
    "ap_total seen + length (cell_access_points cell) \<le> MAX_ACCESS_POINTS"
    "validate_aps (indexed (field @ ''.cells'') i) 0 (cell_access_points cell)
       (seen \<lparr> seen_cells := cell_id cell # seen_cells seen,
              ap_total := ap_total seen + length (cell_access_points cell) \<rparr>) = Inr seen1"
    "validate_cells field (Suc i) cells seen1 = Inr seen'"
  using assms by (auto simp: check_simps Let_def)

lemma validate_cells_seen:
  assumes "validate_cells field i cells seen = Inr seen'"
  shows "seen_regions seen' = seen_regions seen \<and>
    seen_cells seen' = rev (map cell_id cells) @ seen_cells seen \<and>
    seen_aps seen' = rev (map ap_id (cells_aps cells)) @ seen_aps seen \<and>
    ap_total seen' = ap_total seen + length (cells_aps cells) \<and>
    list_all usable_ap (cells_aps cells)"
  using assms
proof (induction cells arbitrary: i seen)
  case (Cons cell cells)
  from Cons.prems show ?case
    by (rule validate_cells_Cons) (use Cons.IH in \<open>auto dest!: validate_aps_seen\<close>)
qed simp

lemma validate_cells_ok:
  "validate_cells field i cells seen = Inr seen' \<Longrightarrow> seen_ok seen \<Longrightarrow> seen_ok seen'"
proof (induction cells arbitrary: i seen)
  case (Cons cell cells)
  from Cons.prems(1) show ?case
  proof (rule validate_cells_Cons)
    fix seen1
    let ?total = "ap_total seen + length (cell_access_points cell)"
    let ?start = "seen \<lparr> seen_cells := cell_id cell # seen_cells seen, ap_total := ?total \<rparr>"
    assume new: "cell_id cell \<notin> set (seen_cells seen)" "?total \<le> MAX_ACCESS_POINTS"
      and aps: "validate_aps (indexed (field @ ''.cells'') i) 0 (cell_access_points cell) ?start = Inr seen1"
      and rest: "validate_cells field (Suc i) cells seen1 = Inr seen'"
    have "seen_ok ?start" using new Cons.prems(2) by (simp add: seen_ok_def)
    then show "seen_ok seen'" using Cons.IH [OF rest] validate_aps_ok [OF aps] by blast
  qed
qed simp

lemma validate_regions_Cons:
  assumes "validate_regions i (region # regions) seen = Inr seen'"
  obtains seen1 where
    "rg_id region \<notin> set (seen_regions seen)"
    "validate_cells (indexed ''regions'' i) 0 (rg_cells region)
       (seen \<lparr> seen_regions := rg_id region # seen_regions seen \<rparr>) = Inr seen1"
    "validate_regions (Suc i) regions seen1 = Inr seen'"
  using assms by (auto simp: check_simps Let_def)

lemma validate_regions_seen:
  assumes "validate_regions i regions seen = Inr seen'"
  shows "seen_regions seen' = rev (map rg_id regions) @ seen_regions seen \<and>
    seen_cells seen' = rev (map cell_id (concat (map rg_cells regions))) @ seen_cells seen \<and>
    seen_aps seen' = rev (map ap_id (cells_aps (concat (map rg_cells regions)))) @ seen_aps seen \<and>
    ap_total seen' = ap_total seen + length (cells_aps (concat (map rg_cells regions))) \<and>
    list_all usable_ap (cells_aps (concat (map rg_cells regions)))"
  using assms
proof (induction regions arbitrary: i seen)
  case (Cons region regions)
  from Cons.prems show ?case
    by (rule validate_regions_Cons) (use Cons.IH in \<open>auto dest!: validate_cells_seen\<close>)
qed simp

lemma validate_regions_ok:
  "validate_regions i regions seen = Inr seen' \<Longrightarrow> seen_ok seen \<Longrightarrow> seen_ok seen'"
proof (induction regions arbitrary: i seen)
  case (Cons region regions)
  from Cons.prems(1) show ?case
  proof (rule validate_regions_Cons)
    fix seen1
    let ?start = "seen \<lparr> seen_regions := rg_id region # seen_regions seen \<rparr>"
    assume new: "rg_id region \<notin> set (seen_regions seen)"
      and cells: "validate_cells (indexed ''regions'' i) 0 (rg_cells region) ?start = Inr seen1"
      and rest: "validate_regions (Suc i) regions seen1 = Inr seen'"
    have "seen_ok ?start" using new Cons.prems(2) by (simp add: seen_ok_def)
    then show "seen_ok seen'" using Cons.IH [OF rest] validate_cells_ok [OF cells] by blast
  qed
qed simp

lemma find_map_Some_iff: "find_map f xs = None \<longleftrightarrow> (\<forall>x\<in>set xs. f x = None)"
  by (induction xs) (auto split: option.split)

lemma home_cell_exists:
  assumes "pl_home_cell (am_placement m) \<in> cell_id ` set (all_cells m)"
  shows "\<exists>region cell. home_cell m = Some (region, cell)"
proof -
  have "home_cell m \<noteq> None"
    using assms unfolding home_cell_def find_map_Some_iff all_cells_def
    by (fastforce simp: find_None_iff)
  then show ?thesis by force
qed

lemma find_map_SomeD: "find_map f xs = Some y \<Longrightarrow> \<exists>x\<in>set xs. f x = Some y"
  by (induction xs) (auto split: option.splits)

lemma home_cell_Some:
  assumes "home_cell m = Some (region, cell)"
  shows "region \<in> set (am_regions m) \<and> cell \<in> set (rg_cells region) \<and>
    cell_id cell = pl_home_cell (am_placement m)"
  using assms unfolding home_cell_def
  by (auto dest!: find_map_SomeD simp: find_Some_iff)

lemma validate_manifest_ok:
  assumes "validate_manifest rd m = Inr t"
  shows "manifest_ok m" "pl_home_cell (am_placement m) \<in> cell_id ` set (all_cells m)"
    "am_schema m = ACCESS_SCHEMA" "is_valid_id (am_bootstrap_id m)"
    "mt_issued_at_ms t < mt_expires_at_ms t"
    "rd_rfc3339_ms rd (am_issued_at m) = Some (mt_issued_at_ms t)"
    "rd_rfc3339_ms rd (am_expires_at m) = Some (mt_expires_at_ms t)"
proof -
  obtain seen where regions: "validate_regions 0 (am_regions m) nothing_seen = Inr seen"
    and home: "pl_home_cell (am_placement m) \<in> set (seen_cells seen)"
    and allowed: "list_all (\<lambda>r. r \<in> set (seen_regions seen)) (pl_allowed_regions (am_placement m))"
    and sources: "\<And>i. i < length (bt_sources (am_bootstrap m)) \<Longrightarrow>
      validate_source (bt_sources (am_bootstrap m) ! i) (indexed ''bootstrap.sources'' i) = None"
    using assms unfolding validate_manifest_def by (auto simp: check_simps)
  note seen = validate_regions_seen [OF regions]
  have ok: "seen_ok seen"
    using validate_regions_ok [OF regions] by (simp add: nothing_seen_def seen_ok_def)
  have "bs_kind source = ''https'' \<longrightarrow> (case bs_url source of None \<Rightarrow> False | Some url \<Rightarrow> is_https url)"
    if member: "source \<in> set (bt_sources (am_bootstrap m))" for source
  proof -
    obtain i where "i < length (bt_sources (am_bootstrap m))" "bt_sources (am_bootstrap m) ! i = source"
      using member by (auto simp: in_set_conv_nth)
    then show ?thesis
      using sources [of i] by (auto simp: validate_source_def check_simps)
  qed
  moreover have "seen_regions seen = rev (map rg_id (am_regions m))"
    "seen_cells seen = rev (map cell_id (all_cells m))"
    "seen_aps seen = rev (map ap_id (cells_aps (all_cells m)))"
    "ap_total seen = length (cells_aps (all_cells m))" "list_all usable_ap (cells_aps (all_cells m))"
    using seen by (simp_all add: all_cells_def nothing_seen_def)
  ultimately show "manifest_ok m" "pl_home_cell (am_placement m) \<in> cell_id ` set (all_cells m)"
    using ok home allowed by (auto simp: manifest_ok_def seen_ok_def list_all_iff)
  show "am_schema m = ACCESS_SCHEMA" "is_valid_id (am_bootstrap_id m)"
    "mt_issued_at_ms t < mt_expires_at_ms t"
    "rd_rfc3339_ms rd (am_issued_at m) = Some (mt_issued_at_ms t)"
    "rd_rfc3339_ms rd (am_expires_at m) = Some (mt_expires_at_ms t)"
    using assms unfolding validate_manifest_def by (auto simp: check_simps)
qed

lemma refresh_interval_bounds: "refresh_interval_sec m \<in> {600..86400}"
  by (simp add: refresh_interval_sec_def Let_def MIN_REFRESH_INTERVAL_SEC_def MAX_REFRESH_INTERVAL_SEC_def)

lemma to_access_manifest_Inr:
  assumes "to_access_manifest rd r = Inr (m, t)"
  shows "validate_manifest rd m = Inr t" "m = recovery_manifest r" "rm_access_points r \<noteq> []"
  using assms by (auto simp: to_access_manifest_def check_simps)

subsection \<open>Properties\<close>

text \<open>C21. A manifest that passes validation is usable by the code that selects access points: its
  home cell exists and is found, its region, cell and access point identifiers are each without
  repetition, it has at most 256 access points, every one of them has a valid identifier, a
  public host name that is not an IP literal, weight and priority within their ranges, IP hints
  that parse, well-formed service paths and a non-zero QUIC port, the allowed regions exist, the
  https sources are https URLs, the document expires after it was issued, and the refresh
  interval is between 600 and 86400 seconds.
\<close>

theorem validated_manifest_usable:
  assumes "validate_manifest rd m = Inr t"
  shows "manifest_ok m \<and> mt_issued_at_ms t < mt_expires_at_ms t \<and> refresh_interval_sec m \<in> {600..86400} \<and>
    (case home_cell m of
       None \<Rightarrow> False
     | Some (region, cell) \<Rightarrow>
         region \<in> set (am_regions m) \<and> cell \<in> set (rg_cells region) \<and>
         cell_id cell = pl_home_cell (am_placement m))"
proof -
  obtain region cell where "home_cell m = Some (region, cell)"
    using home_cell_exists [OF validate_manifest_ok(2) [OF assms]] by blast
  then show ?thesis
    using validate_manifest_ok(1,5) [OF assms] home_cell_Some refresh_interval_bounds by simp
qed

lemma example_recovery_validates:
  "validate_manifest example_readers (recovery_manifest example_recovery) =
     Inr \<lparr> mt_issued_at_ms = 1000, mt_expires_at_ms = 2000 \<rparr>"
  by code_simp

theorem validated_manifest_usable_witness:
  "manifest_ok (recovery_manifest example_recovery) \<and>
   (case home_cell (recovery_manifest example_recovery) of
      None \<Rightarrow> False | Some (region, cell) \<Rightarrow> cell_id cell = ''c1'')"
  using validated_manifest_usable [OF example_recovery_validates]
  by (auto simp: recovery_manifest_def example_recovery_def split: option.split_asm)

end
