(* ===== verification/Release_Manifest.thy ===== *)
theory Release_Manifest
  imports Access_Manifest
begin

text \<open>
  The release manifest (\<open>access/src/manifest/release.rs\<close>): its data and the structural validation.
  A \<open>BTreeMap\<close> is the list of its entries in key order. The lemmas show that every downloadable
  artifact of an accepted manifest names https addresses, a digest and a positive size.
\<close>

section \<open>Definitions\<close>

subsection \<open>Data\<close>

definition FULL_ROLLOUT_BASIS_POINTS :: nat where "FULL_ROLLOUT_BASIS_POINTS = 10000"
definition MAX_RELEASES :: nat where "MAX_RELEASES = 3"
definition MAX_BLOCKED_BUILD_RANGES :: nat where "MAX_BLOCKED_BUILD_RANGES = 64"
definition MAX_RELEASE_ARTIFACTS :: nat where "MAX_RELEASE_ARTIFACTS = 32"
definition MAX_RELEASE_TARGETS :: nat where "MAX_RELEASE_TARGETS = 16"
definition MAX_ARTIFACT_URLS :: nat where "MAX_ARTIFACT_URLS = 8"
definition MAX_RESOURCE_PACKS :: nat where "MAX_RESOURCE_PACKS = 64"

record BlockedBuilds =
  bb_from :: nat
  bb_to :: nat
  bb_reason :: "(string \<times> string) list"

record ReleasePolicy =
  rp_min_build :: nat
  rp_recommend_below_build :: nat
  rp_blocked_builds :: "BlockedBuilds list"
  rp_block_ui :: bool

record Rollout =
  ro_basis_points :: nat
  ro_salt :: string
  ro_halted :: bool

record ArtifactTarget =
  at_urls :: "string list"
  at_size_bytes :: "nat option"
  at_sha256 :: "string option"
  at_signature :: "string option"

record ReleaseArtifact =
  art_kind :: string
  art_package_name :: "string option"
  art_app_id :: "string option"
  art_store_url :: "string option"
  art_urls :: "string list"
  art_size_bytes :: "nat option"
  art_sha256 :: "string option"
  art_build_id :: "string option"
  art_signing_cert_sha256 :: "string option"
  art_signature :: "string option"
  art_targets :: "(string \<times> ArtifactTarget) list"

record ResourcePack =
  pk_id :: string
  pk_kind :: string
  pk_pack_version :: nat
  pk_min_build :: nat
  pk_url :: "string list"
  pk_sha256 :: string
  pk_size_bytes :: nat

record ReleaseEntry =
  re_release_id :: string
  re_version :: string
  re_build :: nat
  re_published_at :: "string option"
  re_rollout :: Rollout
  re_notes :: "(string \<times> string list) list"
  re_artifacts :: "(string \<times> ReleaseArtifact) list"
  re_resource_packs :: "ResourcePack list"

record ReleaseManifest =
  rl_schema :: string
  rl_bootstrap_id :: string
  rl_platform :: string
  rl_channel :: string
  rl_serial :: u64
  rl_issued_at :: string
  rl_expires_at :: string
  rl_policy :: ReleasePolicy
  rl_releases :: "ReleaseEntry list"

subsection \<open>Validation\<close>

definition is_sha256_hex :: "string \<Rightarrow> bool" where
  "is_sha256_hex s \<longleftrightarrow>
     length s = 64 \<and>
     list_all (\<lambda>c. let n = of_char c :: nat in 48 \<le> n \<and> n \<le> 57 \<or> 97 \<le> n \<and> n \<le> 102) s"

definition is_valid_path_segment :: "string \<Rightarrow> bool" where
  "is_valid_path_segment s \<longleftrightarrow>
     s \<noteq> [] \<and> length s \<le> 32 \<and> hd s \<noteq> CHR ''-'' \<and> last s \<noteq> CHR ''-'' \<and>
     list_all (\<lambda>c. (let n = of_char c :: nat in 97 \<le> n \<and> n \<le> 122 \<or> 48 \<le> n \<and> n \<le> 57) \<or> c = CHR ''-'') s"

definition validate_urls :: "string list \<Rightarrow> string \<Rightarrow> ManifestError option" where
  "validate_urls urls field =
     first_error
       [fail_if (urls = [] \<or> MAX_ARTIFACT_URLS < length urls) (MeInvalid field ''must hold 1-8 URLs''),
        fail_if (\<not> list_all is_https urls) (MeInvalid field ''must be https URLs'')]"

definition opt_sha256 :: "string option \<Rightarrow> bool" where
  "opt_sha256 s = (case s of None \<Rightarrow> False | Some t \<Rightarrow> is_sha256_hex t)"

definition validate_download ::
  "string list \<Rightarrow> nat option \<Rightarrow> string option \<Rightarrow> string \<Rightarrow> ManifestError option" where
  "validate_download urls size_bytes sha256 field =
     first_error
       [validate_urls urls (field @ ''.urls''),
        fail_if (case size_bytes of None \<Rightarrow> True | Some n \<Rightarrow> n = 0)
          (MeInvalid (field @ ''.sizeBytes'') ''must be positive''),
        fail_if (\<not> opt_sha256 sha256) (MeInvalid (field @ ''.sha256'') ''not 64 hex chars'')]"

definition validate_artifact :: "ReleaseArtifact \<Rightarrow> string \<Rightarrow> ManifestError option" where
  "validate_artifact a field =
     (if art_kind a = ''store'' then
        fail_if (art_package_name a = None \<and> art_app_id a = None \<and> art_store_url a = None)
          (MeInvalid field ''store artifact needs packageName, appId or storeUrl'')
      else if art_kind a = ''apk'' then
        first_error
          [validate_download (art_urls a) (art_size_bytes a) (art_sha256 a) field,
           fail_if (\<not> opt_sha256 (art_signing_cert_sha256 a))
             (MeInvalid (field @ ''.signingCertSha256'') ''not 64 hex chars'')]
      else if art_kind a = ''tauri'' \<or> art_kind a = ''electron'' then
        first_error
          (fail_if (art_targets a = [] \<or> MAX_RELEASE_TARGETS < length (art_targets a))
             (MeInvalid (field @ ''.targets'') ''must hold 1-16 targets'')
           # map (\<lambda>(target, artifact).
               first_error
                 [fail_if (\<not> is_valid_id target)
                    (MeInvalid (field @ ''.targets.'' @ target) ''invalid target''),
                  validate_download (at_urls artifact) (at_size_bytes artifact) (at_sha256 artifact)
                    (field @ ''.targets.'' @ target)]) (art_targets a))
      else if art_kind a = ''web_bundle'' then
        first_error
          [fail_if (case art_build_id a of None \<Rightarrow> True | Some b \<Rightarrow> \<not> is_valid_id b)
             (MeInvalid (field @ ''.buildId'') ''must be 1-64 chars of [A-Za-z0-9._:-]''),
           validate_urls (art_urls a) (field @ ''.urls''),
           fail_if (\<not> opt_sha256 (art_sha256 a)) (MeInvalid (field @ ''.sha256'') ''not 64 hex chars'')]
      else None)"

definition validate_pack :: "string \<Rightarrow> nat \<Rightarrow> ResourcePack \<Rightarrow> ManifestError option" where
  "validate_pack field i pack =
     (let here = indexed (field @ ''.resourcePacks'') i in
      first_error
        [fail_if (\<not> is_valid_id (pk_id pack)) (MeInvalid (here @ ''.id'') ''invalid id''),
         validate_urls (pk_url pack) (here @ ''.url''),
         fail_if (\<not> is_sha256_hex (pk_sha256 pack)) (MeInvalid (here @ ''.sha256'') ''not 64 hex chars'')])"

definition validate_entry :: "manifest_readers \<Rightarrow> ReleaseEntry \<Rightarrow> string \<Rightarrow> ManifestError option" where
  "validate_entry rd r field =
     first_error
       ([fail_if (re_version r = [] \<or> 64 < length (re_version r))
           (MeInvalid (field @ ''.version'') ''must be 1-64 chars''),
         fail_if (case re_published_at r of None \<Rightarrow> False | Some t \<Rightarrow> rd_rfc3339_ms rd t = None)
           (MeInvalid (field @ ''.publishedAt'') ''not RFC 3339''),
         fail_if (FULL_ROLLOUT_BASIS_POINTS < ro_basis_points (re_rollout r))
           (MeInvalid (field @ ''.rollout.basisPoints'') ''must be 0-10000''),
         fail_if (ro_salt (re_rollout r) = [] \<or> 128 < length (ro_salt (re_rollout r)))
           (MeInvalid (field @ ''.rollout.salt'') ''must be 1-128 chars''),
         fail_if (re_artifacts r = [] \<or> MAX_RELEASE_ARTIFACTS < length (re_artifacts r))
           (MeInvalid (field @ ''.artifacts'') ''must hold 1-32 distributions'')]
        @ map (\<lambda>(distribution, artifact).
            first_error
              [fail_if (\<not> is_valid_id distribution)
                 (MeInvalid (field @ ''.artifacts.'' @ distribution) ''invalid distribution''),
               validate_artifact artifact (field @ ''.artifacts.'' @ distribution)]) (re_artifacts r)
        @ [fail_if (MAX_RESOURCE_PACKS < length (re_resource_packs r))
             (MeInvalid (field @ ''.resourcePacks'') ''too many packs''),
           each (validate_pack field) (re_resource_packs r)])"

definition validate_policy :: "ReleasePolicy \<Rightarrow> ManifestError option" where
  "validate_policy p =
     first_error
       [fail_if (MAX_BLOCKED_BUILD_RANGES < length (rp_blocked_builds p))
          (MeInvalid ''policy.blockedBuilds'' ''too many ranges''),
        each (\<lambda>i range. fail_if (bb_to range < bb_from range)
               (MeInvalid (indexed ''policy.blockedBuilds'' i) ''from must not exceed to'')) (rp_blocked_builds p)]"

fun validate_releases ::
  "manifest_readers \<Rightarrow> nat \<Rightarrow> ReleaseEntry list \<Rightarrow> string list \<Rightarrow> nat list \<Rightarrow> ManifestError option" where
  "validate_releases rd i [] ids builds = None"
| "validate_releases rd i (r # rs) ids builds =
     (let field = indexed ''releases'' i in
      first_error
        [fail_if (\<not> is_valid_id (re_release_id r) \<or> re_release_id r \<in> set ids)
           (MeInvalid (field @ ''.releaseId'') ''invalid or duplicate id''),
         fail_if (re_build r \<in> set builds) (MeInvalid (field @ ''.build'') ''duplicate build''),
         validate_entry rd r field,
         validate_releases rd (Suc i) rs (re_release_id r # ids) (re_build r # builds)])"

definition validate_release_manifest :: "manifest_readers \<Rightarrow> ReleaseManifest \<Rightarrow> ManifestError + ManifestTimes" where
  "validate_release_manifest rd m =
     ensure (first_error
       [fail_if (rl_schema m \<noteq> RELEASE_SCHEMA) (MeUnsupportedSchema (rl_schema m)),
        fail_if (\<not> is_valid_id (rl_bootstrap_id m))
          (MeInvalid ''bootstrapId'' ''must be 1-64 chars of [A-Za-z0-9._:-]''),
        fail_if (\<not> is_valid_path_segment (rl_platform m))
          (MeInvalid ''platform'' ''must be 1-32 chars of [a-z0-9-]''),
        fail_if (\<not> is_valid_path_segment (rl_channel m))
          (MeInvalid ''channel'' ''must be 1-32 chars of [a-z0-9-]'')])
     (and_then (ok_or (MeInvalid ''issuedAt'' ''not RFC 3339'') (rd_rfc3339_ms rd (rl_issued_at m)))
       (\<lambda>issued_at_ms.
     and_then (ok_or (MeInvalid ''expiresAt'' ''not RFC 3339'') (rd_rfc3339_ms rd (rl_expires_at m)))
       (\<lambda>expires_at_ms.
     ensure (first_error
       [fail_if (expires_at_ms \<le> issued_at_ms) (MeInvalid ''expiresAt'' ''must be later than issuedAt''),
        validate_policy (rl_policy m),
        fail_if (MAX_RELEASES < length (rl_releases m)) (MeInvalid ''releases'' ''must hold at most 3 releases''),
        validate_releases rd 0 (rl_releases m) [] []])
     (Inr \<lparr> mt_issued_at_ms = issued_at_ms, mt_expires_at_ms = expires_at_ms \<rparr>))))"

definition release_from_slice ::
  "manifest_readers \<Rightarrow> (string \<Rightarrow> string + ReleaseManifest) \<Rightarrow> string \<Rightarrow>
   ManifestError + (ReleaseManifest \<times> ManifestTimes)" where
  "release_from_slice rd release_json bytes =
     (case rd_schema_header rd bytes of
        Inl e \<Rightarrow> Inl (MeJson e)
      | Inr schema \<Rightarrow>
          if schema \<noteq> RELEASE_SCHEMA then Inl (MeUnsupportedSchema schema)
          else case release_json bytes of
            Inl e \<Rightarrow> Inl (MeJson e)
          | Inr m \<Rightarrow> and_then (validate_release_manifest rd m) (\<lambda>times. Inr (m, times)))"

subsection \<open>Vocabulary of the lemmas\<close>

text \<open>What a downloader needs of the addresses, size and digest of one file.\<close>

definition downloadable :: "string list \<Rightarrow> nat option \<Rightarrow> string option \<Rightarrow> bool" where
  "downloadable urls bytes sha256 \<longleftrightarrow>
     urls \<noteq> [] \<and> list_all is_https urls \<and> (case bytes of None \<Rightarrow> False | Some n \<Rightarrow> 0 < n) \<and> opt_sha256 sha256"

definition artifact_ok :: "ReleaseArtifact \<Rightarrow> bool" where
  "artifact_ok a \<longleftrightarrow>
     (if art_kind a = ''apk'' then
        downloadable (art_urls a) (art_size_bytes a) (art_sha256 a) \<and> opt_sha256 (art_signing_cert_sha256 a)
      else if art_kind a = ''tauri'' \<or> art_kind a = ''electron'' then
        art_targets a \<noteq> [] \<and>
        list_all (\<lambda>(_, t). downloadable (at_urls t) (at_size_bytes t) (at_sha256 t)) (art_targets a)
      else if art_kind a = ''web_bundle'' then
        art_urls a \<noteq> [] \<and> list_all is_https (art_urls a) \<and> opt_sha256 (art_sha256 a) \<and> art_build_id a \<noteq> None
      else True)"

definition release_ok :: "ReleaseEntry \<Rightarrow> bool" where
  "release_ok r \<longleftrightarrow>
     re_artifacts r \<noteq> [] \<and> list_all (\<lambda>(_, a). artifact_ok a) (re_artifacts r) \<and>
     ro_basis_points (re_rollout r) \<le> FULL_ROLLOUT_BASIS_POINTS \<and>
     list_all (\<lambda>p. is_sha256_hex (pk_sha256 p) \<and> list_all is_https (pk_url p)) (re_resource_packs r)"

text \<open>A manifest with one release that is distributed as an APK.\<close>

definition example_digest :: string where
  "example_digest = replicate 64 (CHR ''a'')"

definition example_release :: ReleaseManifest where
  "example_release =
     \<lparr> rl_schema = RELEASE_SCHEMA, rl_bootstrap_id = ''b1'', rl_platform = ''android'', rl_channel = ''stable'',
       rl_serial = 3, rl_issued_at = ''issued'', rl_expires_at = ''expires'',
       rl_policy = \<lparr> rp_min_build = 1, rp_recommend_below_build = 2, rp_blocked_builds = [], rp_block_ui = False \<rparr>,
       rl_releases = [\<lparr> re_release_id = ''rel1'', re_version = ''1.0'', re_build = 5, re_published_at = None,
         re_rollout = \<lparr> ro_basis_points = 10000, ro_salt = ''s'', ro_halted = False \<rparr>, re_notes = [],
         re_artifacts = [(''direct'', \<lparr> art_kind = ''apk'', art_package_name = None, art_app_id = None,
           art_store_url = None, art_urls = [''https://dl.example.com/a.apk''], art_size_bytes = Some 10,
           art_sha256 = Some example_digest, art_build_id = None,
           art_signing_cert_sha256 = Some example_digest, art_signature = None, art_targets = [] \<rparr>)],
         re_resource_packs = [] \<rparr>] \<rparr>"

section \<open>Lemmas\<close>

lemma validate_download_ok:
  "validate_download urls bytes sha256 field = None \<Longrightarrow> downloadable urls bytes sha256"
  by (auto simp: validate_download_def validate_urls_def check_simps downloadable_def split: option.split_asm)

lemma validate_artifact_ok:
  assumes "validate_artifact a field = None"
  shows "artifact_ok a"
proof -
  consider "art_kind a = ''apk''" | "art_kind a = ''tauri'' \<or> art_kind a = ''electron''"
    | "art_kind a = ''web_bundle''"
    | "art_kind a \<notin> {''apk'', ''tauri'', ''electron'', ''web_bundle''}" by blast
  then show ?thesis
  proof cases
    case 1
    then show ?thesis
      using assms validate_download_ok by (auto simp: validate_artifact_def artifact_ok_def check_simps)
  next
    case 2
    then show ?thesis
      using assms validate_download_ok
      by (fastforce simp: validate_artifact_def artifact_ok_def check_simps list_all_iff)
  next
    case 3
    then show ?thesis
      using assms
      by (auto simp: validate_artifact_def artifact_ok_def check_simps validate_urls_def split: option.split_asm)
  next
    case 4
    then show ?thesis by (auto simp: artifact_ok_def)
  qed
qed

lemma validate_entry_ok:
  assumes "validate_entry rd r field = None"
  shows "release_ok r"
proof -
  have "artifact_ok a" if "(d, a) \<in> set (re_artifacts r)" for d a
    using that assms validate_artifact_ok
    by (fastforce simp: validate_entry_def check_simps list_all_iff)
  moreover have "is_sha256_hex (pk_sha256 p) \<and> list_all is_https (pk_url p)"
    if "p \<in> set (re_resource_packs r)" for p
  proof -
    obtain i where "i < length (re_resource_packs r)" "re_resource_packs r ! i = p"
      using \<open>p \<in> _\<close> by (auto simp: in_set_conv_nth)
    then have "validate_pack field i p = None"
      using assms by (auto simp: validate_entry_def check_simps)
    then show ?thesis by (simp add: validate_pack_def Let_def validate_urls_def check_simps)
  qed
  moreover have "re_artifacts r \<noteq> []" "ro_basis_points (re_rollout r) \<le> FULL_ROLLOUT_BASIS_POINTS"
    using assms by (auto simp: validate_entry_def check_simps)
  ultimately show ?thesis by (auto simp: release_ok_def list_all_iff)
qed

lemma validate_releases_ok:
  assumes "validate_releases rd i rs ids builds = None"
  shows "list_all release_ok rs \<and> distinct (map re_release_id rs) \<and> distinct (map re_build rs) \<and>
    set (map re_release_id rs) \<inter> set ids = {} \<and> set (map re_build rs) \<inter> set builds = {}"
  using assms
proof (induction rs arbitrary: i ids builds)
  case (Cons r rs)
  then have new: "re_release_id r \<notin> set ids" "re_build r \<notin> set builds"
    and entry: "validate_entry rd r (indexed ''releases'' i) = None"
    and rest: "validate_releases rd (Suc i) rs (re_release_id r # ids) (re_build r # builds) = None"
    by (simp_all add: Let_def check_simps)
  show ?case using Cons.IH [OF rest] new validate_entry_ok [OF entry] by simp
qed simp

lemma validate_release_manifest_Inr:
  assumes "validate_release_manifest rd m = Inr t"
  shows "validate_releases rd 0 (rl_releases m) [] [] = None" "validate_policy (rl_policy m) = None"
    "length (rl_releases m) \<le> MAX_RELEASES" "mt_issued_at_ms t < mt_expires_at_ms t"
    "is_valid_id (rl_bootstrap_id m)" "is_valid_path_segment (rl_platform m)" "is_valid_path_segment (rl_channel m)"
  using assms by (auto simp: validate_release_manifest_def check_simps)

lemma validate_policy_ok:
  "validate_policy p = None \<Longrightarrow> list_all (\<lambda>r. bb_from r \<le> bb_to r) (rp_blocked_builds p)"
  by (auto simp: validate_policy_def check_simps list_all_length not_less)

subsection \<open>Properties\<close>

text \<open>C22. A release manifest that passes validation can be acted upon safely: it has at most three
  releases with distinct identifiers and builds, every blocked range is ordered, and each
  release has an artifact and a rollout share of at most 100 percent, every APK and every desktop
  target names https addresses, a positive size and a SHA-256 digest, an APK also the digest of its
  signing certificate, a web bundle its build id, and every resource pack https addresses and a
  digest.
\<close>

theorem validated_release_downloadable:
  assumes "validate_release_manifest rd m = Inr t"
  shows "length (rl_releases m) \<le> 3 \<and> distinct (map re_release_id (rl_releases m)) \<and>
    distinct (map re_build (rl_releases m)) \<and> list_all release_ok (rl_releases m) \<and>
    list_all (\<lambda>r. bb_from r \<le> bb_to r) (rp_blocked_builds (rl_policy m)) \<and>
    mt_issued_at_ms t < mt_expires_at_ms t"
  using validate_release_manifest_Inr [OF assms] validate_releases_ok [of rd 0 "rl_releases m" "[]" "[]"]
    validate_policy_ok [of "rl_policy m"]
  by (simp add: MAX_RELEASES_def)

lemma example_release_validates:
  "validate_release_manifest example_readers example_release =
     Inr \<lparr> mt_issued_at_ms = 1000, mt_expires_at_ms = 2000 \<rparr>"
  by code_simp

theorem validated_release_downloadable_witness:
  "length (rl_releases example_release) = 1 \<and> list_all release_ok (rl_releases example_release)"
  using validated_release_downloadable [OF example_release_validates]
  by (simp add: example_release_def)

end
