(* ===== verification/Envelope.thy ===== *)
theory Envelope
  imports Release_Manifest
begin

text \<open>
  Signed envelopes (\<open>access/src/trust/envelope.rs\<close>, the errors of \<open>trust/error.rs\<close>): the
  pre-authentication encoding that is signed, the bounded parser, the payload check, the check of
  one signature, and recovery links. Base64, Ed25519, SHA-256 and the JSON readers are the
  parameters collected in \<open>trust_env\<close>; a public key is given by its bytes. The lemmas show that
  the pre-authentication encoding is injective and that a recovery link reads back as the
  envelope it was made from.
\<close>

section \<open>Definitions\<close>

subsection \<open>Errors\<close>

datatype KeyCertError =
    KcMalformed
  | KcWrongPayloadType
  | KcUnsupportedSchema
  | KcUnknownRoot
  | KcBadRootSignature
  | KcRootMismatch
  | KcNotYetValid
  | KcExpired
  | KcUsageNotAllowed
  | KcScopeMismatch

definition key_cert_error_code :: "KeyCertError \<Rightarrow> string" where
  "key_cert_error_code e =
     (case e of
        KcMalformed \<Rightarrow> ''malformed''
      | KcWrongPayloadType \<Rightarrow> ''wrongPayloadType''
      | KcUnsupportedSchema \<Rightarrow> ''unsupportedSchema''
      | KcUnknownRoot \<Rightarrow> ''unknownRoot''
      | KcBadRootSignature \<Rightarrow> ''badRootSignature''
      | KcRootMismatch \<Rightarrow> ''rootMismatch''
      | KcNotYetValid \<Rightarrow> ''notYetValid''
      | KcExpired \<Rightarrow> ''expired''
      | KcUsageNotAllowed \<Rightarrow> ''usageNotAllowed''
      | KcScopeMismatch \<Rightarrow> ''scopeMismatch'')"

datatype TrustError =
    TeTooLarge nat nat
  | TeMalformedEnvelope string
  | TeWrongPayloadType string string
  | TeBadSignature string
  | TeUnknownKey string
  | TeKeyCert string KeyCertError
  | TeRevoked string
  | TeExpired i64
  | TeRollback u64 u64
  | TeWrongBootstrapId string string
  | TeWrongReleaseTarget string string
  | TeUnsupportedSchema string
  | TeInvalidPayload ManifestError
  | TeConfig string

datatype TrustFailureKind =
    FkTooLarge
  | FkMalformed
  | FkWrongPayloadType
  | FkTampered
  | FkUntrusted
  | FkRevoked
  | FkExpired
  | FkRollback
  | FkWrongBootstrapId
  | FkUnsupportedSchema
  | FkInvalidPayload
  | FkConfig

definition trust_error_kind :: "TrustError \<Rightarrow> TrustFailureKind" where
  "trust_error_kind e =
     (case e of
        TeTooLarge _ _ \<Rightarrow> FkTooLarge
      | TeMalformedEnvelope _ \<Rightarrow> FkMalformed
      | TeWrongPayloadType _ _ \<Rightarrow> FkWrongPayloadType
      | TeBadSignature _ \<Rightarrow> FkTampered
      | TeUnknownKey _ \<Rightarrow> FkUntrusted
      | TeKeyCert _ reason \<Rightarrow>
          (case reason of
             KcBadRootSignature \<Rightarrow> FkTampered
           | KcNotYetValid \<Rightarrow> FkExpired
           | KcExpired \<Rightarrow> FkExpired
           | KcUnknownRoot \<Rightarrow> FkUntrusted
           | KcRootMismatch \<Rightarrow> FkUntrusted
           | KcUsageNotAllowed \<Rightarrow> FkUntrusted
           | KcScopeMismatch \<Rightarrow> FkUntrusted
           | KcMalformed \<Rightarrow> FkMalformed
           | KcWrongPayloadType \<Rightarrow> FkMalformed
           | KcUnsupportedSchema \<Rightarrow> FkMalformed)
      | TeRevoked _ \<Rightarrow> FkRevoked
      | TeExpired _ \<Rightarrow> FkExpired
      | TeRollback _ _ \<Rightarrow> FkRollback
      | TeWrongBootstrapId _ _ \<Rightarrow> FkWrongBootstrapId
      | TeWrongReleaseTarget _ _ \<Rightarrow> FkWrongBootstrapId
      | TeUnsupportedSchema _ \<Rightarrow> FkUnsupportedSchema
      | TeInvalidPayload _ \<Rightarrow> FkInvalidPayload
      | TeConfig _ \<Rightarrow> FkConfig)"

definition trust_error_code :: "TrustError \<Rightarrow> string" where
  "trust_error_code e =
     (case e of
        TeTooLarge _ _ \<Rightarrow> ''tooLarge''
      | TeMalformedEnvelope _ \<Rightarrow> ''malformedEnvelope''
      | TeWrongPayloadType _ _ \<Rightarrow> ''wrongPayloadType''
      | TeBadSignature _ \<Rightarrow> ''badSignature''
      | TeUnknownKey _ \<Rightarrow> ''unknownKey''
      | TeKeyCert _ reason \<Rightarrow> ''keyCert.'' @ key_cert_error_code reason
      | TeRevoked _ \<Rightarrow> ''revoked''
      | TeExpired _ \<Rightarrow> ''expired''
      | TeRollback _ _ \<Rightarrow> ''rollback''
      | TeWrongBootstrapId _ _ \<Rightarrow> ''wrongBootstrapId''
      | TeWrongReleaseTarget _ _ \<Rightarrow> ''wrongReleaseTarget''
      | TeUnsupportedSchema _ \<Rightarrow> ''unsupportedSchema''
      | TeInvalidPayload _ \<Rightarrow> ''invalidPayload''
      | TeConfig _ \<Rightarrow> ''config'')"

subsection \<open>Envelopes and signed documents\<close>

record EnvelopeSignature =
  es_keyid :: string
  es_sig :: string

record Envelope =
  ev_payload_type :: string
  ev_payload :: string
  ev_signatures :: "EnvelopeSignature list"
  ev_key_certs :: "string list"

record KeyCert =
  kc_schema :: string
  kc_key_id :: string
  kc_public_key :: string
  kc_usages :: "string list"
  kc_scope :: "string list"
  kc_not_before :: string
  kc_not_after :: string
  kc_root_key_id :: string

record KeyState =
  ks_schema :: string
  ks_serial :: u64
  ks_issued_at :: string
  ks_certificates :: "string list"
  ks_revoked_key_ids :: "string list"

text \<open>
  What third-party crates provide: Base64 in the two alphabets and its encoder, Ed25519 keys
  (\<open>te_valid_key\<close>: the bytes are a point, \<open>te_weak_key\<close>: of small order), signatures of the
  right length and their strict verification and signing, SHA-256, and the JSON readers and
  writers of the documents.
\<close>

record trust_env =
  te_decode_standard :: "string \<Rightarrow> string option"
  te_decode_url_safe :: "string \<Rightarrow> string option"
  te_encode_url_safe :: "string \<Rightarrow> string"
  te_valid_key :: "string \<Rightarrow> bool"
  te_weak_key :: "string \<Rightarrow> bool"
  te_valid_signature :: "string \<Rightarrow> bool"
  te_verify_strict :: "string \<Rightarrow> string \<Rightarrow> string \<Rightarrow> bool"
  te_sign :: "string \<Rightarrow> string \<Rightarrow> string"
  te_sha256 :: "string \<Rightarrow> string"
  te_readers :: manifest_readers
  te_envelope_json :: "string \<Rightarrow> Envelope option"
  te_envelope_to_json :: "Envelope \<Rightarrow> string"
  te_cert_json :: "string \<Rightarrow> KeyCert option"
  te_cert_to_json :: "KeyCert \<Rightarrow> string"
  te_value_json :: "string \<Rightarrow> string + json"
  te_keystate_value :: "json \<Rightarrow> string + KeyState"
  te_recovery_json :: "string \<Rightarrow> string + RecoveryManifest"
  te_release_json :: "string \<Rightarrow> string + ReleaseManifest"

definition decode_b64 :: "trust_env \<Rightarrow> string \<Rightarrow> string option" where
  "decode_b64 te s =
     (if CHR ''+'' \<in> set s \<or> CHR ''/'' \<in> set s then te_decode_standard te s else te_decode_url_safe te s)"

definition encode_b64 :: "trust_env \<Rightarrow> string \<Rightarrow> string" where
  "encode_b64 te bytes = te_encode_url_safe te bytes"

definition pae :: "string \<Rightarrow> string \<Rightarrow> string" where
  "pae ptype payload =
     ''DSSEv1 '' @ nat_digits (length ptype) @ '' '' @ ptype @ '' '' @
     nat_digits (length payload) @ '' '' @ payload"

definition envelope_parse :: "trust_env \<Rightarrow> string \<Rightarrow> TrustError + Envelope" where
  "envelope_parse te bytes =
     (if MAX_DOCUMENT_BYTES < length bytes then Inl (TeTooLarge (length bytes) MAX_DOCUMENT_BYTES)
      else case te_envelope_json te bytes of
        None \<Rightarrow> Inl (TeMalformedEnvelope ''not a DSSE envelope'')
      | Some envelope \<Rightarrow>
          if ev_signatures envelope = [] then Inl (TeMalformedEnvelope ''no signatures'')
          else if MAX_SIGNATURES < length (ev_signatures envelope) then
            Inl (TeMalformedEnvelope ''too many signatures'')
          else if MAX_KEY_CERTS < length (ev_key_certs envelope) then
            Inl (TeMalformedEnvelope ''too many key certificates'')
          else Inr envelope)"

definition open_payload :: "trust_env \<Rightarrow> string \<Rightarrow> Envelope \<Rightarrow> TrustError + string" where
  "open_payload te expected envelope =
     (if ev_payload_type envelope \<noteq> expected then
        Inl (TeWrongPayloadType expected (ev_payload_type envelope))
      else ok_or (TeMalformedEnvelope ''payload is not base64'') (decode_b64 te (ev_payload envelope)))"

definition verify_signature :: "trust_env \<Rightarrow> string \<Rightarrow> string \<Rightarrow> string \<Rightarrow> string \<Rightarrow> bool" where
  "verify_signature te key ptype payload signature_b64 =
     (if 128 < length signature_b64 then False
      else case decode_b64 te signature_b64 of
        None \<Rightarrow> False
      | Some bytes \<Rightarrow> te_valid_signature te bytes \<and> te_verify_strict te key (pae ptype payload) bytes)"

subsection \<open>Recovery links\<close>

definition RECOVERY_LINK_SCHEME :: string where "RECOVERY_LINK_SCHEME = ''flare-recover''"
definition RECOVERY_LINK_PREFIX :: string where "RECOVERY_LINK_PREFIX = ''flare-recover://v1''"

definition to_recovery_link :: "Envelope \<Rightarrow> string option" where
  "to_recovery_link envelope =
     (case ev_signatures envelope of
        [signature] \<Rightarrow>
          (case url_parse RECOVERY_LINK_PREFIX of
             Inl _ \<Rightarrow> None
           | Inr link \<Rightarrow>
               Some (url_display
                 (append_query_pair ''s'' (es_sig signature)
                    (append_query_pair ''k'' (es_keyid signature)
                       (append_query_pair ''p'' (ev_payload envelope) link)))))
      | _ \<Rightarrow> None)"

definition link_field :: "ParsedUrl \<Rightarrow> string \<Rightarrow> TrustError + string" where
  "link_field link name =
     ok_or (TeMalformedEnvelope ''recovery link is incomplete'')
       (case find (\<lambda>(key, _). key = name) (query_pairs link) of
          None \<Rightarrow> None
        | Some (_, v) \<Rightarrow> if v = [] then None else Some v)"

definition from_recovery_link :: "string \<Rightarrow> TrustError + Envelope" where
  "from_recovery_link raw =
     (let s = trim raw in
      if MAX_RECOVERY_LINK_BYTES < length s then Inl (TeTooLarge (length s) MAX_RECOVERY_LINK_BYTES)
      else case url_parse s of
        Inl _ \<Rightarrow> Inl (TeMalformedEnvelope ''not a recovery link'')
      | Inr link \<Rightarrow>
          if url_scheme link \<noteq> RECOVERY_LINK_SCHEME \<or> url_host link \<noteq> ''v1'' then
            Inl (TeMalformedEnvelope ''not a recovery link'')
          else
            and_then (link_field link ''p'') (\<lambda>payload.
            and_then (link_field link ''k'') (\<lambda>keyid.
            and_then (link_field link ''s'') (\<lambda>sig.
              Inr \<lparr> ev_payload_type = RECOVERY_PAYLOAD_TYPE, ev_payload = payload,
                    ev_signatures = [\<lparr> es_keyid = keyid, es_sig = sig \<rparr>], ev_key_certs = [] \<rparr>))))"

subsection \<open>Signing\<close>

record Signer =
  sg_key_id :: string
  sg_key :: string

definition sign_envelope ::
  "trust_env \<Rightarrow> string \<Rightarrow> string \<Rightarrow> Signer list \<Rightarrow> string list \<Rightarrow> Envelope" where
  "sign_envelope te ptype payload signers key_certs =
     (let message = pae ptype payload in
      \<lparr> ev_payload_type = ptype, ev_payload = encode_b64 te payload,
        ev_signatures = map (\<lambda>signer. \<lparr> es_keyid = sg_key_id signer,
          es_sig = encode_b64 te (te_sign te (sg_key signer) message) \<rparr>) signers,
        ev_key_certs = key_certs \<rparr>)"

definition issue_key_cert :: "trust_env \<Rightarrow> Signer \<Rightarrow> KeyCert \<Rightarrow> string" where
  "issue_key_cert te signer cert =
     encode_b64 te (te_envelope_to_json te
       (sign_envelope te KEYCERT_PAYLOAD_TYPE (te_cert_to_json te cert) [signer] []))"

definition sign_access_manifest :: "trust_env \<Rightarrow> string \<Rightarrow> Signer \<Rightarrow> string list \<Rightarrow> string" where
  "sign_access_manifest te payload online key_certs =
     te_envelope_to_json te (sign_envelope te ACCESS_PAYLOAD_TYPE payload [online] key_certs)"

definition sign_release_manifest :: "trust_env \<Rightarrow> string \<Rightarrow> Signer \<Rightarrow> string list \<Rightarrow> string" where
  "sign_release_manifest te payload online key_certs =
     te_envelope_to_json te (sign_envelope te RELEASE_PAYLOAD_TYPE payload [online] key_certs)"

subsection \<open>Vocabulary of the lemmas\<close>

text \<open>The query and the URL of a recovery link.\<close>

definition link_query :: "string \<Rightarrow> string \<Rightarrow> string \<Rightarrow> string" where
  "link_query p k s =
     join_on (CHR ''&'')
       [''p='' @ form_encode p, ''k='' @ form_encode k, ''s='' @ form_encode s]"

definition link_url :: "string \<Rightarrow> string \<Rightarrow> string \<Rightarrow> ParsedUrl" where
  "link_url p k s =
     \<lparr> url_scheme = ''flare-recover'', url_host = ''v1'', url_ip = None, url_port = None, url_path = [],
       url_query = Some (link_query p k s), url_fragment = None \<rparr>"

definition example_envelope :: Envelope where
  "example_envelope =
     \<lparr> ev_payload_type = RECOVERY_PAYLOAD_TYPE, ev_payload = ''eyJ-_A'',
       ev_signatures = [\<lparr> es_keyid = ''root:a'', es_sig = ''c2ln'' \<rparr>], ev_key_certs = [] \<rparr>"

section \<open>Lemmas\<close>

subsection \<open>The pre-authentication encoding\<close>

lemma nat_digits_no_space: "CHR '' '' \<notin> set (nat_digits n)"
  using nat_digits_correct [of n] by (auto simp: list_all_iff is_digit_def)

lemma nat_digits_inj: "nat_digits m = nat_digits n \<Longrightarrow> m = n"
  using nat_digits_correct by metis

text \<open>A number ended by a space is read back from the front of a text.\<close>

lemma counted_inj:
  assumes "nat_digits m @ CHR '' '' # s = nat_digits n @ CHR '' '' # t"
  shows "m = n \<and> s = t"
proof -
  note front = split_once_append [OF nat_digits_no_space]
  have "Some (nat_digits m, s) = Some (nat_digits n, t)"
    using front [of m s] front [of n t] unfolding assms by (rule trans [OF sym])
  then have "nat_digits m = nat_digits n" "s = t" by (simp_all only: option.inject prod.inject)
  then show ?thesis using nat_digits_inj by blast
qed

lemma pae_inj: "pae a p = pae b q \<Longrightarrow> a = b \<and> p = q"
proof -
  assume "pae a p = pae b q"
  then have "nat_digits (length a) @ CHR '' '' # (a @ CHR '' '' # nat_digits (length p) @ CHR '' '' # p) =
      nat_digits (length b) @ CHR '' '' # (b @ CHR '' '' # nat_digits (length q) @ CHR '' '' # q)"
    by (simp add: pae_def)
  then have len: "length a = length b"
    and rest: "a @ CHR '' '' # nat_digits (length p) @ CHR '' '' # p =
      b @ CHR '' '' # nat_digits (length q) @ CHR '' '' # q"
    using counted_inj by blast+
  then have "a = b" "nat_digits (length p) @ CHR '' '' # p = nat_digits (length q) @ CHR '' '' # q"
    by simp_all
  then show ?thesis using counted_inj by blast
qed

subsection \<open>Recovery links\<close>

lemma recovery_prefix_parses:
  "url_parse RECOVERY_LINK_PREFIX =
     Inr \<lparr> url_scheme = ''flare-recover'', url_host = ''v1'', url_ip = None, url_port = None, url_path = [],
           url_query = None, url_fragment = None \<rparr>"
  by code_simp

lemma to_recovery_link_text:
  assumes "ev_signatures envelope = [signature]"
  shows "to_recovery_link envelope =
    Some (url_display (link_url (ev_payload envelope) (es_keyid signature) (es_sig signature)))"
proof -
  have plain: "form_encode ''p'' = ''p''" "form_encode ''k'' = ''k''" "form_encode ''s'' = ''s''"
    by code_simp+
  show ?thesis
    by (simp add: to_recovery_link_def assms recovery_prefix_parses append_query_pair_def plain
        link_url_def link_query_def)
qed

lemma form_safe_plain:
  assumes "form_safe c"
  shows "\<not> forbidden_byte c" "\<not> in_query_set c" "c \<notin> {CHR ''#'', CHR ''&'', CHR ''=''}"
  using assms
  by (auto simp: form_safe_def form_plain_def forbidden_byte_def in_query_set_def is_ascii_def
      is_ascii_alphanumeric_def Let_def)

lemma link_query_bytes:
  assumes "c \<in> set (link_query p k s)"
  shows "form_safe c \<or> c = CHR ''&'' \<or> c = CHR ''=''"
proof -
  have "form_safe (CHR ''p'')" "form_safe (CHR ''k'')" "form_safe (CHR ''s'')"
    by (simp_all add: form_safe_def form_plain_def is_ascii_alphanumeric_def)
  then show ?thesis
    using assms form_encode_safe [of p] form_encode_safe [of k] form_encode_safe [of s]
    by (auto simp: link_query_def list_all_iff)
qed

lemma link_url_canonical: "url_canonical (link_url p k s)"
proof -
  have "\<not> forbidden_byte c \<and> \<not> in_query_set c \<and> c \<noteq> CHR ''#''" if "c \<in> set (link_query p k s)" for c
    using link_query_bytes [OF that] form_safe_plain [of c]
    by (auto simp: forbidden_byte_def in_query_set_def is_ascii_def)
  then have "percent_encode (link_query p k s) in_query_set = link_query p k s"
    "list_all (\<lambda>c. \<not> forbidden_byte c \<and> c \<noteq> CHR ''#'') (link_query p k s)"
    by (auto intro: percent_encode_id simp: list_ex_iff list_all_iff)
  moreover have "parse_scheme ''flare-recover'' = Inr ''flare-recover''"
    "default_port ''flare-recover'' = None" "parse_domain ''v1'' False = Inr (''v1'', None)"
    "parse_path [] False = Inr []"
    by code_simp+
  ultimately show ?thesis
    by (simp add: url_canonical_def link_url_def query_set_of_def)
qed

lemma link_query_pairs:
  assumes "is_utf8 p" "is_utf8 k" "is_utf8 s"
  shows "query_pairs (link_url p k s) = [(''p'', p), (''k'', k), (''s'', s)]"
proof -
  let ?parts = "[''p='' @ form_encode p, ''k='' @ form_encode k, ''s='' @ form_encode s]"
  have "CHR ''&'' \<notin> set (form_encode v)" for v
    using form_encode_safe [of v] form_safe_plain(3) by (auto simp: list_all_iff)
  then have "split_on (CHR ''&'') (join_on (CHR ''&'') ?parts) = ?parts"
    by (intro split_join) auto
  moreover have "form_decode ''p'' = ''p''" "form_decode ''k'' = ''k''" "form_decode ''s'' = ''s''"
    by code_simp+
  ultimately show ?thesis
    using assms by (simp add: query_pairs_def link_url_def link_query_def form_decode_encode)
qed

lemma form_safe_not_white:
  "form_safe c \<Longrightarrow> w \<in> set white_space \<Longrightarrow> hd w \<noteq> c \<and> last w \<noteq> c"
  by (auto simp: white_space_def form_safe_def form_plain_def is_ascii_alphanumeric_def)

lemma link_url_display:
  "url_display (link_url p k s) =
     ''flare-recover://v1?'' @ ''p='' @ form_encode p @ ''&k='' @ form_encode k @ ''&s='' @ form_encode s"
  by (simp add: url_display_def link_url_def link_query_def opt_text_def)

lemma trim_link:
  assumes "s \<noteq> []"
  shows "trim (url_display (link_url p k s)) = url_display (link_url p k s)"
proof (rule trim_id)
  have "form_encode s \<noteq> []" using assms by (simp add: form_encode_Nil)
  then have "form_safe (last (form_encode s))"
    using form_encode_safe [of s] by (simp add: list_all_iff)
  moreover have "last (url_display (link_url p k s)) = last (form_encode s)"
    using \<open>form_encode s \<noteq> []\<close> by (simp add: link_url_display)
  moreover have "hd (url_display (link_url p k s)) = CHR ''f''" by (simp add: link_url_display)
  moreover have "form_safe (CHR ''f'')"
    by (simp add: form_safe_def form_plain_def is_ascii_alphanumeric_def)
  ultimately show "\<forall>w\<in>set white_space. hd w \<noteq> hd (url_display (link_url p k s)) \<and>
      last w \<noteq> last (url_display (link_url p k s))"
    using form_safe_not_white by metis
qed (simp add: link_url_display)

subsection \<open>Properties\<close>

text \<open>C20. The bytes that are signed determine what they sign: two pre-authentication encodings are
  equal only for the same payload type and the same payload, so a signature over one document
  never covers a document of another type or with other contents.
\<close>

theorem pae_injective:
  "pae ptype payload = pae ptype' payload' \<longleftrightarrow> ptype = ptype' \<and> payload = payload'"
  using pae_inj by blast

text \<open>C18. A recovery link made from an envelope with one signature (valid UTF-8 fields, none of them
  empty, within the size limit of a link) reads back as exactly that envelope.
\<close>

theorem recovery_link_round_trip:
  assumes "ev_payload_type e = RECOVERY_PAYLOAD_TYPE" "ev_key_certs e = []" "ev_signatures e = [sig]"
    and "list_all (\<lambda>f. f \<noteq> [] \<and> is_utf8 f) [ev_payload e, es_keyid sig, es_sig sig]"
    and "to_recovery_link e = Some link" "length link \<le> MAX_RECOVERY_LINK_BYTES"
  shows "from_recovery_link link = Inr e"
proof -
  let ?u = "link_url (ev_payload e) (es_keyid sig) (es_sig sig)"
  have link: "link = url_display ?u" using assms(5) to_recovery_link_text [OF assms(3)] by simp
  have "trim link = link" unfolding link using assms(4) by (intro trim_link) simp
  moreover have "url_parse link = Inr ?u"
    unfolding link by (rule url_canonical_parse [OF link_url_canonical])
  moreover have "query_pairs ?u = [(''p'', ev_payload e), (''k'', es_keyid sig), (''s'', es_sig sig)]"
    using assms(4) by (intro link_query_pairs) simp_all
  moreover from this have "link_field ?u ''p'' = Inr (ev_payload e)" "link_field ?u ''k'' = Inr (es_keyid sig)"
    "link_field ?u ''s'' = Inr (es_sig sig)"
    using assms(4) by (simp_all add: link_field_def ok_or_def)
  moreover have "url_scheme ?u = RECOVERY_LINK_SCHEME" "url_host ?u = ''v1''"
    by (simp_all add: link_url_def RECOVERY_LINK_SCHEME_def)
  ultimately show ?thesis
    using assms(1-3,6) by (simp add: from_recovery_link_def and_then_def)
qed

lemma example_link:
  "to_recovery_link example_envelope = Some ''flare-recover://v1?p=eyJ-_A&k=root%3Aa&s=c2ln''"
  by code_simp

theorem recovery_link_round_trip_witness:
  "to_recovery_link example_envelope = Some ''flare-recover://v1?p=eyJ-_A&k=root%3Aa&s=c2ln'' \<and>
   from_recovery_link ''flare-recover://v1?p=eyJ-_A&k=root%3Aa&s=c2ln'' = Inr example_envelope"
proof -
  have "list_all (\<lambda>f. f \<noteq> [] \<and> is_utf8 f) [ev_payload example_envelope, ''root:a'', ''c2ln'']"
    by code_simp
  then show ?thesis
    using recovery_link_round_trip [OF _ _ _ _ example_link, of "\<lparr> es_keyid = ''root:a'', es_sig = ''c2ln'' \<rparr>"]
      example_link
    by (simp add: example_envelope_def MAX_RECOVERY_LINK_BYTES_def)
qed

end
