(* ===== verification/Trust.thy ===== *)
theory Trust
  imports Envelope Compare
begin

text \<open>
  The trust chain of the access crate (\<open>access/src/trust/roots.rs\<close>, \<open>keycert.rs\<close>, \<open>keystate.rs\<close>,
  \<open>verify.rs\<close>): built-in roots, certificates of online keys, the revocation document, and the
  verification of access, release, recovery and key state documents. The lemmas show what an
  accepted document rests on, and that a document signed with the signing tools is accepted.
\<close>

section \<open>Definitions\<close>

subsection \<open>Roots\<close>

record TrustRoots =
  tr_roots :: "(string \<times> string) list"
  tr_fingerprint :: string

definition hex_byte :: "char \<Rightarrow> string" where
  "hex_byte c = [lower_hex_digit (of_char c div 16), lower_hex_digit (of_char c mod 16)]"

definition roots_fingerprint :: "trust_env \<Rightarrow> (string \<times> string) list \<Rightarrow> string" where
  "roots_fingerprint te roots =
     (let sorted = sort_by (\<lambda>left right. cmp (fst left) (fst right)) roots;
          digest = te_sha256 te (concat (map (\<lambda>(key_id, key). key_id @ [CHR 0x00] @ key) sorted)) in
      concat (map hex_byte (take 8 digest)))"

fun collect_roots ::
  "trust_env \<Rightarrow> (string \<times> string) list \<Rightarrow> (string \<times> string) list \<Rightarrow> TrustError + (string \<times> string) list" where
  "collect_roots te roots [] = Inr roots"
| "collect_roots te roots ((key_id, bytes) # entries) =
     (if \<not> is_valid_id key_id then Inl (TeConfig ''trust root keyId is invalid'')
      else if list_ex (\<lambda>(existing, _). existing = key_id) roots then
        Inl (TeConfig ''duplicate trust root keyId'')
      else if \<not> te_valid_key te bytes then
        Inl (TeConfig ''trust root publicKey is not a valid Ed25519 key'')
      else if te_weak_key te bytes then Inl (TeConfig ''trust root publicKey is a weak key'')
      else collect_roots te (roots @ [(key_id, bytes)]) entries)"

definition roots_from_keys :: "trust_env \<Rightarrow> (string \<times> string) list \<Rightarrow> TrustError + TrustRoots" where
  "roots_from_keys te entries =
     and_then (collect_roots te [] entries) (\<lambda>roots.
       if roots = [] then Inl (TeConfig ''production mode needs at least one trust root'')
       else if MAX_TRUST_ROOTS < length roots then Inl (TeConfig ''too many trust roots'')
       else Inr \<lparr> tr_roots = roots, tr_fingerprint = roots_fingerprint te roots \<rparr>)"

fun decode_roots :: "trust_env \<Rightarrow> (string \<times> string) list \<Rightarrow> TrustError + (string \<times> string) list" where
  "decode_roots te [] = Inr []"
| "decode_roots te ((key_id, public_key) # entries) =
     and_then (ok_or (TeConfig ''trust root publicKey is not base64'') (decode_b64 te public_key)) (\<lambda>bytes.
       if length bytes \<noteq> 32 then Inl (TeConfig ''trust root publicKey must be 32 bytes'')
       else and_then (decode_roots te entries) (\<lambda>keys. Inr ((key_id, bytes) # keys)))"

definition roots_from_config :: "trust_env \<Rightarrow> (string \<times> string) list \<Rightarrow> TrustError + TrustRoots" where
  "roots_from_config te entries = and_then (decode_roots te entries) (roots_from_keys te)"

definition roots_get :: "TrustRoots \<Rightarrow> string \<Rightarrow> string option" where
  "roots_get roots key_id = map_option snd (find (\<lambda>(i, _). i = key_id) (tr_roots roots))"

subsection \<open>Certificates of online keys\<close>

definition DAY_MS :: i64 where "DAY_MS = 24 * 60 * 60 * 1000"
definition CERT_CLOCK_SKEW_MS :: i64 where "CERT_CLOCK_SKEW_MS = DAY_MS"
definition MAX_CERT_VALIDITY_DAYS :: i64 where "MAX_CERT_VALIDITY_DAYS = 180"

definition scope_covers :: "string list \<Rightarrow> string \<Rightarrow> bool" where
  "scope_covers bootstrap_ids bootstrap_id \<longleftrightarrow>
     list_ex (\<lambda>scope. scope = ''*'' \<or> scope = bootstrap_id) bootstrap_ids"

definition decode_public_key :: "trust_env \<Rightarrow> string \<Rightarrow> string option" where
  "decode_public_key te encoded =
     (case decode_b64 te encoded of
        None \<Rightarrow> None
      | Some bytes \<Rightarrow>
          if length bytes = 32 \<and> te_valid_key te bytes \<and> \<not> te_weak_key te bytes then Some bytes else None)"

text \<open>The structural check before a certificate is issued.\<close>

definition validate_key_cert :: "trust_env \<Rightarrow> KeyCert \<Rightarrow> ManifestError option" where
  "validate_key_cert te c =
     (let not_before = rd_rfc3339_ms (te_readers te) (kc_not_before c);
          not_after = rd_rfc3339_ms (te_readers te) (kc_not_after c) in
      first_error
       [fail_if (kc_schema c \<noteq> KEYCERT_SCHEMA) (MeUnsupportedSchema (kc_schema c)),
        fail_if (\<not> is_valid_id (kc_key_id c)) (MeInvalid ''keyid'' ''must be 1-64 chars of [A-Za-z0-9._:-]''),
        fail_if (\<not> is_valid_id (kc_root_key_id c))
          (MeInvalid ''rootKeyId'' ''must be 1-64 chars of [A-Za-z0-9._:-]''),
        fail_if (decode_public_key te (kc_public_key c) = None)
          (MeInvalid ''publicKey'' ''not a usable Ed25519 public key''),
        fail_if (kc_usages c = [] \<or> \<not> distinct (kc_usages c) \<or>
                 \<not> list_all (\<lambda>usage. list_ex (\<lambda>doc. cert_usage doc = Some usage) [DocAccess, DocRelease]) (kc_usages c))
          (MeInvalid ''usages'' ''must list access and/or release, each once''),
        fail_if (kc_scope c = [] \<or> MAX_KEY_CERT_BOOTSTRAP_IDS < length (kc_scope c) \<or>
                 \<not> list_all (\<lambda>scope. scope = ''*'' \<or> is_valid_id scope) (kc_scope c))
          (MeInvalid ''scope.bootstrapIds'' (''must list '' @ [CHR 0x22] @ ''*'' @ [CHR 0x22] @ '' or 1-256 bootstrap ids'')),
        fail_if (not_before = None) (MeInvalid ''notBefore'' ''not RFC 3339''),
        fail_if (not_after = None) (MeInvalid ''notAfter'' ''not RFC 3339''),
        fail_if (case (not_before, not_after) of (Some b, Some a) \<Rightarrow> a \<le> b | _ \<Rightarrow> False) (MeInvalid ''notAfter'' ''must be later than notBefore''),
        fail_if (case (not_before, not_after) of (Some b, Some a) \<Rightarrow> MAX_CERT_VALIDITY_DAYS * DAY_MS < a - b | _ \<Rightarrow> False)
          (MeInvalid ''notAfter'' ''validity must not exceed 180 days'')])"

record OpenedCert =
  oc_envelope :: Envelope
  oc_payload :: string
  oc_cert :: KeyCert

definition open_cert :: "trust_env \<Rightarrow> string \<Rightarrow> KeyCertError + OpenedCert" where
  "open_cert te encoded =
     (case decode_b64 te encoded of
        None \<Rightarrow> Inl KcMalformed
      | Some bytes \<Rightarrow>
          (case envelope_parse te bytes of
             Inl _ \<Rightarrow> Inl KcMalformed
           | Inr envelope \<Rightarrow>
               if ev_payload_type envelope \<noteq> KEYCERT_PAYLOAD_TYPE then Inl KcWrongPayloadType
               else case decode_b64 te (ev_payload envelope) of
                 None \<Rightarrow> Inl KcMalformed
               | Some payload \<Rightarrow>
                   (case te_cert_json te payload of
                      None \<Rightarrow> Inl KcMalformed
                    | Some cert \<Rightarrow>
                        Inr \<lparr> oc_envelope = envelope, oc_payload = payload, oc_cert = cert \<rparr>)))"

text \<open>The loop over the signatures: the root that signed, and whether any signature names a root.\<close>

fun scan_root_signatures ::
  "trust_env \<Rightarrow> TrustRoots \<Rightarrow> string \<Rightarrow> bool \<Rightarrow> EnvelopeSignature list \<Rightarrow> string option \<times> bool" where
  "scan_root_signatures te roots payload saw_root [] = (None, saw_root)"
| "scan_root_signatures te roots payload saw_root (signature # signatures) =
     (case roots_get roots (es_keyid signature) of
        None \<Rightarrow> scan_root_signatures te roots payload saw_root signatures
      | Some root_key \<Rightarrow>
          if verify_signature te root_key KEYCERT_PAYLOAD_TYPE payload (es_sig signature)
          then (Some (es_keyid signature), True)
          else scan_root_signatures te roots payload True signatures)"

definition check_root_signature :: "trust_env \<Rightarrow> TrustRoots \<Rightarrow> OpenedCert \<Rightarrow> KeyCertError option" where
  "check_root_signature te roots opened =
     (case scan_root_signatures te roots (oc_payload opened) False (ev_signatures (oc_envelope opened)) of
        (None, saw_root) \<Rightarrow> Some (if saw_root then KcBadRootSignature else KcUnknownRoot)
      | (Some root_id, _) \<Rightarrow>
          if kc_root_key_id (oc_cert opened) \<noteq> root_id then Some KcRootMismatch else None)"

definition verify_key_cert :: "trust_env \<Rightarrow> TrustRoots \<Rightarrow> string \<Rightarrow> KeyCertError + KeyCert" where
  "verify_key_cert te roots encoded =
     and_then (open_cert te encoded) (\<lambda>opened.
       if kc_schema (oc_cert opened) \<noteq> KEYCERT_SCHEMA then Inl KcUnsupportedSchema
       else ensure (check_root_signature te roots opened) (Inr (oc_cert opened)))"

record ValidCert =
  vc_key_id :: string
  vc_key :: string

datatype CertRejection = CrCert KeyCertError | CrRevoked

definition validate_cert ::
  "trust_env \<Rightarrow> TrustRoots \<Rightarrow> string \<Rightarrow> string \<Rightarrow> string set \<Rightarrow> i64 \<Rightarrow> string \<Rightarrow>
   (string option \<times> CertRejection) + ValidCert" where
  "validate_cert te roots usage bootstrap_id revoked now_ms encoded =
     (case open_cert te encoded of
        Inl reason \<Rightarrow> Inl (None, CrCert reason)
      | Inr opened \<Rightarrow>
          (let cert = oc_cert opened; claimed = Some (kc_key_id cert);
               reject = (\<lambda>reason. (claimed, CrCert reason)) in
           if kc_schema cert \<noteq> KEYCERT_SCHEMA then Inl (reject KcUnsupportedSchema)
           else case check_root_signature te roots opened of
             Some reason \<Rightarrow> Inl (reject reason)
           | None \<Rightarrow>
             (case (rd_rfc3339_ms (te_readers te) (kc_not_before cert),
                    rd_rfc3339_ms (te_readers te) (kc_not_after cert)) of
                (Some not_before, Some not_after) \<Rightarrow>
                  if i64_sat_add now_ms CERT_CLOCK_SKEW_MS < not_before then Inl (reject KcNotYetValid)
                  else if not_after < i64_sat_sub now_ms CERT_CLOCK_SKEW_MS then Inl (reject KcExpired)
                  else if usage \<notin> set (kc_usages cert) then Inl (reject KcUsageNotAllowed)
                  else if \<not> scope_covers (kc_scope cert) bootstrap_id then Inl (reject KcScopeMismatch)
                  else if kc_key_id cert \<in> revoked then Inl (claimed, CrRevoked)
                  else (case decode_public_key te (kc_public_key cert) of
                          None \<Rightarrow> Inl (reject KcMalformed)
                        | Some key \<Rightarrow> Inr \<lparr> vc_key_id = kc_key_id cert, vc_key = key \<rparr>)
              | _ \<Rightarrow> Inl (reject KcMalformed))))"

subsection \<open>The revocation document\<close>

definition MAX_REVOKED_KEY_IDS :: nat where "MAX_REVOKED_KEY_IDS = 256"

definition validate_key_state :: "trust_env \<Rightarrow> KeyState \<Rightarrow> ManifestError option" where
  "validate_key_state te s =
     first_error
       [fail_if (ks_schema s \<noteq> KEYSTATE_SCHEMA) (MeUnsupportedSchema (ks_schema s)),
        fail_if (rd_rfc3339_ms (te_readers te) (ks_issued_at s) = None) (MeInvalid ''issuedAt'' ''not RFC 3339''),
        fail_if (MAX_KEY_CERTS < length (ks_certificates s)) (MeInvalid ''certificates'' ''too many entries''),
        fail_if (MAX_REVOKED_KEY_IDS < length (ks_revoked_key_ids s)) (MeInvalid ''revokedKeyIds'' ''too many entries''),
        fail_if (\<not> list_all is_valid_id (ks_revoked_key_ids s))
          (MeInvalid ''revokedKeyIds'' ''must be 1-64 chars of [A-Za-z0-9._:-]'')]"

record VerifiedKeyState =
  vk_serial :: u64
  vk_signed_by :: string
  vk_revoked :: "string set"
  vk_certificates :: "string list"
  vk_envelope :: string

subsection \<open>Verification\<close>

datatype ExpiryMode = MarkStale | RejectExpired

datatype SerialCheck = SerialNewer | SerialSame

definition check_serial :: "u64 \<Rightarrow> u64 option \<Rightarrow> TrustError + SerialCheck" where
  "check_serial serial max_serial =
     (case max_serial of
        None \<Rightarrow> Inr SerialNewer
      | Some m \<Rightarrow>
          if m < serial then Inr SerialNewer
          else if serial = m then Inr SerialSame
          else Inl (TeRollback serial m))"

record TrustStore =
  ts_roots :: TrustRoots
  ts_bootstrap_id :: string
  ts_revoked :: "string set"
  ts_keystate_certs :: "string list"
  ts_keystate_serial :: "u64 option"

definition trust_store_new :: "TrustRoots \<Rightarrow> string \<Rightarrow> TrustError + TrustStore" where
  "trust_store_new roots bootstrap_id =
     (if \<not> is_valid_id bootstrap_id then Inl (TeConfig ''bootstrapId is invalid'')
      else Inr \<lparr> ts_roots = roots, ts_bootstrap_id = bootstrap_id, ts_revoked = {}, ts_keystate_certs = [],
                 ts_keystate_serial = None \<rparr>)"

definition with_keystate :: "TrustStore \<Rightarrow> VerifiedKeyState \<Rightarrow> TrustStore" where
  "with_keystate st keystate =
     (if (case ts_keystate_serial st of None \<Rightarrow> False | Some current \<Rightarrow> vk_serial keystate < current) then st
      else \<lparr> ts_roots = ts_roots st, ts_bootstrap_id = ts_bootstrap_id st, ts_revoked = vk_revoked keystate,
             ts_keystate_certs = vk_certificates keystate, ts_keystate_serial = Some (vk_serial keystate) \<rparr>)"

fun scan_cert_signatures ::
  "trust_env \<Rightarrow> TrustStore \<Rightarrow> string \<Rightarrow> string \<Rightarrow> ValidCert list \<Rightarrow>
   (string option \<times> CertRejection) list \<Rightarrow> TrustError option \<Rightarrow> EnvelopeSignature list \<Rightarrow>
   TrustError + string" where
  "scan_cert_signatures te st ptype payload valid rejected first [] =
     Inl (case first of Some e \<Rightarrow> e | None \<Rightarrow> TeMalformedEnvelope ''no signatures'')"
| "scan_cert_signatures te st ptype payload valid rejected first (signature # signatures) =
     (let key_id = es_keyid signature;
          continue = (\<lambda>e. scan_cert_signatures te st ptype payload valid rejected
                            (case first of None \<Rightarrow> Some e | Some _ \<Rightarrow> first) signatures) in
      if key_id \<in> ts_revoked st then continue (TeRevoked key_id)
      else case find (\<lambda>cert. vc_key_id cert = key_id) valid of
        Some cert \<Rightarrow>
          if verify_signature te (vc_key cert) ptype payload (es_sig signature) then Inr key_id
          else continue (TeBadSignature key_id)
      | None \<Rightarrow>
          (case (case find (\<lambda>(claimed, _). claimed = Some key_id) rejected of
                   Some r \<Rightarrow> Some r
                 | None \<Rightarrow> find (\<lambda>(claimed, _). claimed = None) rejected) of
             Some (_, CrCert reason) \<Rightarrow> continue (TeKeyCert key_id reason)
           | Some (_, CrRevoked) \<Rightarrow> continue (TeRevoked key_id)
           | None \<Rightarrow> continue (TeUnknownKey key_id)))"

definition verify_cert_signed ::
  "trust_env \<Rightarrow> TrustStore \<Rightarrow> Envelope \<Rightarrow> DocType \<Rightarrow> string \<Rightarrow> i64 \<Rightarrow> TrustError + string" where
  "verify_cert_signed te st envelope doc payload now_ms =
     (let usage = (case cert_usage doc of Some u \<Rightarrow> u | None \<Rightarrow> []);
          checked = map (validate_cert te (ts_roots st) usage (ts_bootstrap_id st) (ts_revoked st) now_ms)
            (ev_key_certs envelope @ ts_keystate_certs st);
          valid = List.map_filter (\<lambda>r. case r of Inr cert \<Rightarrow> Some cert | Inl _ \<Rightarrow> None) checked;
          rejected = List.map_filter (\<lambda>r. case r of Inl rejection \<Rightarrow> Some rejection | Inr _ \<Rightarrow> None) checked in
      scan_cert_signatures te st (payload_type doc) payload valid rejected None (ev_signatures envelope))"

fun scan_signed_by_root ::
  "trust_env \<Rightarrow> TrustRoots \<Rightarrow> string \<Rightarrow> string \<Rightarrow> string option \<Rightarrow> EnvelopeSignature list \<Rightarrow> string option + string" where
  "scan_signed_by_root te roots ptype payload failure [] = Inl failure"
| "scan_signed_by_root te roots ptype payload failure (signature # signatures) =
     (case roots_get roots (es_keyid signature) of
        None \<Rightarrow> scan_signed_by_root te roots ptype payload failure signatures
      | Some root_key \<Rightarrow>
          if verify_signature te root_key ptype payload (es_sig signature) then Inr (es_keyid signature)
          else scan_signed_by_root te roots ptype payload
                 (case failure of None \<Rightarrow> Some (es_keyid signature) | Some _ \<Rightarrow> failure) signatures)"

text \<open>A parsed envelope has a first signature (\<open>envelope.signatures[0]\<close>).\<close>

definition verify_root_signed ::
  "trust_env \<Rightarrow> TrustStore \<Rightarrow> Envelope \<Rightarrow> string \<Rightarrow> string \<Rightarrow> TrustError + string" where
  "verify_root_signed te st envelope ptype payload =
     (case scan_signed_by_root te (ts_roots st) ptype payload None (ev_signatures envelope) of
        Inr key_id \<Rightarrow> Inr key_id
      | Inl (Some key_id) \<Rightarrow> Inl (TeBadSignature key_id)
      | Inl None \<Rightarrow> Inl (TeUnknownKey (es_keyid (hd (ev_signatures envelope)))))"

record VerifiedAccessManifest =
  va_manifest :: AccessManifest
  va_serial :: u64
  va_key_id :: string
  va_issued_at_ms :: i64
  va_expires_at_ms :: i64
  va_envelope :: string
  va_digest :: string

record VerifiedReleaseManifest =
  vr_manifest :: ReleaseManifest
  vr_serial :: u64
  vr_key_id :: string
  vr_issued_at_ms :: i64
  vr_expires_at_ms :: i64
  vr_envelope :: string
  vr_digest :: string

definition access_is_stale :: "VerifiedAccessManifest \<Rightarrow> i64 \<Rightarrow> bool" where
  "access_is_stale v now_ms \<longleftrightarrow> va_expires_at_ms v \<le> now_ms"

definition release_is_stale :: "VerifiedReleaseManifest \<Rightarrow> i64 \<Rightarrow> bool" where
  "release_is_stale v now_ms \<longleftrightarrow> vr_expires_at_ms v \<le> now_ms"

definition document_digest :: "trust_env \<Rightarrow> string \<Rightarrow> string" where
  "document_digest te bytes = ''sha256:'' @ concat (map hex_byte (te_sha256 te bytes))"

definition manifest_trust_error :: "ManifestError \<Rightarrow> TrustError" where
  "manifest_trust_error e =
     (case e of MeUnsupportedSchema schema \<Rightarrow> TeUnsupportedSchema schema | other \<Rightarrow> TeInvalidPayload other)"

definition map_err :: "('e \<Rightarrow> 'f) \<Rightarrow> 'e + 'a \<Rightarrow> 'f + 'a" where
  "map_err f r = (case r of Inl e \<Rightarrow> Inl (f e) | Inr a \<Rightarrow> Inr a)"

definition verified_access :: "trust_env \<Rightarrow> AccessManifest \<Rightarrow> ManifestTimes \<Rightarrow> string \<Rightarrow> string \<Rightarrow> VerifiedAccessManifest" where
  "verified_access te manifest t key_id bytes =
     \<lparr> va_manifest = manifest, va_serial = am_serial manifest, va_key_id = key_id,
       va_issued_at_ms = mt_issued_at_ms t, va_expires_at_ms = mt_expires_at_ms t,
       va_envelope = bytes, va_digest = document_digest te bytes \<rparr>"

definition verify_access_with ::
  "trust_env \<Rightarrow> TrustStore \<Rightarrow> string \<Rightarrow> i64 \<Rightarrow> ExpiryMode \<Rightarrow> TrustError + VerifiedAccessManifest" where
  "verify_access_with te st bytes now_ms expiry =
     and_then (envelope_parse te bytes) (\<lambda>envelope.
     and_then (open_payload te (payload_type DocAccess) envelope) (\<lambda>payload.
     and_then (verify_cert_signed te st envelope DocAccess payload now_ms) (\<lambda>key_id.
     and_then (map_err manifest_trust_error (access_from_slice (te_readers te) payload)) (\<lambda>(manifest, t).
       if am_bootstrap_id manifest \<noteq> ts_bootstrap_id st then
         Inl (TeWrongBootstrapId (ts_bootstrap_id st) (am_bootstrap_id manifest))
       else if expiry = RejectExpired \<and> mt_expires_at_ms t \<le> now_ms then
         Inl (TeExpired (mt_expires_at_ms t))
       else Inr (verified_access te manifest t key_id bytes)))))"

definition verify_access ::
  "trust_env \<Rightarrow> TrustStore \<Rightarrow> string \<Rightarrow> i64 \<Rightarrow> TrustError + VerifiedAccessManifest" where
  "verify_access te st bytes now_ms = verify_access_with te st bytes now_ms MarkStale"

definition verify_release ::
  "trust_env \<Rightarrow> TrustStore \<Rightarrow> string \<Rightarrow> string \<Rightarrow> string \<Rightarrow> i64 \<Rightarrow> TrustError + VerifiedReleaseManifest" where
  "verify_release te st bytes platform channel now_ms =
     and_then (envelope_parse te bytes) (\<lambda>envelope.
     and_then (open_payload te (payload_type DocRelease) envelope) (\<lambda>payload.
     and_then (verify_cert_signed te st envelope DocRelease payload now_ms) (\<lambda>key_id.
     and_then (map_err manifest_trust_error (release_from_slice (te_readers te) (te_release_json te) payload))
       (\<lambda>(manifest, t).
       if rl_bootstrap_id manifest \<noteq> ts_bootstrap_id st then
         Inl (TeWrongBootstrapId (ts_bootstrap_id st) (rl_bootstrap_id manifest))
       else if rl_platform manifest \<noteq> platform \<or> rl_channel manifest \<noteq> channel then
         Inl (TeWrongReleaseTarget (platform @ ''/'' @ channel)
                (rl_platform manifest @ ''/'' @ rl_channel manifest))
       else Inr \<lparr> vr_manifest = manifest, vr_serial = rl_serial manifest, vr_key_id = key_id,
                  vr_issued_at_ms = mt_issued_at_ms t, vr_expires_at_ms = mt_expires_at_ms t,
                  vr_envelope = bytes, vr_digest = document_digest te bytes \<rparr>))))"

definition verify_recovery :: "trust_env \<Rightarrow> TrustStore \<Rightarrow> string \<Rightarrow> TrustError + VerifiedAccessManifest" where
  "verify_recovery te st bytes =
     and_then (envelope_parse te bytes) (\<lambda>envelope.
     and_then (open_payload te RECOVERY_PAYLOAD_TYPE envelope) (\<lambda>payload.
     if MAX_RECOVERY_LINK_BYTES < length payload then
       Inl (TeTooLarge (length payload) MAX_RECOVERY_LINK_BYTES)
     else
     and_then (verify_root_signed te st envelope RECOVERY_PAYLOAD_TYPE payload) (\<lambda>key_id.
     and_then (map_err (\<lambda>e. TeInvalidPayload (MeJson e)) (te_recovery_json te payload)) (\<lambda>recovery.
     and_then (map_err manifest_trust_error (to_access_manifest (te_readers te) recovery)) (\<lambda>(manifest, t).
       if am_bootstrap_id manifest \<noteq> ts_bootstrap_id st then
         Inl (TeWrongBootstrapId (ts_bootstrap_id st) (am_bootstrap_id manifest))
       else Inr (verified_access te manifest t key_id bytes))))))"

definition verify_stored_access ::
  "trust_env \<Rightarrow> TrustStore \<Rightarrow> string \<Rightarrow> i64 \<Rightarrow> TrustError + VerifiedAccessManifest" where
  "verify_stored_access te st bytes now_ms =
     and_then (envelope_parse te bytes) (\<lambda>envelope.
       if ev_payload_type envelope = RECOVERY_PAYLOAD_TYPE then verify_recovery te st bytes
       else verify_access te st bytes now_ms)"

definition verify_keystate :: "trust_env \<Rightarrow> TrustStore \<Rightarrow> string \<Rightarrow> TrustError + VerifiedKeyState" where
  "verify_keystate te st bytes =
     and_then (envelope_parse te bytes) (\<lambda>envelope.
     and_then (open_payload te (payload_type DocKeyState) envelope) (\<lambda>payload.
     and_then (verify_root_signed te st envelope (payload_type DocKeyState) payload) (\<lambda>signed_by.
     and_then (map_err (\<lambda>e. TeInvalidPayload (MeJson e)) (te_value_json te payload)) (\<lambda>header.
     (let schema = (case Option.bind (json_get ''schema'' header) json_as_str of Some s \<Rightarrow> s | None \<Rightarrow> []) in
      if schema \<noteq> KEYSTATE_SCHEMA then Inl (TeUnsupportedSchema schema)
      else
     and_then (map_err (\<lambda>e. TeInvalidPayload (MeJson e)) (te_keystate_value te header)) (\<lambda>keystate.
       if MAX_REVOKED_KEY_IDS < length (ks_revoked_key_ids keystate) then
         Inl (TeInvalidPayload (MeInvalid ''revokedKeyIds'' ''too many entries''))
       else if MAX_KEY_CERTS < length (ks_certificates keystate) then
         Inl (TeInvalidPayload (MeInvalid ''certificates'' ''too many entries''))
       else Inr \<lparr> vk_serial = ks_serial keystate, vk_signed_by = signed_by,
                  vk_revoked = set (ks_revoked_key_ids keystate),
                  vk_certificates = ks_certificates keystate, vk_envelope = bytes \<rparr>))))))"

subsection \<open>Vocabulary of the lemmas\<close>

text \<open>A certificate whose payload a built-in root signed, the root being the one it names.\<close>

definition root_signed_cert :: "trust_env \<Rightarrow> TrustRoots \<Rightarrow> string \<Rightarrow> KeyCert \<Rightarrow> bool" where
  "root_signed_cert te roots encoded cert \<longleftrightarrow>
     (\<exists>opened signature root_key.
        open_cert te encoded = Inr opened \<and> oc_cert opened = cert \<and>
        signature \<in> set (ev_signatures (oc_envelope opened)) \<and>
        roots_get roots (es_keyid signature) = Some root_key \<and>
        verify_signature te root_key KEYCERT_PAYLOAD_TYPE (oc_payload opened) (es_sig signature) \<and>
        kc_root_key_id cert = es_keyid signature)"

text \<open>A certificate that lets its key sign documents of this kind for this application now.\<close>

definition cert_authorises :: "trust_env \<Rightarrow> TrustStore \<Rightarrow> string \<Rightarrow> i64 \<Rightarrow> KeyCert \<Rightarrow> string \<Rightarrow> bool" where
  "cert_authorises te st usage now_ms cert key \<longleftrightarrow>
     kc_schema cert = KEYCERT_SCHEMA \<and> usage \<in> set (kc_usages cert) \<and>
     scope_covers (kc_scope cert) (ts_bootstrap_id st) \<and> kc_key_id cert \<notin> ts_revoked st \<and>
     decode_public_key te (kc_public_key cert) = Some key \<and>
     (case (rd_rfc3339_ms (te_readers te) (kc_not_before cert), rd_rfc3339_ms (te_readers te) (kc_not_after cert)) of
        (Some not_before, Some not_after) \<Rightarrow>
          not_before \<le> i64_sat_add now_ms CERT_CLOCK_SKEW_MS \<and>
          i64_sat_sub now_ms CERT_CLOCK_SKEW_MS \<le> not_after
      | _ \<Rightarrow> False)"

definition trusted_key ::
  "trust_env \<Rightarrow> TrustStore \<Rightarrow> string list \<Rightarrow> string \<Rightarrow> i64 \<Rightarrow> string \<Rightarrow> string \<Rightarrow> bool" where
  "trusted_key te st certs usage now_ms key_id key \<longleftrightarrow>
     (\<exists>encoded cert. encoded \<in> set certs \<and> root_signed_cert te (ts_roots st) encoded cert \<and>
        cert_authorises te st usage now_ms cert key \<and> kc_key_id cert = key_id)"

text \<open>A signature of the payload, as this document type, by a trusted online key.\<close>

definition signed_by_trusted_key ::
  "trust_env \<Rightarrow> TrustStore \<Rightarrow> Envelope \<Rightarrow> DocType \<Rightarrow> string \<Rightarrow> i64 \<Rightarrow> string \<Rightarrow> bool" where
  "signed_by_trusted_key te st envelope doc payload now_ms key_id \<longleftrightarrow>
     (\<exists>signature key usage.
        cert_usage doc = Some usage \<and> signature \<in> set (ev_signatures envelope) \<and> es_keyid signature = key_id \<and>
        key_id \<notin> ts_revoked st \<and>
        trusted_key te st (ev_key_certs envelope @ ts_keystate_certs st) usage now_ms key_id key \<and>
        verify_signature te key (payload_type doc) payload (es_sig signature))"

definition signed_by_root ::
  "trust_env \<Rightarrow> TrustRoots \<Rightarrow> Envelope \<Rightarrow> string \<Rightarrow> string \<Rightarrow> string \<Rightarrow> bool" where
  "signed_by_root te roots envelope ptype payload key_id \<longleftrightarrow>
     (\<exists>signature root_key.
        signature \<in> set (ev_signatures envelope) \<and> es_keyid signature = key_id \<and>
        roots_get roots key_id = Some root_key \<and>
        verify_signature te root_key ptype payload (es_sig signature))"

text \<open>A signing key and the public key that verifies what it signs.\<close>

definition key_pair :: "trust_env \<Rightarrow> string \<Rightarrow> string \<Rightarrow> bool" where
  "key_pair te signing_key public_key \<longleftrightarrow>
     (\<forall>m. te_valid_signature te (te_sign te signing_key m) \<and>
          te_verify_strict te public_key m (te_sign te signing_key m) \<and>
          length (encode_b64 te (te_sign te signing_key m)) \<le> 128)"

text \<open>What issuing and signing need of the parameters: encoders that are undone by the readers.\<close>

definition issued_readable :: "trust_env \<Rightarrow> Signer \<Rightarrow> KeyCert \<Rightarrow> bool" where
  "issued_readable te root_signer cert \<longleftrightarrow>
     (let e = sign_envelope te KEYCERT_PAYLOAD_TYPE (te_cert_to_json te cert) [root_signer] [] in
      te_cert_json te (te_cert_to_json te cert) = Some cert \<and>
      te_envelope_json te (te_envelope_to_json te e) = Some e \<and>
      length (te_envelope_to_json te e) \<le> MAX_DOCUMENT_BYTES)"

text \<open>
  A small instance of the parameters: Base64 is the identity, a key signs by writing itself, and
  the readers know one certificate and one manifest with their envelopes.
\<close>

definition example_root :: Signer where
  "example_root = \<lparr> sg_key_id = ''root-a'', sg_key = replicate 32 (CHR ''r'') \<rparr>"

definition example_online :: Signer where
  "example_online = \<lparr> sg_key_id = ''ok-1'', sg_key = replicate 32 (CHR ''k'') \<rparr>"

definition example_cert :: KeyCert where
  "example_cert =
     \<lparr> kc_schema = KEYCERT_SCHEMA, kc_key_id = ''ok-1'', kc_public_key = replicate 32 (CHR ''k''),
       kc_usages = [''access''], kc_scope = [''b1''], kc_not_before = ''issued'', kc_not_after = ''expires'',
       kc_root_key_id = ''root-a'' \<rparr>"

definition example_cert_envelope :: Envelope where
  "example_cert_envelope =
     \<lparr> ev_payload_type = KEYCERT_PAYLOAD_TYPE, ev_payload = ''CERT'',
       ev_signatures = [\<lparr> es_keyid = ''root-a'', es_sig = replicate 32 (CHR ''r'') \<rparr>], ev_key_certs = [] \<rparr>"

definition example_access_envelope :: Envelope where
  "example_access_envelope =
     \<lparr> ev_payload_type = ACCESS_PAYLOAD_TYPE, ev_payload = ''ACCESS'',
       ev_signatures = [\<lparr> es_keyid = ''ok-1'', es_sig = replicate 32 (CHR ''k'') \<rparr>], ev_key_certs = [''E-CERT''] \<rparr>"

definition example_trust_env :: trust_env where
  "example_trust_env =
     \<lparr> te_decode_standard = Some, te_decode_url_safe = Some, te_encode_url_safe = (\<lambda>s. s),
       te_valid_key = (\<lambda>_. True), te_weak_key = (\<lambda>_. False), te_valid_signature = (\<lambda>_. True),
       te_verify_strict = (\<lambda>key m s. s = key), te_sign = (\<lambda>key m. take 32 key), te_sha256 = (\<lambda>s. s),
       te_readers = example_readers \<lparr> rd_access_json := \<lambda>_. Inr (recovery_manifest example_recovery) \<rparr>,
       te_envelope_json = (\<lambda>s. if s = ''E-CERT'' then Some example_cert_envelope
                               else if s = ''E-ACCESS'' then Some example_access_envelope else None),
       te_envelope_to_json = (\<lambda>e. if ev_payload_type e = KEYCERT_PAYLOAD_TYPE then ''E-CERT'' else ''E-ACCESS''),
       te_cert_json = (\<lambda>s. if s = ''CERT'' then Some example_cert else None), te_cert_to_json = (\<lambda>_. ''CERT''),
       te_value_json = (\<lambda>_. Inl ''unused''), te_keystate_value = (\<lambda>_. Inl ''unused''),
       te_recovery_json = (\<lambda>_. Inl ''unused''), te_release_json = (\<lambda>_. Inl ''unused'') \<rparr>"

definition example_store :: TrustStore where
  "example_store =
     \<lparr> ts_roots = \<lparr> tr_roots = [(''root-a'', replicate 32 (CHR ''r''))], tr_fingerprint = [] \<rparr>,
       ts_bootstrap_id = ''b1'', ts_revoked = {}, ts_keystate_certs = [], ts_keystate_serial = None \<rparr>"

section \<open>Lemmas\<close>

subsection \<open>Certificates\<close>

lemma scan_root_signatures_Some:
  assumes "scan_root_signatures te roots payload saw signatures = (Some root_id, b)"
  shows "\<exists>signature root_key. signature \<in> set signatures \<and> es_keyid signature = root_id \<and>
    roots_get roots root_id = Some root_key \<and>
    verify_signature te root_key KEYCERT_PAYLOAD_TYPE payload (es_sig signature)"
  using assms
proof (induction te roots payload saw signatures rule: scan_root_signatures.induct)
  case (2 te roots payload saw signature signatures)
  then show ?case
    by (fastforce split: option.split_asm if_split_asm)
qed simp

lemma check_root_signature_None:
  assumes "open_cert te encoded = Inr opened" "check_root_signature te roots opened = None"
  shows "root_signed_cert te roots encoded (oc_cert opened)"
proof -
  obtain root_id b where scan: "scan_root_signatures te roots (oc_payload opened) False
      (ev_signatures (oc_envelope opened)) = (Some root_id, b)" and root_id: "kc_root_key_id (oc_cert opened) = root_id"
    using assms(2) by (auto simp: check_root_signature_def split: prod.split_asm option.split_asm if_split_asm)
  obtain signature root_key where "signature \<in> set (ev_signatures (oc_envelope opened))"
    "es_keyid signature = root_id" "roots_get roots (es_keyid signature) = Some root_key"
    "verify_signature te root_key KEYCERT_PAYLOAD_TYPE (oc_payload opened) (es_sig signature)"
    "kc_root_key_id (oc_cert opened) = es_keyid signature"
    using scan_root_signatures_Some [OF scan] root_id by auto
  then show ?thesis
    using assms(1) unfolding root_signed_cert_def by blast
qed

lemma validate_cert_Inr:
  assumes "validate_cert te (ts_roots st) usage (ts_bootstrap_id st) (ts_revoked st) now_ms encoded = Inr valid"
  shows "\<exists>cert. root_signed_cert te (ts_roots st) encoded cert \<and>
    cert_authorises te st usage now_ms cert (vc_key valid) \<and> kc_key_id cert = vc_key_id valid"
proof -
  obtain opened where opened: "open_cert te encoded = Inr opened"
    using assms by (auto simp: validate_cert_def split: sum.split_asm)
  have check: "check_root_signature te (ts_roots st) opened = None"
    using assms opened by (auto simp: validate_cert_def Let_def split: if_split_asm option.split_asm)
  have "cert_authorises te st usage now_ms (oc_cert opened) (vc_key valid) \<and>
      kc_key_id (oc_cert opened) = vc_key_id valid"
    using assms opened check
    by (auto simp: validate_cert_def Let_def cert_authorises_def not_less split: if_split_asm option.split_asm)
  then show ?thesis using check_root_signature_None [OF opened check] by blast
qed

subsection \<open>Signatures\<close>

lemma scan_cert_signatures_Inr:
  assumes "scan_cert_signatures te st ptype payload valid rejected first signatures = Inr key_id"
  shows "\<exists>signature cert. signature \<in> set signatures \<and> es_keyid signature = key_id \<and>
    key_id \<notin> ts_revoked st \<and> cert \<in> set valid \<and> vc_key_id cert = key_id \<and>
    verify_signature te (vc_key cert) ptype payload (es_sig signature)"
  using assms
proof (induction signatures arbitrary: first)
  case (Cons signature signatures)
  let ?key_id = "es_keyid signature"
  show ?case
  proof (cases "\<exists>cert. ?key_id \<notin> ts_revoked st \<and> find (\<lambda>cert. vc_key_id cert = ?key_id) valid = Some cert \<and>
      verify_signature te (vc_key cert) ptype payload (es_sig signature)")
    case True
    then obtain cert where cert: "?key_id \<notin> ts_revoked st"
      "find (\<lambda>cert. vc_key_id cert = ?key_id) valid = Some cert"
      "verify_signature te (vc_key cert) ptype payload (es_sig signature)" by blast
    then have "key_id = ?key_id" using Cons.prems by (simp add: Let_def)
    moreover have "cert \<in> set valid" "vc_key_id cert = ?key_id"
      using cert(2) by (auto simp: find_Some_iff)
    ultimately show ?thesis using cert(1,3) by auto
  next
    case False
    then obtain first' where
      "scan_cert_signatures te st ptype payload valid rejected first' signatures = Inr key_id"
      using Cons.prems
      by (auto simp: Let_def split: if_split_asm option.split_asm prod.split_asm CertRejection.split_asm)
    then show ?thesis using Cons.IH by fastforce
  qed
qed simp

lemma set_map_filter: "x \<in> set (List.map_filter f xs) \<longleftrightarrow> (\<exists>y\<in>set xs. f y = Some x)"
  by (force simp: List.map_filter_def)

lemma verify_cert_signed_Inr:
  assumes "verify_cert_signed te st envelope doc payload now_ms = Inr key_id" "cert_usage doc = Some usage"
  shows "signed_by_trusted_key te st envelope doc payload now_ms key_id"
proof -
  let ?check = "validate_cert te (ts_roots st) usage (ts_bootstrap_id st) (ts_revoked st) now_ms"
  let ?certs = "ev_key_certs envelope @ ts_keystate_certs st"
  obtain signature cert where found: "signature \<in> set (ev_signatures envelope)" "es_keyid signature = key_id"
    "key_id \<notin> ts_revoked st" "vc_key_id cert = key_id"
    "verify_signature te (vc_key cert) (payload_type doc) payload (es_sig signature)"
    and valid: "cert \<in> set (List.map_filter (\<lambda>r. case r of Inr cert \<Rightarrow> Some cert | Inl _ \<Rightarrow> None) (map ?check ?certs))"
    using assms unfolding verify_cert_signed_def Let_def by (auto dest: scan_cert_signatures_Inr)
  obtain r where r: "r \<in> set (map ?check ?certs)" "(case r of Inr cert \<Rightarrow> Some cert | Inl _ \<Rightarrow> None) = Some cert"
    using valid unfolding set_map_filter by blast
  obtain encoded where encoded: "encoded \<in> set ?certs" "?check encoded = Inr cert"
    using r unfolding set_map by (auto simp del: set_append split: sum.split_asm)
  then have "trusted_key te st ?certs usage now_ms key_id (vc_key cert)"
    using validate_cert_Inr [OF encoded(2)] found(4) unfolding trusted_key_def by blast
  then show ?thesis
    using found assms(2) unfolding signed_by_trusted_key_def by blast
qed

lemma scan_signed_by_root_Inr:
  "scan_signed_by_root te roots ptype payload failure signatures = Inr key_id \<Longrightarrow>
   \<exists>signature root_key. signature \<in> set signatures \<and> es_keyid signature = key_id \<and>
     roots_get roots key_id = Some root_key \<and> verify_signature te root_key ptype payload (es_sig signature)"
proof (induction te roots ptype payload failure signatures rule: scan_signed_by_root.induct)
  case (2 te roots ptype payload failure signature signatures)
  then show ?case
    by (fastforce split: option.split_asm if_split_asm)
qed simp

lemma verify_root_signed_Inr:
  "verify_root_signed te st envelope ptype payload = Inr key_id \<Longrightarrow>
   signed_by_root te (ts_roots st) envelope ptype payload key_id"
  unfolding signed_by_root_def
  by (rule scan_signed_by_root_Inr) (auto simp: verify_root_signed_def split: sum.split_asm option.split_asm)

lemma open_payload_Inr:
  "open_payload te expected envelope = Inr payload \<longleftrightarrow>
     ev_payload_type envelope = expected \<and> decode_b64 te (ev_payload envelope) = Some payload"
  by (auto simp: open_payload_def check_simps)

lemma map_err_Inr [check_simps]: "map_err f r = Inr a \<longleftrightarrow> r = Inr a"
  by (cases r) (simp_all add: map_err_def)

lemma access_from_slice_Inr:
  assumes "access_from_slice rd payload = Inr (m, t)"
  shows "validate_manifest rd m = Inr t"
  using assms by (auto simp: access_from_slice_def check_simps split: sum.split_asm if_split_asm)

lemma release_from_slice_Inr:
  assumes "release_from_slice rd json payload = Inr (m, t)"
  shows "validate_release_manifest rd m = Inr t"
  using assms by (auto simp: release_from_slice_def check_simps split: sum.split_asm if_split_asm)

lemma verify_access_with_Inr:
  assumes "verify_access_with te st bytes now_ms expiry = Inr v"
  obtains envelope payload t where
    "envelope_parse te bytes = Inr envelope" "ev_payload_type envelope = ACCESS_PAYLOAD_TYPE"
    "decode_b64 te (ev_payload envelope) = Some payload"
    "verify_cert_signed te st envelope DocAccess payload now_ms = Inr (va_key_id v)"
    "access_from_slice (te_readers te) payload = Inr (va_manifest v, t)"
    "am_bootstrap_id (va_manifest v) = ts_bootstrap_id st"
    "v = verified_access te (va_manifest v) t (va_key_id v) bytes"
    "expiry = RejectExpired \<Longrightarrow> now_ms < va_expires_at_ms v"
  using assms
  by (auto simp: verify_access_with_def check_simps open_payload_Inr payload_type_def verified_access_def
      split: if_split_asm)

subsection \<open>Signed documents are accepted\<close>

lemma verify_signature_sign:
  assumes "decode_b64 te (encode_b64 te (te_sign te sk (pae ptype payload))) =
      Some (te_sign te sk (pae ptype payload))" "key_pair te sk pk"
  shows "verify_signature te pk ptype payload (encode_b64 te (te_sign te sk (pae ptype payload)))"
  using assms by (simp add: verify_signature_def key_pair_def not_less)

lemma envelope_parse_signed:
  assumes "te_envelope_json te (te_envelope_to_json te e) = Some e"
    "length (te_envelope_to_json te e) \<le> MAX_DOCUMENT_BYTES"
    "ev_signatures e = [signature]" "length (ev_key_certs e) \<le> MAX_KEY_CERTS"
  shows "envelope_parse te (te_envelope_to_json te e) = Inr e"
  using assms by (simp add: envelope_parse_def MAX_SIGNATURES_def)

lemma sign_envelope_sel [simp]:
  "ev_payload_type (sign_envelope te ptype payload signers certs) = ptype"
  "ev_payload (sign_envelope te ptype payload signers certs) = encode_b64 te payload"
  "ev_key_certs (sign_envelope te ptype payload signers certs) = certs"
  "ev_signatures (sign_envelope te ptype payload [signer] certs) =
     [\<lparr> es_keyid = sg_key_id signer, es_sig = encode_b64 te (te_sign te (sg_key signer) (pae ptype payload)) \<rparr>]"
  by (simp_all add: sign_envelope_def Let_def)

lemma open_issued_cert:
  assumes b64: "\<And>x. decode_b64 te (encode_b64 te x) = Some x" and "issued_readable te root_signer cert"
  shows "open_cert te (issue_key_cert te root_signer cert) = Inr
    \<lparr> oc_envelope = sign_envelope te KEYCERT_PAYLOAD_TYPE (te_cert_to_json te cert) [root_signer] [],
      oc_payload = te_cert_to_json te cert, oc_cert = cert \<rparr>"
proof -
  let ?e = "sign_envelope te KEYCERT_PAYLOAD_TYPE (te_cert_to_json te cert) [root_signer] []"
  have "envelope_parse te (te_envelope_to_json te ?e) = Inr ?e"
    using assms(2) unfolding issued_readable_def Let_def by (intro envelope_parse_signed) auto
  then show ?thesis
    using assms(2) by (simp add: open_cert_def issue_key_cert_def b64 issued_readable_def Let_def)
qed

lemma validate_issued_cert:
  assumes b64: "\<And>x. decode_b64 te (encode_b64 te x) = Some x" and readable: "issued_readable te root_signer cert"
    and root_key: "roots_get (ts_roots st) (sg_key_id root_signer) = Some rk" "key_pair te (sg_key root_signer) rk"
      "kc_root_key_id cert = sg_key_id root_signer"
    and cert: "cert_authorises te st usage now_ms cert key"
  shows "validate_cert te (ts_roots st) usage (ts_bootstrap_id st) (ts_revoked st) now_ms
      (issue_key_cert te root_signer cert) = Inr \<lparr> vc_key_id = kc_key_id cert, vc_key = key \<rparr>"
proof -
  let ?opened = "\<lparr> oc_envelope = sign_envelope te KEYCERT_PAYLOAD_TYPE (te_cert_to_json te cert) [root_signer] [],
      oc_payload = te_cert_to_json te cert, oc_cert = cert \<rparr>"
  have "check_root_signature te (ts_roots st) ?opened = None"
    using verify_signature_sign [OF b64 root_key(2)] root_key(1,3) by (simp add: check_root_signature_def)
  then show ?thesis
    using cert open_issued_cert [OF b64 readable]
    by (auto simp: validate_cert_def Let_def cert_authorises_def split: option.split_asm)
qed

subsection \<open>Properties\<close>

text \<open>C3. An access manifest that verification accepts rests on the built-in roots: the envelope is
  within its limits and of the access type, some signature over exactly that type and payload
  verifies under an online key that is not revoked, and that key has a certificate in the envelope
  or the key state which a built-in root signed and names, which allows the access usage, covers
  this application, and is valid now up to one day of clock skew. The manifest itself is the
  validated payload and belongs to this application.
\<close>

theorem accepted_access_root_anchored:
  assumes "verify_access te st bytes now_ms = Inr v"
  shows "\<exists>envelope payload.
    length bytes \<le> MAX_DOCUMENT_BYTES \<and> envelope_parse te bytes = Inr envelope \<and>
    ev_payload_type envelope = ACCESS_PAYLOAD_TYPE \<and> decode_b64 te (ev_payload envelope) = Some payload \<and>
    signed_by_trusted_key te st envelope DocAccess payload now_ms (va_key_id v) \<and>
    (case access_from_slice (te_readers te) payload of
       Inl _ \<Rightarrow> False
     | Inr (manifest, t) \<Rightarrow> v = verified_access te manifest t (va_key_id v) bytes) \<and>
    am_bootstrap_id (va_manifest v) = ts_bootstrap_id st \<and> va_serial v = am_serial (va_manifest v) \<and>
    manifest_ok (va_manifest v)"
proof -
  obtain envelope payload t where facts:
    "envelope_parse te bytes = Inr envelope" "ev_payload_type envelope = ACCESS_PAYLOAD_TYPE"
    "decode_b64 te (ev_payload envelope) = Some payload"
    "verify_cert_signed te st envelope DocAccess payload now_ms = Inr (va_key_id v)"
    "access_from_slice (te_readers te) payload = Inr (va_manifest v, t)"
    "am_bootstrap_id (va_manifest v) = ts_bootstrap_id st"
    "v = verified_access te (va_manifest v) t (va_key_id v) bytes"
    using assms [unfolded verify_access_def] by (rule verify_access_with_Inr)
  have "length bytes \<le> MAX_DOCUMENT_BYTES"
    using facts(1) by (auto simp: envelope_parse_def split: if_split_asm)
  moreover have "signed_by_trusted_key te st envelope DocAccess payload now_ms (va_key_id v)"
    using facts(4) by (rule verify_cert_signed_Inr) (simp add: cert_usage_def)
  moreover have "manifest_ok (va_manifest v)"
    using validate_manifest_ok(1) access_from_slice_Inr facts(5) by blast
  moreover have "va_serial v = am_serial (va_manifest v)"
    by (subst facts(7)) (simp add: verified_access_def)
  ultimately show ?thesis
    using facts(1-3,5-7) by (intro exI [of _ envelope] exI [of _ payload]) simp
qed

lemma example_accepted:
  "verify_access example_trust_env example_store ''E-ACCESS'' 1500 =
     Inr (verified_access example_trust_env (recovery_manifest example_recovery)
       \<lparr> mt_issued_at_ms = 1000, mt_expires_at_ms = 2000 \<rparr> ''ok-1'' ''E-ACCESS'')"
  by code_simp

theorem accepted_access_root_anchored_witness:
  "\<exists>envelope payload.
     envelope_parse example_trust_env ''E-ACCESS'' = Inr envelope \<and>
     signed_by_trusted_key example_trust_env example_store envelope DocAccess payload 1500 ''ok-1''"
  using accepted_access_root_anchored [OF example_accepted] by (auto simp: verified_access_def)

text \<open>C14. A manifest signed with the signing tools is accepted: if a certificate issued by a
  built-in root authorises the online key now, the payload is a valid manifest of this
  application, and the encoders are undone by their readers, then the document that
  \<open>sign_access_manifest\<close> writes verifies and yields that manifest under that key.
\<close>

theorem signed_access_accepted:
  assumes "\<And>x. decode_b64 te (encode_b64 te x) = Some x" "issued_readable te root_signer cert"
    and "roots_get (ts_roots st) (sg_key_id root_signer) = Some rk" "key_pair te (sg_key root_signer) rk"
    and "kc_root_key_id cert = sg_key_id root_signer" "kc_key_id cert = sg_key_id online"
    and "cert_authorises te st ''access'' now_ms cert key" "key_pair te (sg_key online) key"
    and "access_from_slice (te_readers te) payload = Inr (m, t)" "am_bootstrap_id m = ts_bootstrap_id st"
    and "document = sign_envelope te ACCESS_PAYLOAD_TYPE payload [online] [issue_key_cert te root_signer cert]"
    and "te_envelope_json te (te_envelope_to_json te document) = Some document"
    and "length (te_envelope_to_json te document) \<le> MAX_DOCUMENT_BYTES"
  shows "verify_access te st (sign_access_manifest te payload online [issue_key_cert te root_signer cert]) now_ms =
    Inr (verified_access te m t (sg_key_id online)
      (sign_access_manifest te payload online [issue_key_cert te root_signer cert]))"
proof -
  let ?bytes = "te_envelope_to_json te document"
  have bytes: "sign_access_manifest te payload online [issue_key_cert te root_signer cert] = ?bytes"
    by (simp add: sign_access_manifest_def assms(11))
  have parsed: "envelope_parse te ?bytes = Inr document"
    using assms(11-13) by (intro envelope_parse_signed) (simp_all add: MAX_KEY_CERTS_def)
  have payload: "open_payload te (payload_type DocAccess) document = Inr payload"
    by (simp add: open_payload_Inr assms(1,11) payload_type_def)
  have "validate_cert te (ts_roots st) ''access'' (ts_bootstrap_id st) (ts_revoked st) now_ms
      (issue_key_cert te root_signer cert) = Inr \<lparr> vc_key_id = sg_key_id online, vc_key = key \<rparr>"
    using validate_issued_cert [OF assms(1-5,7)] assms(6) by simp
  moreover have "sg_key_id online \<notin> ts_revoked st"
    using assms(6,7) by (auto simp: cert_authorises_def)
  moreover note verify_signature_sign [OF assms(1) assms(8), of "payload_type DocAccess" payload]
  ultimately have signed: "verify_cert_signed te st document DocAccess payload now_ms = Inr (sg_key_id online)"
    by (simp add: verify_cert_signed_def assms(11) cert_usage_def List.map_filter_simps Let_def payload_type_def)
  show ?thesis
    unfolding bytes verify_access_def verify_access_with_def
    by (simp add: parsed payload signed assms(9,10) and_then_def map_err_def)
qed

lemma example_b64: "decode_b64 example_trust_env (encode_b64 example_trust_env x) = Some x"
  by (simp add: decode_b64_def encode_b64_def example_trust_env_def)

lemma example_key_pairs:
  "key_pair example_trust_env (sg_key example_root) (replicate 32 (CHR ''r''))"
  "key_pair example_trust_env (sg_key example_online) (replicate 32 (CHR ''k''))"
  by (simp_all add: key_pair_def encode_b64_def example_trust_env_def example_root_def example_online_def)

lemma example_issued:
  "issued_readable example_trust_env example_root example_cert"
  "cert_authorises example_trust_env example_store ''access'' 1500 example_cert (replicate 32 (CHR ''k''))"
  "roots_get (ts_roots example_store) (sg_key_id example_root) = Some (replicate 32 (CHR ''r''))"
  "kc_root_key_id example_cert = sg_key_id example_root" "kc_key_id example_cert = sg_key_id example_online"
  "sign_envelope example_trust_env ACCESS_PAYLOAD_TYPE ''ACCESS'' [example_online]
     [issue_key_cert example_trust_env example_root example_cert] = example_access_envelope"
  "am_bootstrap_id (recovery_manifest example_recovery) = ts_bootstrap_id example_store"
  by code_simp+

lemma example_payload:
  "access_from_slice (te_readers example_trust_env) ''ACCESS'' =
     Inr (recovery_manifest example_recovery, \<lparr> mt_issued_at_ms = 1000, mt_expires_at_ms = 2000 \<rparr>)"
  by code_simp

theorem signed_access_accepted_witness:
  "verify_access example_trust_env example_store
     (sign_access_manifest example_trust_env ''ACCESS'' example_online
       [issue_key_cert example_trust_env example_root example_cert]) 1500 =
   Inr (verified_access example_trust_env (recovery_manifest example_recovery)
     \<lparr> mt_issued_at_ms = 1000, mt_expires_at_ms = 2000 \<rparr> (sg_key_id example_online)
     (sign_access_manifest example_trust_env ''ACCESS'' example_online
       [issue_key_cert example_trust_env example_root example_cert]))"
proof (rule signed_access_accepted [OF example_b64 example_issued(1,3) example_key_pairs(1)
      example_issued(4,5,2) example_key_pairs(2) example_payload example_issued(7) example_issued(6) [symmetric]])
  show "te_envelope_json example_trust_env (te_envelope_to_json example_trust_env example_access_envelope) =
      Some example_access_envelope"
    by (simp add: example_trust_env_def example_access_envelope_def ACCESS_PAYLOAD_TYPE_def KEYCERT_PAYLOAD_TYPE_def)
  show "length (te_envelope_to_json example_trust_env example_access_envelope) \<le> MAX_DOCUMENT_BYTES"
    by (simp add: example_trust_env_def MAX_DOCUMENT_BYTES_def)
qed

end
