(* ===== verification/Manifest_Store.thy ===== *)
theory Manifest_Store
  imports Trust
begin

text \<open>
  The last known good documents and their serials (\<open>access/src/store/mod.rs\<close>, \<open>manifests.rs\<close>,
  \<open>memory.rs\<close>): the storage keys, the key-value store with its atomic batch, the cached maximum
  and \<open>ManifestStore::commit\<close>. The store is an interface of the source; its laws are the locale
  \<open>access_store\<close>, interpreted on the in-memory store. A commit runs under a lock, so commits of
  one manifest store are sequential; between them the process may restart (which empties the
  cache) and the store may start or stop failing. The lemmas show that the stored serial never
  goes back.
\<close>

section \<open>Definitions\<close>

subsection \<open>Keys\<close>

definition key_access_current :: "string \<Rightarrow> string" where
  "key_access_current bootstrap_id = ''manifest/access/'' @ bootstrap_id @ ''/current''"

definition key_access_previous :: "string \<Rightarrow> string" where
  "key_access_previous bootstrap_id = ''manifest/access/'' @ bootstrap_id @ ''/previous''"

definition key_access_serial :: "string \<Rightarrow> string" where
  "key_access_serial bootstrap_id = ''serial/access/'' @ bootstrap_id"

definition key_keystate_current :: "string \<Rightarrow> string" where
  "key_keystate_current rootset = ''manifest/keys/'' @ rootset @ ''/current''"

definition key_keystate_serial :: "string \<Rightarrow> string" where
  "key_keystate_serial rootset = ''serial/keys/'' @ rootset"

definition key_release_current :: "string \<Rightarrow> string \<Rightarrow> string" where
  "key_release_current bootstrap_id target = ''manifest/release/'' @ bootstrap_id @ ''/'' @ target @ ''/current''"

definition key_release_serial :: "string \<Rightarrow> string \<Rightarrow> string" where
  "key_release_serial bootstrap_id target = ''serial/release/'' @ bootstrap_id @ ''/'' @ target"

subsection \<open>The key-value store\<close>

datatype StoreError = SeBackend string | SeCorrupt string

datatype StoreOp = OpPut string string | OpDelete string

fun apply_op :: "StoreOp \<Rightarrow> (string \<rightharpoonup> string) \<Rightarrow> (string \<rightharpoonup> string)" where
  "apply_op (OpPut key v) m = m(key \<mapsto> v)"
| "apply_op (OpDelete key) m = m(key := None)"

text \<open>The operations of the trait \<open>AccessStore\<close> that documents use, on a store of type \<open>'s\<close>.\<close>

record 's store_ops =
  so_get :: "string \<Rightarrow> 's \<Rightarrow> StoreError + string option"
  so_apply :: "StoreOp list \<Rightarrow> 's \<Rightarrow> StoreError option \<times> 's"

text \<open>\<open>MemoryAccessStore\<close>.\<close>

record MemoryAccessStore =
  mem_entries :: "string \<rightharpoonup> string"
  mem_fail_writes :: bool

definition mem_get :: "string \<Rightarrow> MemoryAccessStore \<Rightarrow> StoreError + string option" where
  "mem_get key s = Inr (mem_entries s key)"

definition check_writable :: "MemoryAccessStore \<Rightarrow> StoreError option" where
  "check_writable s = fail_if (mem_fail_writes s) (SeBackend ''writes disabled'')"

definition mem_put :: "string \<Rightarrow> string \<Rightarrow> MemoryAccessStore \<Rightarrow> StoreError option \<times> MemoryAccessStore" where
  "mem_put key v s =
     (case check_writable s of
        Some e \<Rightarrow> (Some e, s)
      | None \<Rightarrow> (None, s \<lparr> mem_entries := (mem_entries s)(key \<mapsto> v) \<rparr>))"

definition mem_delete :: "string \<Rightarrow> MemoryAccessStore \<Rightarrow> StoreError option \<times> MemoryAccessStore" where
  "mem_delete key s =
     (case check_writable s of
        Some e \<Rightarrow> (Some e, s)
      | None \<Rightarrow> (None, s \<lparr> mem_entries := (mem_entries s)(key := None) \<rparr>))"

definition mem_apply :: "StoreOp list \<Rightarrow> MemoryAccessStore \<Rightarrow> StoreError option \<times> MemoryAccessStore" where
  "mem_apply ops s =
     (case check_writable s of
        Some e \<Rightarrow> (Some e, s)
      | None \<Rightarrow> (None, s \<lparr> mem_entries := fold apply_op ops (mem_entries s) \<rparr>))"

definition memory_ops :: "MemoryAccessStore store_ops" where
  "memory_ops = \<lparr> so_get = mem_get, so_apply = mem_apply \<rparr>"

subsection \<open>Documents\<close>

datatype ManifestSource = SrcSeed | SrcLkg | SrcHttps string | SrcWellKnown string | SrcRecovery

definition source_label :: "ManifestSource \<Rightarrow> string" where
  "source_label s =
     (case s of
        SrcSeed \<Rightarrow> ''seed''
      | SrcLkg \<Rightarrow> ''lkg''
      | SrcHttps url \<Rightarrow> ''https:'' @ url
      | SrcWellKnown ap \<Rightarrow> ''wellKnown:'' @ ap
      | SrcRecovery \<Rightarrow> ''recovery'')"

record FetchMeta =
  fm_source :: ManifestSource
  fm_etag :: "string option"
  fm_fetched_at_ms :: i64

record StoredDocument =
  sd_envelope :: string
  sd_serial :: u64
  sd_etag :: "string option"
  sd_source :: ManifestSource
  sd_fetched_at_ms :: i64

text \<open>The JSON reader and writer of a record (\<open>serde_json\<close>).\<close>

record record_json =
  rj_read :: "string \<Rightarrow> string + StoredDocument"
  rj_write :: "StoredDocument \<Rightarrow> string + string"

definition envelope_bytes :: "trust_env \<Rightarrow> StoredDocument \<Rightarrow> StoreError + string" where
  "envelope_bytes te d = ok_or (SeCorrupt ''envelope is not base64'') (decode_b64 te (sd_envelope d))"

datatype AcceptOutcome = OutAdopted u64 "u64 option" | OutUnchanged u64

datatype AcceptError = AeTrust TrustError | AeStore StoreError | AeDevelopmentMode

subsection \<open>The manifest store\<close>

record ManifestStore =
  ms_bootstrap_id :: string
  ms_rootset :: string
  ms_release_target :: string

definition manifest_store_new :: "string \<Rightarrow> string \<Rightarrow> ManifestStore" where
  "manifest_store_new bootstrap_id rootset =
     \<lparr> ms_bootstrap_id = bootstrap_id, ms_rootset = rootset, ms_release_target = [] \<rparr>"

definition for_release :: "string \<Rightarrow> string \<Rightarrow> ManifestStore \<Rightarrow> ManifestStore" where
  "for_release platform channel ms = ms \<lparr> ms_release_target := platform @ ''/'' @ channel \<rparr>"

definition keys_for :: "ManifestStore \<Rightarrow> DocType \<Rightarrow> string \<times> string option \<times> string" where
  "keys_for ms doc =
     (case doc of
        DocKeyState \<Rightarrow> (key_keystate_current (ms_rootset ms), None, key_keystate_serial (ms_rootset ms))
      | DocAccess \<Rightarrow> (key_access_current (ms_bootstrap_id ms), Some (key_access_previous (ms_bootstrap_id ms)),
                     key_access_serial (ms_bootstrap_id ms))
      | DocRelease \<Rightarrow> (key_release_current (ms_bootstrap_id ms) (ms_release_target ms), None,
                      key_release_serial (ms_bootstrap_id ms) (ms_release_target ms)))"

text \<open>The state of a manifest store: the underlying store and the cache of maximal serials.\<close>

type_synonym 's docs = "'s \<times> (DocType \<rightharpoonup> u64 option)"

definition read_serial_text :: "string option \<Rightarrow> u64 option" where
  "read_serial_text b =
     (case b of
        None \<Rightarrow> None
      | Some bytes \<Rightarrow> if is_utf8 bytes then parse_u64 (trim bytes) else None)"

definition read_record_serial :: "record_json \<Rightarrow> string option \<Rightarrow> u64 option" where
  "read_record_serial rj b =
     (case b of
        None \<Rightarrow> None
      | Some bytes \<Rightarrow> (case rj_read rj bytes of Inl _ \<Rightarrow> None | Inr r \<Rightarrow> Some (sd_serial r)))"

definition max_serial ::
  "'s store_ops \<Rightarrow> record_json \<Rightarrow> ManifestStore \<Rightarrow> DocType \<Rightarrow> 's docs \<Rightarrow> (StoreError + u64 option) \<times> 's docs" where
  "max_serial ops rj ms doc st =
     (case st of (s, cache) \<Rightarrow>
      case cache doc of
        Some cached \<Rightarrow> (Inr cached, st)
      | None \<Rightarrow>
        (case keys_for ms doc of (current_key, _, serial_key) \<Rightarrow>
         case so_get ops serial_key s of
           Inl e \<Rightarrow> (Inl e, st)
         | Inr bytes \<Rightarrow>
           (case read_serial_text bytes of
              Some serial \<Rightarrow> (Inr (Some serial), (s, cache(doc \<mapsto> Some serial)))
            | None \<Rightarrow>
                (case so_get ops current_key s of
                   Inl e \<Rightarrow> (Inl e, st)
                 | Inr record_bytes \<Rightarrow>
                     (let v = read_record_serial rj record_bytes in
                      (Inr v, (s, cache(doc \<mapsto> v))))))))"

definition load_document ::
  "'s store_ops \<Rightarrow> record_json \<Rightarrow> ManifestStore \<Rightarrow> DocType \<Rightarrow> 's docs \<Rightarrow> StoreError + StoredDocument option" where
  "load_document ops rj ms doc st =
     (case keys_for ms doc of (current_key, _, _) \<Rightarrow>
      case so_get ops current_key (fst st) of
        Inl e \<Rightarrow> Inl e
      | Inr None \<Rightarrow> Inr None
      | Inr (Some bytes) \<Rightarrow>
          (case rj_read rj bytes of
             Inl e \<Rightarrow> Inl (SeCorrupt (current_key @ '': '' @ e))
           | Inr d \<Rightarrow> Inr (Some d)))"

definition commit_ops ::
  "string option \<Rightarrow> string option \<Rightarrow> u64 option \<Rightarrow> u64 \<Rightarrow> string \<Rightarrow> string \<Rightarrow> string \<Rightarrow> StoreOp list" where
  "commit_ops previous_key current_bytes current_serial serial current_key record_bytes serial_key =
     (case (previous_key, current_bytes) of
        (Some previous, Some bytes) \<Rightarrow> if current_serial \<noteq> Some serial then [OpPut previous bytes] else []
      | _ \<Rightarrow> [])
     @ [OpPut current_key record_bytes, OpPut serial_key (u64_to_string serial)]"

definition commit ::
  "'s store_ops \<Rightarrow> record_json \<Rightarrow> trust_env \<Rightarrow> ManifestStore \<Rightarrow> DocType \<Rightarrow> u64 \<Rightarrow> string \<Rightarrow> FetchMeta \<Rightarrow>
   's docs \<Rightarrow> (AcceptError + AcceptOutcome) \<times> 's docs" where
  "commit ops rj te ms doc serial envelope meta st =
     (case max_serial ops rj ms doc st of
        (Inl e, st) \<Rightarrow> (Inl (AeStore e), st)
      | (Inr m, st) \<Rightarrow>
        (case check_serial serial m of
           Inl e \<Rightarrow> (Inl (AeTrust e), st)
         | Inr check \<Rightarrow>
           (case keys_for ms doc of (current_key, previous_key, serial_key) \<Rightarrow>
            case so_get ops current_key (fst st) of
              Inl e \<Rightarrow> (Inl (AeStore e), st)
            | Inr current_bytes \<Rightarrow>
              (let current_serial = read_record_serial rj current_bytes in
               if check = SerialSame \<and> current_serial = Some serial then (Inr (OutUnchanged serial), st)
               else case rj_write rj \<lparr> sd_envelope = encode_b64 te envelope, sd_serial = serial,
                           sd_etag = fm_etag meta, sd_source = fm_source meta,
                           sd_fetched_at_ms = fm_fetched_at_ms meta \<rparr> of
                 Inl e \<Rightarrow> (Inl (AeStore (SeBackend (''encode record: '' @ e))), st)
               | Inr record_bytes \<Rightarrow>
                 (case so_apply ops (commit_ops previous_key current_bytes current_serial serial
                         current_key record_bytes serial_key) (fst st) of
                    (Some e, s) \<Rightarrow> (Inl (AeStore e), (s, snd st))
                  | (None, s) \<Rightarrow>
                      (Inr (case check of SerialSame \<Rightarrow> OutUnchanged serial | SerialNewer \<Rightarrow> OutAdopted serial m),
                       (s, (snd st)(doc \<mapsto> Some (case m of None \<Rightarrow> serial | Some n \<Rightarrow> max n serial)))))))))"

definition commit_access ::
  "'s store_ops \<Rightarrow> record_json \<Rightarrow> trust_env \<Rightarrow> ManifestStore \<Rightarrow> VerifiedAccessManifest \<Rightarrow> FetchMeta \<Rightarrow>
   's docs \<Rightarrow> (AcceptError + AcceptOutcome) \<times> 's docs" where
  "commit_access ops rj te ms v meta = commit ops rj te ms DocAccess (va_serial v) (va_envelope v) meta"

definition commit_keystate ::
  "'s store_ops \<Rightarrow> record_json \<Rightarrow> trust_env \<Rightarrow> ManifestStore \<Rightarrow> VerifiedKeyState \<Rightarrow> FetchMeta \<Rightarrow>
   's docs \<Rightarrow> (AcceptError + AcceptOutcome) \<times> 's docs" where
  "commit_keystate ops rj te ms v meta = commit ops rj te ms DocKeyState (vk_serial v) (vk_envelope v) meta"

definition commit_release ::
  "'s store_ops \<Rightarrow> record_json \<Rightarrow> trust_env \<Rightarrow> ManifestStore \<Rightarrow> VerifiedReleaseManifest \<Rightarrow> FetchMeta \<Rightarrow>
   's docs \<Rightarrow> (AcceptError + AcceptOutcome) \<times> 's docs" where
  "commit_release ops rj te ms v meta = commit ops rj te ms DocRelease (vr_serial v) (vr_envelope v) meta"

subsection \<open>Vocabulary of the lemmas\<close>

text \<open>The serial that a store with these contents has accepted, and the order of such serials.\<close>

definition stored_serial :: "record_json \<Rightarrow> ManifestStore \<Rightarrow> DocType \<Rightarrow> (string \<rightharpoonup> string) \<Rightarrow> u64 option" where
  "stored_serial rj ms doc m =
     (case keys_for ms doc of (current_key, _, serial_key) \<Rightarrow>
      case read_serial_text (m serial_key) of
        Some serial \<Rightarrow> Some serial
      | None \<Rightarrow> read_record_serial rj (m current_key))"

definition serial_le :: "u64 option \<Rightarrow> u64 option \<Rightarrow> bool" where
  "serial_le a b = (case a of None \<Rightarrow> True | Some x \<Rightarrow> (case b of None \<Rightarrow> False | Some y \<Rightarrow> x \<le> y))"

definition coherent :: "record_json \<Rightarrow> ManifestStore \<Rightarrow> (string \<rightharpoonup> string) \<Rightarrow> (DocType \<rightharpoonup> u64 option) \<Rightarrow> bool" where
  "coherent rj ms m cache \<longleftrightarrow> (\<forall>doc v. cache doc = Some v \<longrightarrow> v = stored_serial rj ms doc m)"

text \<open>What a commit does, told from the contents of the store before and after it.\<close>

definition commit_effect ::
  "record_json \<Rightarrow> ManifestStore \<Rightarrow> DocType \<Rightarrow> u64 \<Rightarrow> (string \<rightharpoonup> string) \<Rightarrow> (AcceptError + AcceptOutcome) \<Rightarrow>
   (string \<rightharpoonup> string) \<Rightarrow> bool" where
  "commit_effect rj ms doc serial m r m' \<longleftrightarrow>
     (case r of
        Inr outcome \<Rightarrow>
          stored_serial rj ms doc m' = Some serial \<and>
          outcome = (if stored_serial rj ms doc m = Some serial then OutUnchanged serial
                     else OutAdopted serial (stored_serial rj ms doc m)) \<and>
          serial_le (stored_serial rj ms doc m) (Some serial)
      | Inl (AeTrust e) \<Rightarrow>
          m' = m \<and> (\<exists>stored. stored_serial rj ms doc m = Some stored \<and> serial < stored \<and> e = TeRollback serial stored)
      | Inl (AeStore e) \<Rightarrow> m' = m
      | Inl AeDevelopmentMode \<Rightarrow> False) \<and>
     (\<forall>other. other \<noteq> doc \<longrightarrow> stored_serial rj ms other m' = stored_serial rj ms other m)"

text \<open>
  The life of a manifest store on the in-memory store: commits, restarts of the process, and
  writes that start or stop failing.
\<close>

inductive docs_step ::
  "record_json \<Rightarrow> trust_env \<Rightarrow> ManifestStore \<Rightarrow> MemoryAccessStore docs \<Rightarrow> MemoryAccessStore docs \<Rightarrow> bool"
  for rj te ms where
  docs_commit: "commit memory_ops rj te ms doc serial envelope meta st = (r, st') \<Longrightarrow> docs_step rj te ms st st'"
| docs_restart: "docs_step rj te ms (s, cache) (s, Map.empty)"
| docs_writes: "docs_step rj te ms (s, cache) (s \<lparr> mem_fail_writes := b \<rparr>, cache)"

inductive docs_run ::
  "record_json \<Rightarrow> trust_env \<Rightarrow> ManifestStore \<Rightarrow> MemoryAccessStore docs \<Rightarrow> MemoryAccessStore docs \<Rightarrow> bool"
  for rj te ms where
  docs_run_refl: "docs_run rj te ms st st"
| docs_run_step: "docs_run rj te ms st st' \<Longrightarrow> docs_step rj te ms st' st'' \<Longrightarrow> docs_run rj te ms st st''"

text \<open>A record writer that keeps the serial, an empty store, and the store after one commit.\<close>

definition example_json :: record_json where
  "example_json =
     \<lparr> rj_read = (\<lambda>b. Inl ''unused''), rj_write = (\<lambda>d. Inr ''record'') \<rparr>"

definition example_docs :: ManifestStore where
  "example_docs = manifest_store_new ''b1'' ''roots''"

definition example_meta :: FetchMeta where
  "example_meta = \<lparr> fm_source = SrcSeed, fm_etag = None, fm_fetched_at_ms = 0 \<rparr>"

definition example_empty :: MemoryAccessStore where
  "example_empty = \<lparr> mem_entries = Map.empty, mem_fail_writes = False \<rparr>"

definition example_full :: MemoryAccessStore where
  "example_full =
     \<lparr> mem_entries = [key_access_current ''b1'' \<mapsto> ''record'', key_access_serial ''b1'' \<mapsto> u64_to_string 5],
       mem_fail_writes = False \<rparr>"

section \<open>Lemmas\<close>

lemma serial_le_refl [simp]: "serial_le a a"
  by (simp add: serial_le_def split: option.split)

lemma serial_le_trans: "serial_le a b \<Longrightarrow> serial_le b c \<Longrightarrow> serial_le a c"
  by (auto simp: serial_le_def split: option.splits)

lemma check_serial_cases:
  "check_serial serial m = Inr SerialNewer \<longleftrightarrow> serial_le m (Some serial) \<and> m \<noteq> Some serial"
  "check_serial serial m = Inr SerialSame \<longleftrightarrow> m = Some serial"
  "check_serial serial m = Inl e \<longleftrightarrow> (\<exists>n. m = Some n \<and> serial < n \<and> e = TeRollback serial n)"
  by (auto simp: check_serial_def serial_le_def split: option.split)

lemma is_utf8_u64: "is_utf8 (u64_to_string w)"
proof -
  have "is_ascii c" if "is_digit c" for c
    using that by (simp add: is_digit_def is_ascii_def)
  then show ?thesis
    using nat_digits_correct [of "unat w"]
    by (intro is_utf8_ascii) (auto simp: u64_to_string_def list_all_iff)
qed

lemma read_serial_text_u64 [simp]: "read_serial_text (Some (u64_to_string w)) = Some w"
  by (simp add: read_serial_text_def is_utf8_u64 text_simps)

lemmas key_defs = key_access_current_def key_access_previous_def key_access_serial_def key_keystate_current_def
  key_keystate_serial_def key_release_current_def key_release_serial_def

text \<open>The keys that a commit of one document writes are not those that another one reads.\<close>

lemma keys_for_apart:
  assumes "keys_for ms doc = (current, previous, serial_key)" "keys_for ms other = (current', previous', serial_key')"
    and "other \<noteq> doc"
  shows "current' \<noteq> current \<and> current' \<noteq> serial_key \<and> previous \<noteq> Some current' \<and>
    serial_key' \<noteq> current \<and> serial_key' \<noteq> serial_key \<and> previous \<noteq> Some serial_key'"
  using assms by (cases doc; cases other) (auto simp: keys_for_def key_defs)

lemma commit_ops_contents:
  assumes "fold apply_op (commit_ops previous current_bytes current_serial serial current record_bytes serial_key) m = m'"
  shows "m' serial_key = Some (u64_to_string serial)"
    "k \<noteq> current \<Longrightarrow> k \<noteq> serial_key \<Longrightarrow> previous \<noteq> Some k \<Longrightarrow> m' k = m k"
  unfolding assms [symmetric] by (auto simp: commit_ops_def split: option.split)

lemma commit_ops_serial:
  assumes "keys_for ms doc = (current, previous, serial_key)"
    and "m' = fold apply_op (commit_ops previous current_bytes current_serial serial current record_bytes serial_key) m"
  shows "stored_serial rj ms doc m' = Some serial"
    "other \<noteq> doc \<Longrightarrow> stored_serial rj ms other m' = stored_serial rj ms other m"
proof -
  note contents = commit_ops_contents [OF assms(2) [symmetric]]
  show "stored_serial rj ms doc m' = Some serial"
    by (simp add: stored_serial_def assms(1) contents(1))
  show "stored_serial rj ms other m' = stored_serial rj ms other m" if "other \<noteq> doc"
  proof -
    obtain current' previous' serial_key' where keys: "keys_for ms other = (current', previous', serial_key')"
      by (cases "keys_for ms other") auto
    then have "m' current' = m current'" "m' serial_key' = m serial_key'"
      using keys_for_apart [OF assms(1) keys that] by (auto intro: contents(2))
    then show ?thesis by (simp add: stored_serial_def keys cong: option.case_cong)
  qed
qed

subsection \<open>The interface of the store\<close>

text \<open>
  The contract of \<open>AccessStore\<close>: a read that succeeds returns what is stored, and a batch
  takes effect as a whole or not at all.
\<close>

locale access_store =
  fixes ops :: "'s store_ops" and contents :: "'s \<Rightarrow> (string \<rightharpoonup> string)"
  assumes get_contents: "so_get ops k s = Inr v \<Longrightarrow> v = contents s k"
    and apply_contents: "so_apply ops xs s = (None, s') \<Longrightarrow> contents s' = fold apply_op xs (contents s)"
    and apply_failed: "so_apply ops xs s = (Some e, s') \<Longrightarrow> contents s' = contents s"
begin

lemma max_serial_coherent:
  assumes "max_serial ops rj ms doc (s, cache) = (r, st')" "coherent rj ms (contents s) cache"
  shows "fst st' = s" "coherent rj ms (contents s) (snd st')"
    "r = Inr m \<Longrightarrow> m = stored_serial rj ms doc (contents s)"
proof -
  obtain current previous serial_key where keys: "keys_for ms doc = (current, previous, serial_key)"
    by (cases "keys_for ms doc") auto
  have "fst st' = s \<and> (snd st' = cache \<or> snd st' = cache(doc \<mapsto> stored_serial rj ms doc (contents s))) \<and>
      (\<forall>m. r = Inr m \<longrightarrow> m = stored_serial rj ms doc (contents s))"
  proof (cases "cache doc")
    case (Some v)
    then show ?thesis
      using assms by (auto simp: max_serial_def coherent_def)
  next
    case None
    then show ?thesis
      using assms(1) keys
      by (auto simp: max_serial_def stored_serial_def Let_def
          split: option.split_asm sum.split_asm dest!: get_contents)
  qed
  then show "fst st' = s" "coherent rj ms (contents s) (snd st')"
    "r = Inr m \<Longrightarrow> m = stored_serial rj ms doc (contents s)"
    using assms(2) by (auto simp: coherent_def split: if_split_asm)
qed

lemma commit_store_effect:
  assumes "commit ops rj te ms doc serial envelope meta (s, cache) = (r, st')"
    and "coherent rj ms (contents s) cache"
  shows "commit_effect rj ms doc serial (contents s) r (contents (fst st')) \<and>
    coherent rj ms (contents (fst st')) (snd st')"
proof -
  obtain q st1 where read: "max_serial ops rj ms doc (s, cache) = (q, st1)"
    by (cases "max_serial ops rj ms doc (s, cache)")
  note max1 = max_serial_coherent [OF read assms(2)]
  show ?thesis
  proof (cases q)
    case (Inl e)
    then show ?thesis
      using assms(1) read max1 by (auto simp: commit_def commit_effect_def)
  next
    case (Inr m)
    then have m: "m = stored_serial rj ms doc (contents s)" by (rule max1(3))
    obtain current previous serial_key where keys: "keys_for ms doc = (current, previous, serial_key)"
      by (cases "keys_for ms doc") auto
    have kept: "st' = st1 \<Longrightarrow> contents (fst st') = contents s \<and> coherent rj ms (contents (fst st')) (snd st')"
      using max1 by auto
    consider (rollback) e where "check_serial serial m = Inl e" "r = Inl (AeTrust e)" "st' = st1"
      | (failed) e where "r = Inl (AeStore e)" "contents (fst st') = contents s" "snd st' = snd st1"
      | (same) "check_serial serial m = Inr SerialSame" "r = Inr (OutUnchanged serial)" "st' = st1"
      | (written) check current_bytes record_bytes where "check_serial serial m = Inr check"
          "contents (fst st') = fold apply_op (commit_ops previous current_bytes
             (read_record_serial rj current_bytes) serial current record_bytes serial_key) (contents s)"
          "r = Inr (case check of SerialSame \<Rightarrow> OutUnchanged serial | SerialNewer \<Rightarrow> OutAdopted serial m)"
          "snd st' = (snd st1)(doc \<mapsto> Some (case m of None \<Rightarrow> serial | Some n \<Rightarrow> max n serial))"
      using assms(1) read Inr keys max1(1)
      by (auto simp: commit_def Let_def split: sum.split_asm if_split_asm prod.split_asm option.split_asm
          dest!: apply_failed apply_contents)
    then show ?thesis
    proof cases
      case rollback
      then show ?thesis using kept m by (auto simp: commit_effect_def check_serial_cases)
    next
      case failed
      then show ?thesis using max1(2) by (auto simp: commit_effect_def)
    next
      case same
      then show ?thesis using kept m by (auto simp: commit_effect_def check_serial_cases)
    next
      case written
      note serial = commit_ops_serial [OF keys written(2)]
      have newest: "(case m of None \<Rightarrow> serial | Some n \<Rightarrow> max n serial) = serial" "serial_le m (Some serial)"
        using written(1) by (auto simp: check_serial_def serial_le_def split: option.split_asm if_split_asm)
      have "coherent rj ms (contents (fst st')) (snd st')"
        using max1(2) serial newest(1) by (auto simp: coherent_def written(4))
      moreover have "commit_effect rj ms doc serial (contents s) r (contents (fst st'))"
        using written(1) serial newest(2) m
        by (cases check) (auto simp: commit_effect_def written(3) check_serial_cases)
      ultimately show ?thesis by blast
    qed
  qed
qed

end

interpretation memory_docs: access_store memory_ops mem_entries
  by unfold_locales
    (auto simp: memory_ops_def mem_get_def mem_apply_def check_writable_def fail_if_def split: if_split_asm)

lemma docs_step_coherent:
  assumes "docs_step rj te ms st st'" "coherent rj ms (mem_entries (fst st)) (snd st)"
  shows "coherent rj ms (mem_entries (fst st')) (snd st') \<and>
    serial_le (stored_serial rj ms doc (mem_entries (fst st))) (stored_serial rj ms doc (mem_entries (fst st')))"
  using assms
proof cases
  case (docs_commit target serial envelope meta r)
  obtain s cache where st: "st = (s, cache)" by (cases st)
  have effect: "commit_effect rj ms target serial (mem_entries s) r (mem_entries (fst st'))"
    "coherent rj ms (mem_entries (fst st')) (snd st')"
    using memory_docs.commit_store_effect [of rj te ms target serial envelope meta s cache r st']
      docs_commit assms(2) st by auto
  have "serial_le (stored_serial rj ms doc (mem_entries s)) (stored_serial rj ms doc (mem_entries (fst st')))"
    using effect(1)
    by (cases "doc = target") (auto simp: commit_effect_def split: sum.split_asm AcceptError.split_asm)
  then show ?thesis using effect(2) st by simp
qed (auto simp: coherent_def)

lemma docs_run_coherent:
  assumes "docs_run rj te ms st st'" "coherent rj ms (mem_entries (fst st)) (snd st)"
  shows "coherent rj ms (mem_entries (fst st')) (snd st') \<and>
    serial_le (stored_serial rj ms doc (mem_entries (fst st))) (stored_serial rj ms doc (mem_entries (fst st')))"
  using assms
proof (induction rule: docs_run.induct)
  case (docs_run_step st st' st'')
  then show ?case using docs_step_coherent serial_le_trans by blast
qed simp

subsection \<open>Properties\<close>


lemma example_commit:
  "commit memory_ops example_json example_trust_env example_docs DocAccess 5 ''E'' example_meta
     (example_empty, Map.empty) =
   (Inr (OutAdopted 5 None), (example_full, [DocAccess \<mapsto> Some 5]))"
proof -
  have keys: "keys_for example_docs DocAccess =
      (key_access_current ''b1'', Some (key_access_previous ''b1''), key_access_serial ''b1'')"
    by (simp add: keys_for_def example_docs_def manifest_store_new_def)
  show ?thesis
    by (simp add: commit_def max_serial_def keys memory_ops_def mem_get_def example_empty_def
        read_serial_text_def read_record_serial_def check_serial_def example_json_def mem_apply_def
        check_writable_def fail_if_def commit_ops_def example_full_def)
qed


text \<open>
  The cache is written without the lock by \<open>max_serial\<close> itself. A caller outside a commit that
  reads the store before a commit and writes the cache after it leaves the cache behind the store,
  and the next commit replaces the newer document by an older one.
\<close>

lemma stale_cache_rolls_back:
  "stored_serial example_json example_docs DocAccess (mem_entries example_full) = Some 5"
  "fst (commit memory_ops example_json example_trust_env example_docs DocAccess 3 ''E'' example_meta
     (example_full, [DocAccess \<mapsto> None])) = Inr (OutAdopted 3 None)"
proof -
  have keys: "keys_for example_docs DocAccess =
      (key_access_current ''b1'', Some (key_access_previous ''b1''), key_access_serial ''b1'')"
    by (simp add: keys_for_def example_docs_def manifest_store_new_def)
  show "stored_serial example_json example_docs DocAccess (mem_entries example_full) = Some 5"
    by (simp add: stored_serial_def keys example_full_def)
  show "fst (commit memory_ops example_json example_trust_env example_docs DocAccess 3 ''E'' example_meta
      (example_full, [DocAccess \<mapsto> None])) = Inr (OutAdopted 3 None)"
    by (simp add: commit_def max_serial_def keys memory_ops_def mem_get_def read_record_serial_def
        check_serial_def example_json_def mem_apply_def check_writable_def fail_if_def example_full_def
        split: option.split)
qed

end
