(* ===== verification/Directory.thy ===== *)
theory Directory
  imports Manifest_Store
begin

text \<open>
  The endpoint directory (\<open>access/src/directory/mod.rs\<close>): snapshots expanded from a verified
  manifest, the difference between two snapshots, and the atomic replacement. The snapshot is
  swapped atomically and \<open>replace_if_newer\<close> retries its comparison until no other writer came in
  between, so it is one step here.
\<close>

section \<open>Definitions\<close>

datatype ManifestOrigin = OrSigned string ManifestSource string | OrDevelopment | OrUnavailable

record ServiceEndpoints =
  ep_im_ws :: "string option"
  ep_im_quic :: "string option"
  ep_core_api :: "string option"
  ep_social_api :: "string option"
  ep_media :: "string option"
  ep_ping :: "string option"

definition endpoints_get :: "ServiceKind \<Rightarrow> ServiceEndpoints \<Rightarrow> string option" where
  "endpoints_get k e =
     (case k of ImWs \<Rightarrow> ep_im_ws e | ImQuic \<Rightarrow> ep_im_quic e | CoreApi \<Rightarrow> ep_core_api e
      | SocialApi \<Rightarrow> ep_social_api e | Media \<Rightarrow> ep_media e | Ping \<Rightarrow> ep_ping e)"

record AccessPointEntry =
  ape_id :: string
  ape_cell_id :: string
  ape_region_id :: string
  ape_host :: string
  ape_ip_hints :: "IpAddr list"
  ape_spki_pins :: "string list"
  ape_weight :: nat
  ape_priority :: nat
  ape_status :: ApStatus
  ape_tags :: "string list"
  ape_endpoints :: ServiceEndpoints

record DirectorySnapshot =
  ds_origin :: ManifestOrigin
  ds_manifest :: AccessManifest
  ds_serial :: u64
  ds_issued_at_ms :: i64
  ds_expires_at_ms :: i64
  ds_home_cell :: string
  ds_home_region :: string
  ds_policy :: ClientPolicy
  ds_access_points :: "AccessPointEntry list"

definition expand_access_point :: "string \<Rightarrow> string \<Rightarrow> AccessPoint \<Rightarrow> AccessPointEntry" where
  "expand_access_point region_id cell ap =
     (let sv = ap_services ap;
          https = (\<lambda>kind. map_option (\<lambda>path. ''https://'' @ ap_host ap @ path) (services_path kind sv)) in
      \<lparr> ape_id = ap_id ap, ape_cell_id = cell, ape_region_id = region_id, ape_host = ap_host ap,
        ape_ip_hints = List.map_filter parse_ip (ap_ip_hints ap), ape_spki_pins = ap_spki_pins ap,
        ape_weight = ap_weight ap, ape_priority = ap_priority ap, ape_status = ap_status ap,
        ape_tags = ap_tags ap,
        ape_endpoints =
          \<lparr> ep_im_ws = map_option (\<lambda>path. ''wss://'' @ ap_host ap @ path) (services_path ImWs sv),
            ep_im_quic = map_option (\<lambda>port. ''quic://'' @ ap_host ap @ '':'' @ nat_digits port) (sv_im_quic sv),
            ep_core_api = https CoreApi, ep_social_api = https SocialApi, ep_media = https Media,
            ep_ping = https Ping \<rparr> \<rparr>)"

definition expand_home_cell :: "AccessManifest \<Rightarrow> string \<times> AccessPointEntry list" where
  "expand_home_cell m =
     (case home_cell m of
        None \<Rightarrow> ([], [])
      | Some (region, cell) \<Rightarrow>
          (rg_id region, map (expand_access_point (rg_id region) (cell_id cell)) (cell_access_points cell)))"

definition from_verified :: "VerifiedAccessManifest \<Rightarrow> ManifestSource \<Rightarrow> DirectorySnapshot" where
  "from_verified v source =
     (case expand_home_cell (va_manifest v) of (home_region, access_points) \<Rightarrow>
      \<lparr> ds_origin = OrSigned (va_key_id v) source (va_digest v), ds_manifest = va_manifest v,
        ds_serial = va_serial v, ds_issued_at_ms = va_issued_at_ms v, ds_expires_at_ms = va_expires_at_ms v,
        ds_home_cell = pl_home_cell (am_placement (va_manifest v)), ds_home_region = home_region,
        ds_policy = client_policy (va_manifest v), ds_access_points = access_points \<rparr>)"

definition unavailable_manifest :: "string \<Rightarrow> BootstrapSource list \<Rightarrow> AccessManifest" where
  "unavailable_manifest bootstrap_id sources =
     \<lparr> am_schema = ACCESS_SCHEMA, am_bootstrap_id = bootstrap_id, am_app_id = [], am_serial = 0,
       am_issued_at = [], am_expires_at = [], am_regions = [],
       am_placement = \<lparr> pl_home_cell = [], pl_allowed_regions = [] \<rparr>,
       am_bootstrap = \<lparr> bt_sources = sources, bt_refresh_interval_sec = None \<rparr>,
       am_client_policy = JNull, am_release = None \<rparr>"

definition unavailable :: "string \<Rightarrow> BootstrapSource list \<Rightarrow> DirectorySnapshot" where
  "unavailable bootstrap_id sources =
     \<lparr> ds_origin = OrUnavailable, ds_manifest = unavailable_manifest bootstrap_id sources, ds_serial = 0,
       ds_issued_at_ms = 0, ds_expires_at_ms = 0, ds_home_cell = [], ds_home_region = [],
       ds_policy = client_policy (unavailable_manifest bootstrap_id sources), ds_access_points = [] \<rparr>"

definition has_manifest :: "DirectorySnapshot \<Rightarrow> bool" where
  "has_manifest d \<longleftrightarrow> ds_origin d \<noteq> OrUnavailable"

definition is_development :: "DirectorySnapshot \<Rightarrow> bool" where
  "is_development d \<longleftrightarrow> ds_origin d = OrDevelopment"

definition snapshot_is_stale :: "DirectorySnapshot \<Rightarrow> i64 \<Rightarrow> bool" where
  "snapshot_is_stale d now_ms \<longleftrightarrow> \<not> is_development d \<and> ds_expires_at_ms d \<le> now_ms"

definition access_point :: "string \<Rightarrow> DirectorySnapshot \<Rightarrow> (nat \<times> AccessPointEntry) option" where
  "access_point i d = find (\<lambda>(_, e). ape_id e = i) (enumerate 0 (ds_access_points d))"

definition offering :: "ServiceKind \<Rightarrow> DirectorySnapshot \<Rightarrow> (nat \<times> AccessPointEntry) list" where
  "offering kind d =
     filter (\<lambda>(_, e). endpoints_get kind (ape_endpoints e) \<noteq> None) (enumerate 0 (ds_access_points d))"

definition endpoint :: "nat \<Rightarrow> ServiceKind \<Rightarrow> DirectorySnapshot \<Rightarrow> string option" where
  "endpoint i kind d =
     (if i < length (ds_access_points d) then endpoints_get kind (ape_endpoints (ds_access_points d ! i)) else None)"

record DirectoryChange =
  dc_from_serial :: u64
  dc_to_serial :: u64
  dc_added :: "string list"
  dc_removed :: "string list"
  dc_changed :: "(string \<times> ApStatus) list"
  dc_policy_changed :: bool

definition between :: "DirectorySnapshot \<Rightarrow> DirectorySnapshot \<Rightarrow> DirectoryChange" where
  "between old new =
     \<lparr> dc_from_serial = ds_serial old, dc_to_serial = ds_serial new,
       dc_added = map ape_id (filter (\<lambda>e. access_point (ape_id e) old = None) (ds_access_points new)),
       dc_removed = map ape_id (filter (\<lambda>e. access_point (ape_id e) new = None) (ds_access_points old)),
       dc_changed = List.map_filter (\<lambda>e.
          case access_point (ape_id e) old of
            None \<Rightarrow> None
          | Some (_, previous) \<Rightarrow> if previous \<noteq> e then Some (ape_id e, ape_status e) else None) (ds_access_points new),
       dc_policy_changed = (ds_policy old \<noteq> ds_policy new) \<rparr>"

definition change_is_empty :: "DirectoryChange \<Rightarrow> bool" where
  "change_is_empty c \<longleftrightarrow> dc_added c = [] \<and> dc_removed c = [] \<and> dc_changed c = [] \<and> \<not> dc_policy_changed c"

definition replace :: "DirectorySnapshot \<Rightarrow> DirectorySnapshot \<Rightarrow> DirectoryChange \<times> DirectorySnapshot" where
  "replace new current = (between current new, new)"

definition replace_if_newer ::
  "DirectorySnapshot \<Rightarrow> DirectorySnapshot \<Rightarrow> DirectoryChange option \<times> DirectorySnapshot" where
  "replace_if_newer new current =
     (if ds_serial new \<le> ds_serial current \<and> \<not> is_development current \<and> has_manifest current
      then (None, current) else (Some (between current new), new))"

subsection \<open>Vocabulary of the lemmas\<close>

text \<open>An entry that is the expansion of an access point that a client may use.\<close>

definition entry_usable :: "AccessPointEntry \<Rightarrow> bool" where
  "entry_usable e \<longleftrightarrow>
     (\<exists>ap. usable_ap ap \<and> e = expand_access_point (ape_region_id e) (ape_cell_id e) ap)"

section \<open>Lemmas\<close>

lemma usable_home_cell:
  assumes "manifest_ok m" "home_cell m = Some (region, cell)" "ap \<in> set (cell_access_points cell)"
  shows "usable_ap ap"
proof -
  have "cell \<in> set (all_cells m)"
    using home_cell_Some [OF assms(2)] by (auto simp: all_cells_def)
  then show ?thesis
    using assms(1,3) by (auto simp: manifest_ok_def list_all_iff cells_aps_def)
qed

lemma from_verified_entries:
  assumes "manifest_ok (va_manifest v)"
  shows "list_all entry_usable (ds_access_points (from_verified v source))"
  using usable_home_cell [OF assms]
  by (auto simp: from_verified_def expand_home_cell_def list_all_iff entry_usable_def expand_access_point_def Let_def
      split: option.split)

lemma replace_if_newer_serial:
  assumes "has_manifest current" "\<not> is_development current"
  shows "ds_serial current \<le> ds_serial (snd (replace_if_newer new current))"
  using assms by (simp add: replace_if_newer_def not_le less_imp_le)

text \<open>The reported difference is exact.\<close>

lemma access_point_None: "access_point i d = None \<longleftrightarrow> i \<notin> ape_id ` set (ds_access_points d)"
proof -
  have "snd ` set (enumerate 0 (ds_access_points d)) = set (ds_access_points d)"
    by (metis list.set_map map_snd_enumerate)
  then show ?thesis by (force simp: access_point_def find_None_iff case_prod_unfold)
qed

lemma between_sets:
  "set (dc_added (between old new)) = ape_id ` set (ds_access_points new) - ape_id ` set (ds_access_points old)"
  "set (dc_removed (between old new)) = ape_id ` set (ds_access_points old) - ape_id ` set (ds_access_points new)"
  unfolding between_def DirectoryChange.simps access_point_None by auto

end
