(* ===== verification/Access_Kernel.thy ===== *)
theory Access_Kernel
  imports Directory
begin

text \<open>
  The facade of the access crate (\<open>access/src/kernel.rs\<close>, the configuration of
  \<open>access/src/bootstrap/mod.rs\<close>): the start of a production kernel from the stored key state, the
  last known good manifest and the built-in seed, and the acceptance of manifests, recovery links,
  key states and release manifests. The health book and the selector only take the policy from
  here; the development snapshot is not modelled. The trust material and the directory are
  replaced atomically; a call is a sequence of atomic steps with a commit between them, and
  \<open>accept_keystate\<close> is given by its steps, so that two calls can be interleaved.
\<close>

section \<open>Definitions\<close>

subsection \<open>Configuration\<close>

datatype TrustMode = TmProduction | TmDevelopment

datatype ConfigError =
    CeInvalidBootstrapId
  | CeMissingTrustRoots
  | CeDevelopmentEndpointsInProduction
  | CeMissingDevelopmentEndpoints
  | CeSeedTooLarge nat

text \<open>Development endpoints are only tested for presence.\<close>

record AccessConfig =
  ac_bootstrap_id :: string
  ac_trust_roots :: "(string \<times> string) list"
  ac_seed :: "string option"
  ac_trust_mode :: TrustMode
  ac_has_development_endpoints :: bool

definition DEVELOPMENT_ID :: string where "DEVELOPMENT_ID = ''development''"

definition effective_bootstrap_id :: "AccessConfig \<Rightarrow> string" where
  "effective_bootstrap_id c =
     (if ac_bootstrap_id c = [] \<and> ac_trust_mode c = TmDevelopment then DEVELOPMENT_ID else ac_bootstrap_id c)"

definition validate_config :: "AccessConfig \<Rightarrow> ConfigError option" where
  "validate_config c =
     first_error
       [fail_if (\<not> is_valid_id (effective_bootstrap_id c)) CeInvalidBootstrapId,
        (case ac_trust_mode c of
           TmProduction \<Rightarrow>
             first_error
               [fail_if (ac_has_development_endpoints c) CeDevelopmentEndpointsInProduction,
                fail_if (ac_trust_roots c = []) CeMissingTrustRoots]
         | TmDevelopment \<Rightarrow> fail_if (\<not> ac_has_development_endpoints c) CeMissingDevelopmentEndpoints),
        fail_if (case ac_seed c of None \<Rightarrow> False | Some seed \<Rightarrow> MAX_DOCUMENT_BYTES < length seed)
          (CeSeedTooLarge MAX_DOCUMENT_BYTES)]"

definition seed_bytes :: "AccessConfig \<Rightarrow> string option" where
  "seed_bytes c =
     (case ac_seed c of
        None \<Rightarrow> None
      | Some seed \<Rightarrow> (let t = trim seed in if t = [] then None else Some t))"

text \<open>The reader of the bootstrap section of an unverified payload (\<open>serde_json\<close>) is a parameter.\<close>

definition envelope_sources ::
  "trust_env \<Rightarrow> (string \<Rightarrow> BootstrapSource list option) \<Rightarrow> string \<Rightarrow> BootstrapSource list" where
  "envelope_sources te fragment_json bytes =
     (case envelope_parse te bytes of
        Inl _ \<Rightarrow> []
      | Inr envelope \<Rightarrow>
          (case decode_b64 te (ev_payload envelope) of
             None \<Rightarrow> []
           | Some payload \<Rightarrow>
               (case fragment_json payload of
                  None \<Rightarrow> []
                | Some sources \<Rightarrow>
                    take MAX_BOOTSTRAP_SOURCES
                      (filter (\<lambda>source. validate_source source ''source'' = None) sources))))"

subsection \<open>Starting from what is stored\<close>

text \<open>\<open>WPersistFailed\<close> holds the error whose text the source reports.\<close>

datatype AccessWarning =
    WDevelopmentMode
  | WManifestStale u64 i64
  | WStoredDocumentRejected DocType string
  | WStoredDocumentUnreadable DocType string
  | WSeedRejected string
  | WSeedBelowStoredSerial u64 u64
  | WNoUsableManifest "string option" "string option"
  | WPersistFailed AcceptError

datatype InitialOrigin = IoLkg | IoSeed bool | IoDevelopment | IoUnavailable

text \<open>What a kernel calls: the store, the record format and the trust parameters.\<close>

record 's kernel_env =
  ke_ops :: "'s store_ops"
  ke_json :: record_json
  ke_trust :: trust_env
  ke_fragment_json :: "string \<Rightarrow> BootstrapSource list option"

definition store_error_text :: "StoreError \<Rightarrow> string" where
  "store_error_text e =
     (case e of
        SeBackend m \<Rightarrow> ''access store backend failed: '' @ m
      | SeCorrupt m \<Rightarrow> ''access store value is corrupt: '' @ m)"

definition load_keystate ::
  "'s kernel_env \<Rightarrow> ManifestStore \<Rightarrow> TrustStore \<Rightarrow> 's docs \<Rightarrow> TrustStore \<times> AccessWarning list" where
  "load_keystate ke ms trust docs =
     (case load_document (ke_ops ke) (ke_json ke) ms DocKeyState docs of
        Inl e \<Rightarrow> (trust, [WStoredDocumentUnreadable DocKeyState (store_error_text e)])
      | Inr None \<Rightarrow> (trust, [])
      | Inr (Some doc_record) \<Rightarrow>
          (case (case envelope_bytes (ke_trust ke) doc_record of
                   Inl e \<Rightarrow> Inl (store_error_text e)
                 | Inr bytes \<Rightarrow> map_err trust_error_code (verify_keystate (ke_trust ke) trust bytes)) of
             Inr keystate \<Rightarrow> (with_keystate trust keystate, [])
           | Inl code \<Rightarrow> (trust, [WStoredDocumentRejected DocKeyState code])))"

definition load_lkg ::
  "'s kernel_env \<Rightarrow> ManifestStore \<Rightarrow> TrustStore \<Rightarrow> i64 \<Rightarrow> 's docs \<Rightarrow>
   (VerifiedAccessManifest \<times> StoredDocument) option \<times> string option \<times> AccessWarning list" where
  "load_lkg ke ms trust now_ms docs =
     (case load_document (ke_ops ke) (ke_json ke) ms DocAccess docs of
        Inl e \<Rightarrow> (None, Some ''unreadable'', [WStoredDocumentUnreadable DocAccess (store_error_text e)])
      | Inr None \<Rightarrow> (None, None, [])
      | Inr (Some doc_record) \<Rightarrow>
          (case envelope_bytes (ke_trust ke) doc_record of
             Inl e \<Rightarrow> (None, Some ''unreadable'', [WStoredDocumentUnreadable DocAccess (store_error_text e)])
           | Inr bytes \<Rightarrow>
               (case verify_stored_access (ke_trust ke) trust bytes now_ms of
                  Inr v \<Rightarrow> (Some (v, doc_record), None, [])
                | Inl e \<Rightarrow> (None, Some (trust_error_code e),
                           [WStoredDocumentRejected DocAccess (trust_error_code e)]))))"

datatype Initial =
    InitManifest VerifiedAccessManifest ManifestSource InitialOrigin i64
  | InitUnavailable "BootstrapSource list"

definition new_meta :: "ManifestSource \<Rightarrow> i64 \<Rightarrow> FetchMeta" where
  "new_meta source fetched_at_ms = \<lparr> fm_source = source, fm_etag = None, fm_fetched_at_ms = fetched_at_ms \<rparr>"

definition adopt_seed ::
  "'s kernel_env \<Rightarrow> ManifestStore \<Rightarrow> VerifiedAccessManifest \<Rightarrow> i64 \<Rightarrow> 's docs \<Rightarrow> InitialOrigin \<times> AccessWarning list \<times> 's docs" where
  "adopt_seed ke ms seed now_ms docs =
     (case commit_access (ke_ops ke) (ke_json ke) (ke_trust ke) ms seed (new_meta SrcSeed now_ms) docs of
        (Inr _, docs) \<Rightarrow> (IoSeed True, [], docs)
      | (Inl (AeTrust (TeRollback serial stored)), docs) \<Rightarrow>
          (IoSeed False, [WSeedBelowStoredSerial serial stored], docs)
      | (Inl e, docs) \<Rightarrow> (IoSeed False, [WPersistFailed e], docs))"

definition initial_from_seed ::
  "'s kernel_env \<Rightarrow> ManifestStore \<Rightarrow> VerifiedAccessManifest \<Rightarrow> i64 \<Rightarrow> 's docs \<Rightarrow> Initial \<times> AccessWarning list \<times> 's docs" where
  "initial_from_seed ke ms seed now_ms docs =
     (case adopt_seed ke ms seed now_ms docs of
        (origin, ws, docs) \<Rightarrow> (InitManifest seed SrcSeed origin 0, ws, docs))"

definition verify_seed ::
  "'s kernel_env \<Rightarrow> AccessConfig \<Rightarrow> TrustStore \<Rightarrow> i64 \<Rightarrow>
   VerifiedAccessManifest option \<times> string option \<times> AccessWarning list" where
  "verify_seed ke config trust now_ms =
     (case seed_bytes config of
        None \<Rightarrow> (None, None, [])
      | Some bytes \<Rightarrow>
          (case verify_access (ke_trust ke) trust bytes now_ms of
             Inr v \<Rightarrow> (Some v, None, [])
           | Inl e \<Rightarrow> (None, Some (trust_error_code e), [WSeedRejected (trust_error_code e)])))"

definition choose_initial ::
  "'s kernel_env \<Rightarrow> ManifestStore \<Rightarrow> AccessConfig \<Rightarrow> TrustStore \<Rightarrow> i64 \<Rightarrow> 's docs \<Rightarrow>
   Initial \<times> AccessWarning list \<times> 's docs" where
  "choose_initial ke ms config trust now_ms docs =
     (case load_lkg ke ms trust now_ms docs of (lkg, lkg_error, ws) \<Rightarrow>
      case verify_seed ke config trust now_ms of (seed, seed_error, ws') \<Rightarrow>
      let ws = ws @ ws';
          from_seed = (\<lambda>s. case initial_from_seed ke ms s now_ms docs of (i, ws', docs) \<Rightarrow> (i, ws @ ws', docs)) in
      case (lkg, seed) of
        (Some (l, doc_record), seed) \<Rightarrow>
          (case seed of
             Some s \<Rightarrow> if va_serial l < va_serial s then from_seed s
                       else (InitManifest l (sd_source doc_record) IoLkg (sd_fetched_at_ms doc_record), ws, docs)
           | None \<Rightarrow> (InitManifest l (sd_source doc_record) IoLkg (sd_fetched_at_ms doc_record), ws, docs))
      | (None, Some s) \<Rightarrow> from_seed s
      | (None, None) \<Rightarrow>
          (let stored = (case load_document (ke_ops ke) (ke_json ke) ms DocAccess docs of
                           Inr (Some doc_record) \<Rightarrow>
                             (case envelope_bytes (ke_trust ke) doc_record of
                                Inr bytes \<Rightarrow> envelope_sources (ke_trust ke) (ke_fragment_json ke) bytes
                              | Inl _ \<Rightarrow> [])
                         | _ \<Rightarrow> []);
               built_in = (case seed_bytes config of
                             None \<Rightarrow> []
                           | Some bytes \<Rightarrow> envelope_sources (ke_trust ke) (ke_fragment_json ke) bytes);
               sources = fold (\<lambda>source acc. if source \<in> set acc then acc else acc @ [source]) built_in stored in
           (InitUnavailable sources,
            ws @ [WNoUsableManifest lkg_error
                    (case seed_error of
                       Some e \<Rightarrow> Some e
                     | None \<Rightarrow> if seed_bytes config = None then Some ''absent'' else None)],
            docs)))"

subsection \<open>The kernel\<close>

text \<open>A development kernel has neither trust material nor a manifest store.\<close>

record Kernel =
  kn_trust :: "TrustStore option"
  kn_manifests :: "ManifestStore option"
  kn_bootstrap_id :: string
  kn_directory :: DirectorySnapshot
  kn_fetched_at_ms :: i64
  kn_health_policy :: ClientPolicy
  kn_seed_sources :: "BootstrapSource list"

datatype AccessInitError = AiConfig ConfigError | AiTrust TrustError

definition initial_snapshot :: "string \<Rightarrow> Initial \<Rightarrow> DirectorySnapshot \<times> InitialOrigin \<times> i64" where
  "initial_snapshot bootstrap_id chosen =
     (case chosen of
        InitManifest v source origin fetched \<Rightarrow> (from_verified v source, origin, fetched)
      | InitUnavailable sources \<Rightarrow> (unavailable bootstrap_id sources, IoUnavailable, 0))"

text \<open>The production branch, up to the health book and the selector.\<close>

definition bootstrap_production ::
  "'s kernel_env \<Rightarrow> AccessConfig \<Rightarrow> i64 \<Rightarrow> 's \<Rightarrow>
   AccessInitError + (Kernel \<times> InitialOrigin \<times> AccessWarning list \<times> 's docs)" where
  "bootstrap_production ke config now_ms s =
     (case validate_config config of
        Some e \<Rightarrow> Inl (AiConfig e)
      | None \<Rightarrow>
        (let bootstrap_id = effective_bootstrap_id config;
             seed_sources = (case seed_bytes config of
                               None \<Rightarrow> []
                             | Some bytes \<Rightarrow> envelope_sources (ke_trust ke) (ke_fragment_json ke) bytes) in
        and_then (map_err AiTrust (roots_from_config (ke_trust ke) (ac_trust_roots config))) (\<lambda>roots.
        and_then (map_err AiTrust (trust_store_new roots bootstrap_id)) (\<lambda>trust.
        (let ms = manifest_store_new bootstrap_id (tr_fingerprint (ts_roots trust)) in
         case load_keystate ke ms trust (s, Map.empty) of (trust, ws) \<Rightarrow>
         case choose_initial ke ms config trust now_ms (s, Map.empty) of (chosen, ws', docs) \<Rightarrow>
         case initial_snapshot bootstrap_id chosen of (snapshot, origin, fetched) \<Rightarrow>
         let stale = (if has_manifest snapshot \<and> snapshot_is_stale snapshot now_ms
                      then [WManifestStale (ds_serial snapshot) (ds_expires_at_ms snapshot)] else []) in
         Inr (\<lparr> kn_trust = Some trust, kn_manifests = Some ms, kn_bootstrap_id = bootstrap_id,
                 kn_directory = snapshot, kn_fetched_at_ms = fetched, kn_health_policy = ds_policy snapshot,
                 kn_seed_sources = seed_sources \<rparr>, origin, ws @ ws' @ stale, docs))))))"

definition doh_resolvers :: "Kernel \<Rightarrow> string list" where
  "doh_resolvers k =
     fold (\<lambda>source acc.
         fold (\<lambda>resolver acc. if resolver \<in> set acc then acc else acc @ [resolver]) (bs_resolvers source) acc)
       (filter (\<lambda>source. bs_kind source = ''dohTxt'')
         (bt_sources (am_bootstrap (ds_manifest (kn_directory k))) @ kn_seed_sources k)) []"

definition is_listed_host :: "string \<Rightarrow> Kernel \<Rightarrow> bool" where
  "is_listed_host host k \<longleftrightarrow>
     list_ex (\<lambda>e. to_ascii_lowercase (ape_host e) = to_ascii_lowercase host) (ds_access_points (kn_directory k)) \<or>
     list_ex (\<lambda>source.
         case bs_url source of
           None \<Rightarrow> False
         | Some text_url \<Rightarrow>
             (case url_parse text_url of
                Inl _ \<Rightarrow> False
              | Inr url \<Rightarrow> to_ascii_lowercase (url_host url) = to_ascii_lowercase host))
       (bt_sources (am_bootstrap (ds_manifest (kn_directory k))) @ kn_seed_sources k)"

datatype ManifestUpdate = MuAdopted DirectoryChange bool bool | MuUnchanged u64

definition install ::
  "VerifiedAccessManifest \<Rightarrow> FetchMeta \<Rightarrow> i64 \<Rightarrow> bool \<Rightarrow> Kernel \<Rightarrow> ManifestUpdate \<times> Kernel" where
  "install v meta now_ms persisted k =
     (let snapshot = from_verified v (fm_source meta) in
      case replace_if_newer snapshot (kn_directory k) of
        (Some change, directory) \<Rightarrow>
          (MuAdopted change (snapshot_is_stale snapshot now_ms) persisted,
           k \<lparr> kn_directory := directory, kn_fetched_at_ms := fm_fetched_at_ms meta,
                kn_health_policy := ds_policy snapshot \<rparr>)
      | (None, directory) \<Rightarrow> (MuUnchanged (ds_serial directory), k))"

definition adopt ::
  "'s kernel_env \<Rightarrow> VerifiedAccessManifest \<Rightarrow> FetchMeta \<Rightarrow> i64 \<Rightarrow> Kernel \<times> 's docs \<Rightarrow>
   (AcceptError + ManifestUpdate) \<times> Kernel \<times> 's docs" where
  "adopt ke v meta now_ms st =
     (case st of (k, docs) \<Rightarrow>
      case kn_manifests k of
        None \<Rightarrow> (Inl AeDevelopmentMode, k, docs)
      | Some ms \<Rightarrow>
          (case commit_access (ke_ops ke) (ke_json ke) (ke_trust ke) ms v meta docs of
             (Inl (AeStore _), docs) \<Rightarrow> (case install v meta now_ms False k of (u, k) \<Rightarrow> (Inr u, k, docs))
           | (Inl e, docs) \<Rightarrow> (Inl e, k, docs)
           | (Inr _, docs) \<Rightarrow> (case install v meta now_ms True k of (u, k) \<Rightarrow> (Inr u, k, docs))))"

definition accept_manifest ::
  "'s kernel_env \<Rightarrow> string \<Rightarrow> FetchMeta \<Rightarrow> i64 \<Rightarrow> Kernel \<times> 's docs \<Rightarrow>
   (AcceptError + ManifestUpdate) \<times> Kernel \<times> 's docs" where
  "accept_manifest ke envelope meta now_ms st =
     (case kn_trust (fst st) of
        None \<Rightarrow> (Inl AeDevelopmentMode, st)
      | Some trust \<Rightarrow>
          (case verify_access (ke_trust ke) trust envelope now_ms of
             Inl e \<Rightarrow> (Inl (AeTrust e), st)
           | Inr v \<Rightarrow> adopt ke v meta now_ms st))"

definition accept_recovery ::
  "'s kernel_env \<Rightarrow> string \<Rightarrow> i64 \<Rightarrow> Kernel \<times> 's docs \<Rightarrow>
   (AcceptError + ManifestUpdate) \<times> Kernel \<times> 's docs" where
  "accept_recovery ke link now_ms st =
     (case kn_trust (fst st) of
        None \<Rightarrow> (Inl AeDevelopmentMode, st)
      | Some trust \<Rightarrow>
          (case from_recovery_link link of
             Inl e \<Rightarrow> (Inl (AeTrust e), st)
           | Inr envelope \<Rightarrow>
               (case verify_recovery (ke_trust ke) trust (te_envelope_to_json (ke_trust ke) envelope) of
                  Inl e \<Rightarrow> (Inl (AeTrust e), st)
                | Inr v \<Rightarrow> adopt ke v (new_meta SrcRecovery now_ms) now_ms st)))"

subsection \<open>Key states\<close>

datatype KeystateUpdate = KuAdopted u64 bool | KuUnchanged u64

definition current_manifest_revoked :: "Kernel \<Rightarrow> bool" where
  "current_manifest_revoked k =
     (case ds_origin (kn_directory k) of
        OrSigned key_id _ _ \<Rightarrow> (case kn_trust k of None \<Rightarrow> False | Some trust \<Rightarrow> key_id \<in> ts_revoked trust)
      | _ \<Rightarrow> False)"

text \<open>
  The call holds the trust material it loaded at its start (\<open>current\<close>) across the commit; this
  is the part after the commit, which stores the new trust material.
\<close>

definition keystate_finish ::
  "TrustStore \<Rightarrow> VerifiedKeyState \<Rightarrow> (AcceptError + AcceptOutcome) \<Rightarrow> Kernel \<Rightarrow>
   (AcceptError + KeystateUpdate) \<times> Kernel" where
  "keystate_finish current keystate committed k =
     (let k' = k \<lparr> kn_trust := Some (with_keystate current keystate) \<rparr>;
          stored = (Inr (KuAdopted (vk_serial keystate) (current_manifest_revoked k')), k') in
      case committed of
        Inl (AeStore _) \<Rightarrow> stored
      | Inl e \<Rightarrow> (Inl e, k)
      | Inr (OutUnchanged serial) \<Rightarrow>
          if ts_keystate_serial current = Some serial then (Inr (KuUnchanged serial), k) else stored
      | Inr (OutAdopted _ _) \<Rightarrow> stored)"

definition accept_keystate ::
  "'s kernel_env \<Rightarrow> string \<Rightarrow> FetchMeta \<Rightarrow> Kernel \<times> 's docs \<Rightarrow>
   (AcceptError + KeystateUpdate) \<times> Kernel \<times> 's docs" where
  "accept_keystate ke envelope meta st =
     (case st of (k, docs) \<Rightarrow>
      case (kn_trust k, kn_manifests k) of
        (Some current, Some ms) \<Rightarrow>
          (case verify_keystate (ke_trust ke) current envelope of
             Inl e \<Rightarrow> (Inl (AeTrust e), st)
           | Inr keystate \<Rightarrow>
               (case commit_keystate (ke_ops ke) (ke_json ke) (ke_trust ke) ms keystate meta docs of
                  (committed, docs) \<Rightarrow>
                    (case keystate_finish current keystate committed k of (r, k) \<Rightarrow> (r, k, docs))))
      | _ \<Rightarrow> (Inl AeDevelopmentMode, st))"

subsection \<open>Release manifests\<close>

datatype ReleaseUpdate = RuAdopted VerifiedReleaseManifest | RuUnchanged

definition release_store :: "string \<Rightarrow> string \<Rightarrow> Kernel \<Rightarrow> ManifestStore option" where
  "release_store platform channel k =
     map_option (\<lambda>trust. for_release platform channel
       (manifest_store_new (kn_bootstrap_id k) (tr_fingerprint (ts_roots trust)))) (kn_trust k)"

text \<open>A release store has a cache of its own; \<open>docs\<close> is the store with that cache.\<close>

definition load_release ::
  "'s kernel_env \<Rightarrow> ManifestStore \<Rightarrow> string \<Rightarrow> string \<Rightarrow> i64 \<Rightarrow> Kernel \<Rightarrow> 's docs \<Rightarrow>
   (VerifiedReleaseManifest \<times> StoredDocument) option" where
  "load_release ke releases platform channel now_ms k docs =
     (case kn_trust k of
        None \<Rightarrow> None
      | Some trust \<Rightarrow>
          (case load_document (ke_ops ke) (ke_json ke) releases DocRelease docs of
             Inr (Some doc_record) \<Rightarrow>
               (case envelope_bytes (ke_trust ke) doc_record of
                  Inl _ \<Rightarrow> None
                | Inr bytes \<Rightarrow>
                    (case verify_release (ke_trust ke) trust bytes platform channel now_ms of
                       Inl _ \<Rightarrow> None
                     | Inr v \<Rightarrow> Some (v, doc_record)))
           | _ \<Rightarrow> None))"

definition accept_release ::
  "'s kernel_env \<Rightarrow> ManifestStore \<Rightarrow> string \<Rightarrow> string \<Rightarrow> string \<Rightarrow> FetchMeta \<Rightarrow> i64 \<Rightarrow> Kernel \<Rightarrow> 's docs \<Rightarrow>
   (AcceptError + ReleaseUpdate) \<times> 's docs" where
  "accept_release ke releases envelope platform channel meta now_ms k docs =
     (case kn_trust k of
        None \<Rightarrow> (Inl AeDevelopmentMode, docs)
      | Some trust \<Rightarrow>
          (case verify_release (ke_trust ke) trust envelope platform channel now_ms of
             Inl e \<Rightarrow> (Inl (AeTrust e), docs)
           | Inr v \<Rightarrow>
               (case commit_release (ke_ops ke) (ke_json ke) (ke_trust ke) releases v meta docs of
                  (Inr (OutAdopted _ _), docs) \<Rightarrow> (Inr (RuAdopted v), docs)
                | (Inl (AeStore _), docs) \<Rightarrow> (Inr (RuAdopted v), docs)
                | (Inr (OutUnchanged _), docs) \<Rightarrow> (Inr RuUnchanged, docs)
                | (Inl e, docs) \<Rightarrow> (Inl e, docs))))"

subsection \<open>Status\<close>

record AccessStatus =
  as_serial :: u64
  as_source :: string
  as_stale :: bool
  as_development :: bool
  as_issued_at_ms :: i64
  as_expires_at_ms :: i64
  as_fetched_at_ms :: "i64 option"
  as_region_id :: string
  as_cell_id :: string
  as_keystate_serial :: "u64 option"
  as_has_manifest :: bool

definition kernel_status :: "i64 \<Rightarrow> Kernel \<Rightarrow> AccessStatus" where
  "kernel_status now_ms k =
     (let d = kn_directory k in
      \<lparr> as_serial = ds_serial d,
        as_source = (case ds_origin d of
                       OrSigned _ source _ \<Rightarrow> source_label source
                     | OrDevelopment \<Rightarrow> ''development''
                     | OrUnavailable \<Rightarrow> ''none''),
        as_stale = snapshot_is_stale d now_ms, as_development = is_development d,
        as_issued_at_ms = ds_issued_at_ms d, as_expires_at_ms = ds_expires_at_ms d,
        as_fetched_at_ms = (if 0 < kn_fetched_at_ms k then Some (kn_fetched_at_ms k) else None),
        as_region_id = ds_home_region d, as_cell_id = ds_home_cell d,
        as_keystate_serial = Option.bind (kn_trust k) ts_keystate_serial,
        as_has_manifest = has_manifest d \<rparr>)"

subsection \<open>Vocabulary of the lemmas\<close>

text \<open>A manifest that the built-in roots vouch for: verification accepted it for this application.\<close>

definition vouched :: "trust_env \<Rightarrow> TrustRoots \<Rightarrow> string \<Rightarrow> VerifiedAccessManifest \<Rightarrow> bool" where
  "vouched te roots bootstrap_id v \<longleftrightarrow>
     (\<exists>st bytes now_ms. ts_roots st = roots \<and> ts_bootstrap_id st = bootstrap_id \<and>
        (verify_access te st bytes now_ms = Inr v \<or> verify_recovery te st bytes = Inr v))"

definition directory_trusted :: "trust_env \<Rightarrow> TrustRoots \<Rightarrow> string \<Rightarrow> DirectorySnapshot \<Rightarrow> bool" where
  "directory_trusted te roots bootstrap_id d \<longleftrightarrow>
     (if has_manifest d then \<exists>v source. d = from_verified v source \<and> vouched te roots bootstrap_id v
      else ds_access_points d = [])"

definition kernel_ok :: "trust_env \<Rightarrow> TrustRoots \<Rightarrow> string \<Rightarrow> Kernel \<Rightarrow> bool" where
  "kernel_ok te roots bootstrap_id k \<longleftrightarrow>
     (case kn_trust k of
        None \<Rightarrow> False
      | Some trust \<Rightarrow> ts_roots trust = roots \<and> ts_bootstrap_id trust = bootstrap_id) \<and>
     directory_trusted te roots bootstrap_id (kn_directory k) \<and>
     kn_health_policy k = ds_policy (kn_directory k)"

text \<open>What never goes back: the manifest and the revocations in use.\<close>

definition kernel_le :: "Kernel \<Rightarrow> Kernel \<Rightarrow> bool" where
  "kernel_le k k' \<longleftrightarrow>
     (if has_manifest (kn_directory k)
      then has_manifest (kn_directory k') \<and> ds_serial (kn_directory k) \<le> ds_serial (kn_directory k') else True) \<and>
     serial_le (Option.bind (kn_trust k) ts_keystate_serial) (Option.bind (kn_trust k') ts_keystate_serial)"

text \<open>
  The calls on a kernel, one after another. The store underneath may change in any way between
  them (other documents, other processes, corruption).
\<close>

inductive kernel_step :: "'s kernel_env \<Rightarrow> Kernel \<times> 's docs \<Rightarrow> Kernel \<times> 's docs \<Rightarrow> bool" for ke where
  step_manifest: "accept_manifest ke envelope meta now_ms st = (r, st') \<Longrightarrow> kernel_step ke st st'"
| step_recovery: "accept_recovery ke link now_ms st = (r, st') \<Longrightarrow> kernel_step ke st st'"
| step_keystate: "accept_keystate ke envelope meta st = (r, st') \<Longrightarrow> kernel_step ke st st'"
| step_store: "kernel_step ke (k, docs) (k, docs')"

inductive kernel_run :: "'s kernel_env \<Rightarrow> Kernel \<times> 's docs \<Rightarrow> Kernel \<times> 's docs \<Rightarrow> bool" for ke where
  kernel_run_refl: "kernel_run ke st st"
| kernel_run_step: "kernel_run ke st st' \<Longrightarrow> kernel_step ke st' st'' \<Longrightarrow> kernel_run ke st st''"

text \<open>The documents that a start may use.\<close>

definition stored_candidate ::
  "'s kernel_env \<Rightarrow> ManifestStore \<Rightarrow> TrustStore \<Rightarrow> i64 \<Rightarrow> 's docs \<Rightarrow> VerifiedAccessManifest \<Rightarrow> bool" where
  "stored_candidate ke ms trust now_ms docs v \<longleftrightarrow>
     (\<exists>doc_record bytes. load_document (ke_ops ke) (ke_json ke) ms DocAccess docs = Inr (Some doc_record) \<and>
        envelope_bytes (ke_trust ke) doc_record = Inr bytes \<and>
        verify_stored_access (ke_trust ke) trust bytes now_ms = Inr v)"

definition seed_candidate ::
  "'s kernel_env \<Rightarrow> AccessConfig \<Rightarrow> TrustStore \<Rightarrow> i64 \<Rightarrow> VerifiedAccessManifest \<Rightarrow> bool" where
  "seed_candidate ke config trust now_ms v \<longleftrightarrow>
     (case seed_bytes config of
        None \<Rightarrow> False
      | Some bytes \<Rightarrow> verify_access (ke_trust ke) trust bytes now_ms = Inr v)"

text \<open>A configuration with one root and a seed, and the kernel's environment for it.\<close>

definition example_access_config :: AccessConfig where
  "example_access_config =
     \<lparr> ac_bootstrap_id = ''b1'', ac_trust_roots = [(''root-a'', replicate 32 (CHR ''r''))],
       ac_seed = Some ''E-ACCESS'', ac_trust_mode = TmProduction, ac_has_development_endpoints = False \<rparr>"

definition example_kernel_env :: "MemoryAccessStore kernel_env" where
  "example_kernel_env =
     \<lparr> ke_ops = memory_ops, ke_json = example_json, ke_trust = example_trust_env, ke_fragment_json = (\<lambda>_. None) \<rparr>"

section \<open>Lemmas\<close>

subsection \<open>Verified manifests\<close>

lemma verify_recovery_Inr:
  assumes "verify_recovery te st bytes = Inr v"
  obtains recovery t where "to_access_manifest (te_readers te) recovery = Inr (va_manifest v, t)"
    "am_bootstrap_id (va_manifest v) = ts_bootstrap_id st" "va_serial v = am_serial (va_manifest v)"
  using assms by (auto simp: verify_recovery_def check_simps verified_access_def split: if_split_asm)

lemma vouched_manifest:
  assumes "vouched te roots bootstrap_id v"
  shows "manifest_ok (va_manifest v)" "am_bootstrap_id (va_manifest v) = bootstrap_id"
    "va_serial v = am_serial (va_manifest v)"
proof -
  obtain st bytes now_ms where st: "ts_bootstrap_id st = bootstrap_id"
    and ok: "verify_access te st bytes now_ms = Inr v \<or> verify_recovery te st bytes = Inr v"
    using assms by (auto simp: vouched_def)
  from ok have "\<exists>t. validate_manifest (te_readers te) (va_manifest v) = Inr t \<and>
      am_bootstrap_id (va_manifest v) = ts_bootstrap_id st \<and> va_serial v = am_serial (va_manifest v)"
  proof
    assume "verify_access te st bytes now_ms = Inr v"
    then show ?thesis
      unfolding verify_access_def
      by (rule verify_access_with_Inr) (metis access_from_slice_Inr VerifiedAccessManifest.select_convs(1,2) verified_access_def)
  next
    assume "verify_recovery te st bytes = Inr v"
    then show ?thesis by (rule verify_recovery_Inr) (use to_access_manifest_Inr(1) in blast)
  qed
  then show "manifest_ok (va_manifest v)" "am_bootstrap_id (va_manifest v) = bootstrap_id"
    "va_serial v = am_serial (va_manifest v)"
    using st validate_manifest_ok(1) by auto
qed

lemma verify_stored_access_cases:
  assumes "verify_stored_access te st bytes now_ms = Inr v"
  shows "verify_access te st bytes now_ms = Inr v \<or> verify_recovery te st bytes = Inr v"
  using assms by (auto simp: verify_stored_access_def check_simps split: if_split_asm)

lemma vouchedI:
  "verify_access te st bytes now_ms = Inr v \<Longrightarrow> vouched te (ts_roots st) (ts_bootstrap_id st) v"
  "verify_recovery te st bytes = Inr v \<Longrightarrow> vouched te (ts_roots st) (ts_bootstrap_id st) v"
  "verify_stored_access te st bytes now_ms = Inr v \<Longrightarrow> vouched te (ts_roots st) (ts_bootstrap_id st) v"
  using verify_stored_access_cases unfolding vouched_def by blast+

subsection \<open>The directory\<close>

lemma from_verified_sel [simp]:
  "has_manifest (from_verified v source)" "\<not> is_development (from_verified v source)"
  "ds_serial (from_verified v source) = va_serial v"
  by (simp_all add: has_manifest_def is_development_def from_verified_def split: prod.split)

lemma unavailable_sel [simp]: "\<not> has_manifest (unavailable i sources)" "ds_access_points (unavailable i sources) = []"
  by (simp_all add: has_manifest_def unavailable_def)

lemma directory_trusted_usable:
  assumes "directory_trusted te roots bootstrap_id d"
  shows "list_all entry_usable (ds_access_points d)"
  using assms from_verified_entries vouched_manifest(1) by (auto simp: directory_trusted_def split: if_split_asm)

lemma with_keystate_kept [simp]:
  "ts_roots (with_keystate st ks) = ts_roots st" "ts_bootstrap_id (with_keystate st ks) = ts_bootstrap_id st"
  by (simp_all add: with_keystate_def)

lemma with_keystate_serial:
  "serial_le (ts_keystate_serial st) (ts_keystate_serial (with_keystate st ks))"
  by (auto simp: with_keystate_def serial_le_def split: option.split)

lemma kernel_le_refl [simp]: "kernel_le k k"
  by (simp add: kernel_le_def)

lemma kernel_le_trans: "kernel_le a b \<Longrightarrow> kernel_le b c \<Longrightarrow> kernel_le a c"
  unfolding kernel_le_def by (auto split: if_split_asm elim: serial_le_trans)

subsection \<open>Each call keeps the invariant\<close>

lemma install_ok:
  assumes "kernel_ok te roots bootstrap_id k" "vouched te roots bootstrap_id v"
  shows "kernel_ok te roots bootstrap_id (snd (install v meta now_ms persisted k)) \<and>
    kernel_le k (snd (install v meta now_ms persisted k))"
proof (cases "va_serial v \<le> ds_serial (kn_directory k) \<and> \<not> is_development (kn_directory k) \<and> has_manifest (kn_directory k)")
  case True
  then have "snd (install v meta now_ms persisted k) = k"
    by (simp add: install_def replace_if_newer_def Let_def)
  then show ?thesis using assms(1) by simp
next
  case False
  let ?d = "from_verified v (fm_source meta)"
  have k': "snd (install v meta now_ms persisted k) =
      k \<lparr> kn_directory := ?d, kn_fetched_at_ms := fm_fetched_at_ms meta, kn_health_policy := ds_policy ?d \<rparr>"
    using False by (auto simp: install_def replace_if_newer_def Let_def)
  have "directory_trusted te roots bootstrap_id ?d"
    using assms(2) by (auto simp: directory_trusted_def)
  moreover have "ds_serial (kn_directory k) \<le> va_serial v" if "has_manifest (kn_directory k)"
    using that False assms(1) by (auto simp: kernel_ok_def directory_trusted_def not_le less_imp_le)
  ultimately show ?thesis
    unfolding k' using assms(1) by (simp add: kernel_ok_def kernel_le_def)
qed

lemma adopt_kernel:
  "fst (snd (adopt ke v meta now_ms st)) \<in> insert (fst st) (range (\<lambda>persisted. snd (install v meta now_ms persisted (fst st))))"
proof -
  obtain k docs where st: "st = (k, docs)" by (cases st)
  show ?thesis
  proof (cases "kn_manifests k")
    case (Some ms)
    obtain r docs' where commit: "commit_access (ke_ops ke) (ke_json ke) (ke_trust ke) ms v meta docs = (r, docs')"
      by (cases "commit_access (ke_ops ke) (ke_json ke) (ke_trust ke) ms v meta docs")
    show ?thesis
      by (cases r) (auto simp: adopt_def st Some commit case_prod_unfold image_iff split: AcceptError.split)
  qed (simp add: adopt_def st)
qed

lemma adopt_ok:
  assumes "kernel_ok te roots bootstrap_id (fst st)" "vouched te roots bootstrap_id v"
  shows "kernel_ok te roots bootstrap_id (fst (snd (adopt ke v meta now_ms st))) \<and>
    kernel_le (fst st) (fst (snd (adopt ke v meta now_ms st)))"
  using adopt_kernel [of ke v meta now_ms st] install_ok [OF assms] assms(1) by (elim insertE imageE) auto

lemma kernel_ok_trust:
  assumes "kernel_ok te roots bootstrap_id k" "kn_trust k = Some trust"
  shows "ts_roots trust = roots" "ts_bootstrap_id trust = bootstrap_id"
  using assms by (simp_all add: kernel_ok_def)

lemma accept_keystate_ok:
  assumes "kernel_ok te roots bootstrap_id (fst st)" "accept_keystate ke envelope meta st = (r, st')"
  shows "kernel_ok te roots bootstrap_id (fst st') \<and> kernel_le (fst st) (fst st')"
proof -
  obtain k docs where st: "st = (k, docs)" by (cases st)
  obtain trust where trust: "kn_trust k = Some trust"
    using assms(1) st by (auto simp: kernel_ok_def split: option.split_asm)
  have "fst st' = k \<or> (\<exists>ks. fst st' = k \<lparr> kn_trust := Some (with_keystate trust ks) \<rparr>)"
    using assms(2)
    by (auto simp: accept_keystate_def keystate_finish_def st trust Let_def
        split: prod.split_asm option.split_asm sum.split_asm AcceptError.split_asm AcceptOutcome.split_asm if_split_asm)
  then show ?thesis
    using assms(1) st trust with_keystate_serial by (auto simp: kernel_ok_def kernel_le_def)
qed

lemma accept_manifest_ok:
  assumes "kernel_ok (ke_trust ke) roots bootstrap_id (fst st)" "accept_manifest ke envelope meta now_ms st = (r, st')"
  shows "kernel_ok (ke_trust ke) roots bootstrap_id (fst st') \<and> kernel_le (fst st) (fst st')"
proof (cases "st' = st")
  case False
  then obtain trust v where trust: "kn_trust (fst st) = Some trust"
    and v: "verify_access (ke_trust ke) trust envelope now_ms = Inr v" and st': "st' = snd (adopt ke v meta now_ms st)"
    using assms(2) by (auto simp: accept_manifest_def split: option.split_asm sum.split_asm)
  show ?thesis
    unfolding st' using vouchedI(1) [OF v] kernel_ok_trust [OF assms(1) trust] by (intro adopt_ok [OF assms(1)]) simp
qed (use assms(1) in simp)

lemma accept_recovery_ok:
  assumes "kernel_ok (ke_trust ke) roots bootstrap_id (fst st)" "accept_recovery ke link now_ms st = (r, st')"
  shows "kernel_ok (ke_trust ke) roots bootstrap_id (fst st') \<and> kernel_le (fst st) (fst st')"
proof (cases "st' = st")
  case False
  then obtain trust envelope v where trust: "kn_trust (fst st) = Some trust"
    and v: "verify_recovery (ke_trust ke) trust (te_envelope_to_json (ke_trust ke) envelope) = Inr v"
    and st': "st' = snd (adopt ke v (new_meta SrcRecovery now_ms) now_ms st)"
    using assms(2) by (auto simp: accept_recovery_def split: option.split_asm sum.split_asm)
  show ?thesis
    unfolding st' using vouchedI(2) [OF v] kernel_ok_trust [OF assms(1) trust] by (intro adopt_ok [OF assms(1)]) simp
qed (use assms(1) in simp)

lemma kernel_step_ok:
  assumes "kernel_step ke st st'" "kernel_ok (ke_trust ke) roots bootstrap_id (fst st)"
  shows "kernel_ok (ke_trust ke) roots bootstrap_id (fst st') \<and> kernel_le (fst st) (fst st')"
  using assms(1)
proof cases
  case step_manifest
  then show ?thesis by (rule accept_manifest_ok [OF assms(2)])
next
  case step_recovery
  then show ?thesis by (rule accept_recovery_ok [OF assms(2)])
next
  case step_keystate
  then show ?thesis by (rule accept_keystate_ok [OF assms(2)])
next
  case (step_store k docs docs')
  then show ?thesis using assms(2) by simp
qed

lemma kernel_run_ok:
  assumes "kernel_run ke st st'" "kernel_ok (ke_trust ke) roots bootstrap_id (fst st)"
  shows "kernel_ok (ke_trust ke) roots bootstrap_id (fst st') \<and> kernel_le (fst st) (fst st')"
  using assms
proof (induction rule: kernel_run.induct)
  case (kernel_run_step st st' st'')
  then show ?case using kernel_step_ok kernel_le_trans by blast
qed simp

subsection \<open>The start\<close>

lemma load_lkg_candidate:
  "stored_candidate ke ms trust now_ms docs v \<longleftrightarrow>
     (\<exists>doc_record. fst (load_lkg ke ms trust now_ms docs) = Some (v, doc_record))"
  by (auto simp: stored_candidate_def load_lkg_def split: sum.split option.split)

lemma verify_seed_candidate:
  "seed_candidate ke config trust now_ms v \<longleftrightarrow> fst (verify_seed ke config trust now_ms) = Some v"
  by (auto simp: seed_candidate_def verify_seed_def split: option.split sum.split)

lemma load_keystate_kept:
  assumes "load_keystate ke ms trust docs = (trust', ws)"
  shows "ts_roots trust' = ts_roots trust" "ts_bootstrap_id trust' = ts_bootstrap_id trust"
  using assms by (auto simp: load_keystate_def split: sum.split_asm option.split_asm)

lemma seed_candidate_unique:
  "seed_candidate ke config trust now_ms v \<Longrightarrow> seed_candidate ke config trust now_ms w \<Longrightarrow> w = v"
  by (auto simp: seed_candidate_def split: option.split_asm)

lemma choose_initial_cases:
  assumes "choose_initial ke ms config trust now_ms docs = (chosen, ws, docs')"
  obtains
    (stored) v source fetched where "chosen = InitManifest v source IoLkg fetched" "docs' = docs"
      "stored_candidate ke ms trust now_ms docs v"
      "\<And>w. seed_candidate ke config trust now_ms w \<Longrightarrow> va_serial w \<le> va_serial v"
  | (seed) v origin ws' where "chosen = InitManifest v SrcSeed origin 0"
      "adopt_seed ke ms v now_ms docs = (origin, ws', docs')"
      "seed_candidate ke config trust now_ms v"
      "\<And>w. stored_candidate ke ms trust now_ms docs w \<Longrightarrow> va_serial w \<le> va_serial v"
  | (neither) sources where "chosen = InitUnavailable sources" "docs' = docs"
      "\<And>w. \<not> stored_candidate ke ms trust now_ms docs w" "\<And>w. \<not> seed_candidate ke config trust now_ms w"
proof -
  obtain lkg lkg_error ws1 where lkg: "load_lkg ke ms trust now_ms docs = (lkg, lkg_error, ws1)"
    by (cases "load_lkg ke ms trust now_ms docs")
  obtain seed seed_error ws2 where seed: "verify_seed ke config trust now_ms = (seed, seed_error, ws2)"
    by (cases "verify_seed ke config trust now_ms")
  have is_stored: "stored_candidate ke ms trust now_ms docs v \<longleftrightarrow> (\<exists>r. lkg = Some (v, r))" for v
    by (simp add: load_lkg_candidate lkg)
  have is_seed: "seed_candidate ke config trust now_ms v \<longleftrightarrow> seed = Some v" for v
    using verify_seed_candidate [of ke config trust now_ms v] by (simp add: seed)
  note chosen = assms [unfolded choose_initial_def lkg seed Let_def prod.case]
  consider (newer) l r v where "lkg = Some (l, r)" "seed = Some v" "va_serial l < va_serial v"
    | (lkg) l r where "lkg = Some (l, r)" "case seed of None \<Rightarrow> True | Some w \<Rightarrow> va_serial w \<le> va_serial l"
    | (seed) v where "lkg = None" "seed = Some v" | (none) "lkg = None" "seed = None"
    by (cases lkg; cases seed) (force simp: not_less)+
  then show thesis
  proof cases
    case newer
    then obtain ws' where "initial_from_seed ke ms v now_ms docs = (chosen, ws', docs')"
      using chosen newer by (auto split: prod.split_asm)
    then obtain origin ws'' where "adopt_seed ke ms v now_ms docs = (origin, ws'', docs')"
      "chosen = InitManifest v SrcSeed origin 0"
      by (auto simp: initial_from_seed_def split: prod.split_asm)
    then show ?thesis using newer is_stored is_seed by (intro that(2)) auto
  next
    case lkg
    then have "chosen = InitManifest l (sd_source r) IoLkg (sd_fetched_at_ms r) \<and> docs' = docs"
      using chosen by (cases seed) (auto simp: not_less [symmetric])
    then show ?thesis using lkg is_stored is_seed by (intro that(1)) auto
  next
    case seed
    then obtain ws' where "initial_from_seed ke ms v now_ms docs = (chosen, ws', docs')"
      using chosen by (auto split: prod.split_asm)
    then obtain origin ws'' where "adopt_seed ke ms v now_ms docs = (origin, ws'', docs')"
      "chosen = InitManifest v SrcSeed origin 0"
      by (auto simp: initial_from_seed_def split: prod.split_asm)
    then show ?thesis using seed is_stored is_seed by (intro that(2)) auto
  next
    case none
    then show ?thesis using chosen is_stored is_seed by (intro that(3)) auto
  qed
qed

lemma bootstrap_production_ok:
  assumes "bootstrap_production ke config now_ms s = Inr (k, origin, ws, docs)"
  obtains roots where "roots_from_config (ke_trust ke) (ac_trust_roots config) = Inr roots"
    "kernel_ok (ke_trust ke) roots (effective_bootstrap_id config) k"
proof -
  let ?id = "effective_bootstrap_id config"
  obtain roots trust where roots: "roots_from_config (ke_trust ke) (ac_trust_roots config) = Inr roots"
    and new: "trust_store_new roots ?id = Inr trust"
    using assms by (auto simp: bootstrap_production_def check_simps Let_def split: option.split_asm)
  have trust: "ts_roots trust = roots" "ts_bootstrap_id trust = ?id"
    using new by (auto simp: trust_store_new_def split: if_split_asm)
  define ms where "ms = manifest_store_new ?id (tr_fingerprint (ts_roots trust))"
  obtain trust' ws1 where loaded: "load_keystate ke ms trust (s, Map.empty) = (trust', ws1)"
    by (cases "load_keystate ke ms trust (s, Map.empty)")
  obtain chosen ws2 docs' where chosen: "choose_initial ke ms config trust' now_ms (s, Map.empty) = (chosen, ws2, docs')"
    by (cases "choose_initial ke ms config trust' now_ms (s, Map.empty)")
  have k: "kn_trust k = Some trust'" "kn_directory k = fst (initial_snapshot ?id chosen)"
    "kn_health_policy k = ds_policy (kn_directory k)"
    using assms roots new loaded chosen
    by (auto simp: bootstrap_production_def map_err_def and_then_def Let_def ms_def
        split: option.split_asm prod.split_asm)
  have kept: "ts_roots trust' = roots" "ts_bootstrap_id trust' = ?id"
    using load_keystate_kept [OF loaded] trust by simp_all
  from chosen have "directory_trusted (ke_trust ke) roots ?id (fst (initial_snapshot ?id chosen))"
  proof (cases rule: choose_initial_cases)
    case (stored v source fetched)
    then show ?thesis
      using vouchedI(3) [where st = trust'] kept by (auto simp: initial_snapshot_def directory_trusted_def stored_candidate_def)
  next
    case (seed v origin ws')
    then show ?thesis
      using vouchedI(1) [where st = trust'] kept
      by (auto simp: initial_snapshot_def directory_trusted_def seed_candidate_def split: option.split_asm)
  next
    case (neither sources)
    then show ?thesis by (simp add: initial_snapshot_def directory_trusted_def)
  qed
  then have "kernel_ok (ke_trust ke) roots ?id k"
    by (simp add: kernel_ok_def k(1,3)) (simp add: k(2) kept)
  with roots show ?thesis by (rule that)
qed

lemma adopt_seed_effect:
  assumes "adopt_seed ke ms v now_ms (s, Map.empty) = (origin, ws, docs)" "ke_ops ke = memory_ops"
  shows "(case origin of
      IoSeed True \<Rightarrow> stored_serial (ke_json ke) ms DocAccess (mem_entries (fst docs)) = Some (va_serial v)
    | IoSeed False \<Rightarrow> mem_entries (fst docs) = mem_entries s
    | _ \<Rightarrow> False) \<and>
    serial_le (stored_serial (ke_json ke) ms DocAccess (mem_entries s))
      (stored_serial (ke_json ke) ms DocAccess (mem_entries (fst docs)))"
proof -
  obtain r docs' where commit: "commit_access memory_ops (ke_json ke) (ke_trust ke) ms v (new_meta SrcSeed now_ms)
      (s, Map.empty) = (r, docs')"
    by (cases "commit_access memory_ops (ke_json ke) (ke_trust ke) ms v (new_meta SrcSeed now_ms) (s, Map.empty)")
  have "coherent (ke_json ke) ms (mem_entries s) Map.empty" by (simp add: coherent_def)
  then have effect: "commit_effect (ke_json ke) ms DocAccess (va_serial v) (mem_entries s) r (mem_entries (fst docs'))"
    using memory_docs.commit_store_effect [OF commit [unfolded commit_access_def]] by blast
  have docs: "docs = docs'"
    and origin: "origin = (case r of Inr _ \<Rightarrow> IoSeed True | Inl _ \<Rightarrow> IoSeed False)"
    using assms commit
    by (auto simp: adopt_seed_def split: sum.split_asm AcceptError.split_asm TrustError.split_asm prod.split_asm)
  show ?thesis
    using effect unfolding docs origin by (auto simp: commit_effect_def split: sum.split_asm AcceptError.split_asm)
qed

subsection \<open>Properties\<close>

text \<open>C5. From the start of a production kernel on, whatever documents, recovery links and key states
  it is given and whatever happens to its store, its directory is either empty or the expansion of
  a manifest of this application that the configured roots vouch for, every access point in it is
  one a client may use, and the health policy in force is that manifest's. The manifest in use is
  never withdrawn or replaced by an older one, and the key state in use never goes back.
\<close>

theorem kernel_directory_trusted:
  assumes "bootstrap_production ke config now_ms s = Inr (k, origin, ws, docs)"
    and "kernel_run ke (k, docs) (k', docs')"
  shows "(case roots_from_config (ke_trust ke) (ac_trust_roots config) of
      Inl _ \<Rightarrow> False
    | Inr roots \<Rightarrow> kernel_ok (ke_trust ke) roots (effective_bootstrap_id config) k') \<and>
    list_all entry_usable (ds_access_points (kn_directory k')) \<and> kernel_le k k'"
  using assms(1)
proof (rule bootstrap_production_ok)
  fix roots
  assume "roots_from_config (ke_trust ke) (ac_trust_roots config) = Inr roots"
    "kernel_ok (ke_trust ke) roots (effective_bootstrap_id config) k"
  then show ?thesis
    using kernel_run_ok [OF assms(2), of roots "effective_bootstrap_id config"] directory_trusted_usable
    by (auto simp: kernel_ok_def)
qed

lemma example_bootstrap:
  "case bootstrap_production example_kernel_env example_access_config 1500 example_empty of
     Inl _ \<Rightarrow> False
   | Inr (k, origin, ws, docs) \<Rightarrow> origin = IoSeed True \<and> ws = [] \<and> ds_serial (kn_directory k) = 7 \<and>
       length (ds_access_points (kn_directory k)) = 1"
  by code_simp

theorem kernel_directory_trusted_witness:
  "\<exists>k origin ws docs. bootstrap_production example_kernel_env example_access_config 1500 example_empty =
       Inr (k, origin, ws, docs) \<and> length (ds_access_points (kn_directory k)) = 1 \<and>
     list_all entry_usable (ds_access_points (kn_directory k))"
proof -
  obtain k origin ws docs where start: "bootstrap_production example_kernel_env example_access_config 1500 example_empty =
      Inr (k, origin, ws, docs)" "length (ds_access_points (kn_directory k)) = 1"
    using example_bootstrap by (auto split: sum.split_asm)
  then show ?thesis
    using kernel_directory_trusted [OF start(1) kernel_run_refl] by blast
qed

text \<open>C15. A start uses the newest manifest it can trust: the stored one or the built-in seed, each
  verified against the current trust material, with the larger serial, and an empty directory only
  if neither verifies. Choosing the stored manifest writes nothing; a seed that is used is either
  stored with its serial or leaves the stored documents as they are, so an old seed that serves in
  place of a damaged stored manifest never lowers the stored serial.
\<close>

theorem start_uses_newest:
  assumes "choose_initial ke ms config trust now_ms (s, Map.empty) = (chosen, ws, docs)" "ke_ops ke = memory_ops"
  shows "(case chosen of
      InitManifest v _ origin _ \<Rightarrow>
        (case origin of
           IoLkg \<Rightarrow> stored_candidate ke ms trust now_ms (s, Map.empty) v \<and> fst docs = s
         | IoSeed True \<Rightarrow> seed_candidate ke config trust now_ms v \<and>
             stored_serial (ke_json ke) ms DocAccess (mem_entries (fst docs)) = Some (va_serial v)
         | IoSeed False \<Rightarrow> seed_candidate ke config trust now_ms v \<and> mem_entries (fst docs) = mem_entries s
         | _ \<Rightarrow> False) \<and>
        (\<forall>w. stored_candidate ke ms trust now_ms (s, Map.empty) w \<or> seed_candidate ke config trust now_ms w \<longrightarrow>
           va_serial w \<le> va_serial v)
    | InitUnavailable _ \<Rightarrow>
        (\<forall>w. \<not> stored_candidate ke ms trust now_ms (s, Map.empty) w \<and> \<not> seed_candidate ke config trust now_ms w)) \<and>
    serial_le (stored_serial (ke_json ke) ms DocAccess (mem_entries s))
      (stored_serial (ke_json ke) ms DocAccess (mem_entries (fst docs)))"
  using assms(1)
proof (cases rule: choose_initial_cases)
  case (stored v source fetched)
  have "w = v" if "stored_candidate ke ms trust now_ms (s, Map.empty) w" for w
    using that stored(3) by (auto simp: stored_candidate_def)
  then have "\<forall>w. stored_candidate ke ms trust now_ms (s, Map.empty) w \<or> seed_candidate ke config trust now_ms w \<longrightarrow>
      va_serial w \<le> va_serial v"
    using stored(4) by fastforce
  then show ?thesis using stored(3) by (simp add: stored(1,2))
next
  case (seed v origin ws')
  have newest: "\<forall>w. stored_candidate ke ms trust now_ms (s, Map.empty) w \<or> seed_candidate ke config trust now_ms w \<longrightarrow>
      va_serial w \<le> va_serial v"
    using seed(4) seed_candidate_unique [OF seed(3)] by fastforce
  obtain persisted where "origin = IoSeed persisted"
    using adopt_seed_effect [OF seed(2) assms(2)] by (cases origin) simp_all
  then show ?thesis
    using newest seed(3) adopt_seed_effect [OF seed(2) assms(2)] by (cases persisted) (auto simp: seed(1))
next
  case (neither sources)
  then show ?thesis by simp
qed

lemma example_choice:
  "case choose_initial example_kernel_env example_docs example_access_config example_store 1500 (example_empty, Map.empty) of
     (InitManifest v source origin fetched, ws, docs) \<Rightarrow> origin = IoSeed True \<and> va_serial v = 7
   | _ \<Rightarrow> False"
  by code_simp

theorem start_uses_newest_witness:
  "\<exists>v source fetched ws docs. choose_initial example_kernel_env example_docs example_access_config example_store 1500
       (example_empty, Map.empty) = (InitManifest v source (IoSeed True) fetched, ws, docs) \<and>
     stored_serial example_json example_docs DocAccess (mem_entries (fst docs)) = Some 7"
proof -
  obtain v source fetched ws docs where choice: "choose_initial example_kernel_env example_docs example_access_config
      example_store 1500 (example_empty, Map.empty) = (InitManifest v source (IoSeed True) fetched, ws, docs)"
    "va_serial v = 7"
    using example_choice by (auto split: prod.split_asm Initial.split_asm)
  then show ?thesis
    using start_uses_newest [OF choice(1)] by (simp add: example_kernel_env_def)
qed

text \<open>
  A key state older than the one in use, when the store fails: the call reports it as adopted
  although the trust material is unchanged.
\<close>

lemma stale_keystate_reported_adopted:
  assumes "kn_trust k = Some current" "kn_manifests k = Some ms"
    and "verify_keystate (ke_trust ke) current envelope = Inr keystate"
    and "ts_keystate_serial current = Some n" "vk_serial keystate < n"
    and "commit_keystate (ke_ops ke) (ke_json ke) (ke_trust ke) ms keystate meta docs = (Inl (AeStore e), docs')"
  shows "accept_keystate ke envelope meta (k, docs) =
    (Inr (KuAdopted (vk_serial keystate) (current_manifest_revoked k)), k, docs')"
proof -
  have kept: "with_keystate current keystate = current" "k \<lparr> kn_trust := Some current \<rparr> = k"
    using assms(1,4,5) by (cases k; simp add: with_keystate_def)+
  show ?thesis
    by (simp add: accept_keystate_def keystate_finish_def Let_def assms kept)
qed

text \<open>
  Two calls that both loaded the trust material before either stored it, the newer one storing
  first: the older key state ends up in use, and the revocations of the newer one are lost.
\<close>

lemma interleaved_keystates_lose_revocations:
  assumes "serial_le (ts_keystate_serial current) (Some (vk_serial old))" "vk_serial old < vk_serial new"
    and "keystate_finish current new (Inr (OutAdopted n m)) k = (r1, k1)"
    and "keystate_finish current old (Inr (OutAdopted n' m')) k1 = (r2, k2)"
  shows "map_option ts_revoked (kn_trust k1) = Some (vk_revoked new)"
    "map_option ts_revoked (kn_trust k2) = Some (vk_revoked old)"
    "Option.bind (kn_trust k2) ts_keystate_serial = Some (vk_serial old)"
  using assms by (auto simp: keystate_finish_def with_keystate_def serial_le_def Let_def split: option.split_asm)

end
