(* ===== verification/Spec2Isabelle.thy ===== *)
theory Spec2Isabelle
  imports Timeline_Coverage Conversation_Identity Summary_Merge Message_Fsm Dedupe Seq_Repair
    Timeline_Window Send_Queue_Props Access_Kernel
begin

text \<open>
  \<^bold>\<open>A verification development for the Flare IM core SDK\<close>

  The SDK (Rust, under \<open>src/\<close>) keeps a local copy of a user's conversations and messages, brings it
  up to date with a server, and sends messages reliably over a connection that comes and goes. It is
  layered: the value types (\<open>src/model\<close>), the decisions of the domain (\<open>src/domain\<close>), the state
  machines (\<open>src/kernel/fsm\<close>), the services that apply server events to the local store
  (\<open>src/application/services\<close>, \<open>src/runtime/dispatcher\<close>), the send queue
  (\<open>src/runtime/reliable_queue\<close>), and the views shown to a host (\<open>src/client/api\<close>). The parts
  modelled here are those in which the SDK decides something; the parts around them move data
  between stores, sockets and hosts. Beside it stands the access crate (\<open>access/src\<close>), which decides
  where to connect: it verifies signed manifests against built-in roots, keeps the last good ones,
  and expands them into a directory of access points.

  \<^bold>\<open>How the code is translated.\<close> A struct is a record, an enum a datatype, one definition stands for one
  function, and a handler is modelled as a whole, early returns included. \<open>u64\<close> and \<open>u32\<close> are words,
  so that \<open>+\<close> wraps as in a release build and saturating operations saturate; \<open>i64\<close> and \<open>i32\<close> are
  integers with their bounds written out; \<open>usize\<close> is a natural number. A string is the list of its
  UTF-8 bytes. A hash map that is only looked up is a map; one that is iterated is an association
  list, and the theorems about it do not depend on its order. Code outside the repository (the
  generated protocol types, the id scheme of the core crate, the JSON library, what a store answers;
  Base64, Ed25519, SHA-256 and the readers of JSON and of times for the access crate) is a parameter,
  and what the code relies on is a named hypothesis of the theorem that uses it.

  \<^bold>\<open>Theories.\<close>

  \<^item> \<open>Prelude\<close>: words, saturating arithmetic, slices. \<open>Text\<close>: trimming, characters, decimal numbers.
    \<open>Compare\<close>: orderings and stable sorting; the locale \<open>comparison_on\<close> is what \<open>sort_by\<close> asks of a
    comparison.

  \<^item> \<open>Timeline_Coverage\<close> (\<open>domain/timeline/coverage.rs\<close>): the ranges of sequence numbers that the local
    store holds completely. Inserting refines set union on a canonical form, and after any sequence of
    server pages no visible message in a proven range is missing.

  \<^item> \<open>Display_Name\<close>, \<open>Conversation_Model\<close>, \<open>Conversation_Identity\<close>, \<open>Read_Position\<close>, \<open>Summary_Merge\<close>
    (\<open>domain/display_name\<close>, \<open>model/conversation.rs\<close>, \<open>domain/conversation\<close>): names, conversions, ids,
    read marks and the merge of a server summary. A merge rolls nothing back, read marks are monotone,
    titles are real names, canonical ids are stable, and every error of the id resolution is
    characterised.

  \<^item> \<open>Message_Fsm\<close> (\<open>kernel/fsm\<close>): the life of a message and of the sync, as step functions with runs.

  \<^item> \<open>Dedupe\<close> (\<open>application/services/event_deduper.rs\<close>, \<open>message_deduper.rs\<close>): the windows of keys
    already seen, with their invariant and bound. \<open>Seq_Repair\<close> (\<open>runtime/dispatcher/mod.rs\<close>): gaps in
    the sequence numbers and the requests that repair them; an inductive reachability relation shows
    that at most one repair of a conversation is in flight.

  \<^item> \<open>Message_Model\<close> (\<open>model/message.rs\<close>): row keys, sort times, the timeline order and reactions.
    \<open>Timeline_Window\<close> (\<open>client/api/view_window.rs\<close>): the window of an open view; applying the delta
    between two versions to the old one gives the new one.

  \<^item> \<open>Sdk_Error\<close> (\<open>shared/error.rs\<close>): what errors carry. \<open>Delivery\<close> (\<open>domain/message/delivery.rs\<close>):
    what to do with a pending, failed, timed out or acknowledged message.

  \<^item> \<open>Pending_Store\<close> (\<open>domain/pending_send.rs\<close>, \<open>infrastructure/persistence/memory.rs\<close>): the outbox.
    The locale \<open>pending_store\<close> is the contract that the send queue relies on; the in-memory store
    interprets it.

  \<^item> \<open>Send_Queue\<close> (\<open>runtime/reliable_queue/actor.rs\<close>): the actor with all its commands, its periodic
    check, the probe of a stalled connection and the writer, as functions on the record \<open>QueueState\<close>;
    \<open>queue_step\<close> and \<open>queue_reachable\<close> are its runs, in any order of commands and with hash maps
    iterated in any order. The loop of \<open>try_send_next\<close> is a function with a termination proof: each
    round takes what it picked out of the set of dispatchable ids, so no fuel is needed.
    \<open>Send_Queue_Inv\<close> proves the invariant of the tables, \<open>Send_Queue_Reports\<close> that messages leave the
    outbox only with a report, that nothing sendable waits and the order of sending, and
    \<open>Send_Queue_Props\<close> the theorems on reachable states, the retry budget, the first-in-first-out
    outbox and the probe timer.

  \<^item> \<open>Net_Text\<close> (the standard library on network texts) and \<open>Parsed_Url\<close> (\<open>access/src/parsed_url.rs\<close>):
    the URL parser; what it accepts is a normal form that its display form parses back to.

  \<^item> \<open>Client_Policy\<close>, \<open>Access_Manifest\<close>, \<open>Release_Manifest\<close> (\<open>access/src/manifest\<close>): the documents and
    every check on them. A resolved policy is within its bounds whatever JSON it comes from; a
    validated manifest has unique ids, a home cell and only usable access points; the downloads of a
    validated release are https with a digest.

  \<^item> \<open>Envelope\<close>, \<open>Trust\<close> (\<open>access/src/trust\<close>): signed envelopes, recovery links, roots, certificates,
    revocation and verification. The signed bytes determine type and payload, recovery links read
    back, an accepted manifest rests on a built-in root, and what the signing tools write is accepted.

  \<^item> \<open>Manifest_Store\<close> (\<open>access/src/store\<close>): the stored documents and their serials. The locale
    \<open>access_store\<close> is the contract of the key-value store, interpreted by the in-memory one; through
    commits, restarts (\<open>docs_run\<close>) and failing writes the stored serial never goes back.

  \<^item> \<open>Directory\<close> (\<open>access/src/directory\<close>) and \<open>Access_Kernel\<close> (\<open>access/src/kernel.rs\<close>): the directory and
    the facade. Along any run of calls (\<open>kernel_run\<close>) the directory is empty or a manifest the roots
    vouch for, and neither it nor the key state goes back; a start uses the newest document it can
    trust.

  \<^bold>\<open>Composition.\<close> The queue uses the delivery decisions on the messages of \<open>Message_Model\<close> and the outbox
  of \<open>Pending_Store\<close>; the merge of summaries uses names, ids and read positions; the timeline window
  uses the timeline order. The access kernel verifies with \<open>Trust\<close>, commits to \<open>Manifest_Store\<close> and
  installs into \<open>Directory\<close>. The theorems of the client theories are about the composed definitions.

  \<^bold>\<open>Choices.\<close> One command of the queue reads the clock once, while the code reads it at each use; the
  order of the reads does not matter to the theorems. Calls that leave the queue are a log, in the
  order in which they are made; metrics and log lines are left out. The results of store reads and
  writes are inputs of a command, failures included. In the access crate a call is sequential and the
  swap of the directory one step; the one place where interleaved calls differ, the key state, is
  given by its steps. The doubles of a client policy are the rationals they denote.

  \<^bold>\<open>Not modelled.\<close> The application use cases and the client facades (sequences of calls to interfaces),
  content codecs and plugins (generated types and JSON), SQL and IndexedDB statements, sockets, HTTP
  and TLS, the event bus, platform adapters, the language bindings, the code generators and the
  example programs: they are I/O or generated code, and what they return is an input of the modelled
  parts. Of the access crate the fetchers (races of HTTP requests and timers), the DNS wire format,
  the health book and the selector (scores in rounded floating-point arithmetic), the development
  snapshot and the update flow are left out. Of \<open>model/message.rs\<close> the decoding of contents is left out, since it rests on the content
  codecs.
\<close>

end
